(* ===== verification/Prelude.thy ===== *)
theory Prelude
  imports Main "HOL-Library.Word"
begin

text \<open>
  Shared vocabulary of the development: the machine types of the Rust code, byte strings,
  big-endian integers and the list lemmas that several components use.

  \<^item> \<open>u8\<close> is \<open>byte\<close>, \<open>i32\<close> and \<open>usize\<close> are words of 32 and 64 bits; a Rust \<open>String\<close> is a
    \<open>string\<close>, whose characters are the bytes of its UTF-8 encoding.
  \<^item> An \<open>unwrap\<close>, an index out of range or a \<open>split_at\<close> off a character boundary panics in
    Rust: a pure helper that may panic returns \<open>None\<close> there.
\<close>

unbundle bit_operations_syntax

named_theorems steps_intro \<open>rules that split the steps of an asynchronous program\<close>
named_theorems run_simps \<open>rewrite rules that run an asynchronous program without interference\<close>
named_theorems frame_simps \<open>which part of the node an operation leaves alone\<close>

type_synonym byte = "8 word"
type_synonym bytes = "8 word list"
type_synonym i32 = "32 word"
type_synonym usize = "64 word"

section \<open>Strings as bytes\<close>

text \<open>\<open>str::as_bytes\<close>.\<close>

definition as_bytes :: "string \<Rightarrow> bytes" where
  "as_bytes s = map of_char s"

lemma length_as_bytes [simp]: "length (as_bytes s) = length s"
  by (simp add: as_bytes_def)

text \<open>
  \<open>str::split_at(1)\<close>: the first byte and the rest. It panics on the empty string and when byte 1
  is not a character boundary, that is, when it is a UTF-8 continuation byte (\<open>10xxxxxx\<close>).
\<close>

definition is_continuation :: "char \<Rightarrow> bool" where
  "is_continuation c = (128 \<le> (of_char c :: nat) \<and> (of_char c :: nat) < 192)"

fun split_at_1 :: "string \<Rightarrow> (string \<times> string) option" where
  "split_at_1 [] = None"
| "split_at_1 [c] = Some ([c], [])"
| "split_at_1 (c # d # cs) = (if is_continuation d then None else Some ([c], d # cs))"

lemma split_at_1_Some: "split_at_1 s = Some (a, b) \<Longrightarrow> s = a @ b \<and> length a = 1"
  by (cases s rule: split_at_1.cases) (auto split: if_splits)

lemma split_at_1_ascii:
  "(\<And>c. c \<in> set s \<Longrightarrow> \<not> is_continuation c) \<Longrightarrow> split_at_1 (a # s) = Some ([a], s)"
  by (cases s) auto

text \<open>\<open>i32::to_string\<close>.\<close>

fun nat_to_string :: "nat \<Rightarrow> string" where
  "nat_to_string n =
     (if n < 10 then [char_of (48 + n)] else nat_to_string (n div 10) @ [char_of (48 + n mod 10)])"

declare nat_to_string.simps [simp del]

definition i32_to_string :: "i32 \<Rightarrow> string" where
  "i32_to_string i =
     (if sint i < 0 then ''-'' @ nat_to_string (nat (- sint i)) else nat_to_string (nat (sint i)))"

section \<open>Big-endian integers\<close>

text \<open>
  \<open>be_enc k v\<close> is the last \<open>k\<close> bytes of the big-endian form of \<open>v\<close>: what \<open>put_u16\<close>,
  \<open>put_u32\<close> and \<open>to_be_bytes\<close> write for a \<open>k\<close>-byte integer. \<open>be_dec\<close> reads such bytes back.
\<close>

fun be_enc :: "nat \<Rightarrow> nat \<Rightarrow> bytes" where
  "be_enc 0 v = []"
| "be_enc (Suc k) v = be_enc k (v div 256) @ [of_nat v]"

definition be_dec :: "bytes \<Rightarrow> nat" where
  "be_dec bs = foldl (\<lambda>a b. a * 256 + unat b) 0 bs"

lemma length_be_enc [simp]: "length (be_enc k v) = k"
  by (induction k arbitrary: v) auto

lemma be_dec_Nil [simp]: "be_dec [] = 0"
  by (simp add: be_dec_def)

lemma be_dec_snoc [simp]: "be_dec (bs @ [b]) = be_dec bs * 256 + unat b"
  by (simp add: be_dec_def)

lemma unat_of_nat_byte [simp]: "unat (of_nat v :: byte) = v mod 256"
  by (simp add: unat_of_nat)

lemma be_dec_enc: "be_dec (be_enc k v) = v mod 256 ^ k"
proof (induction k arbitrary: v)
  case (Suc k)
  have "v mod 256 ^ Suc k = (v div 256) mod 256 ^ k * 256 + v mod 256"
    by (metis add.commute mod_mult2_eq mult.commute power_Suc)
  then show ?case by (simp add: Suc.IH)
qed simp

lemma be_dec_enc_id [simp]: "v < 256 ^ k \<Longrightarrow> be_dec (be_enc k v) = v"
  by (simp add: be_dec_enc)

lemma be_enc_dec: "be_enc (length bs) (be_dec bs) = bs"
proof (induction bs rule: rev_induct)
  case (snoc b bs)
  have "unat b < 256" using unsigned_less [of b] by simp
  moreover have "unat (of_nat (be_dec bs * 256 + unat b) :: byte) = unat b"
    unfolding unat_of_nat_byte using \<open>unat b < 256\<close> by simp
  then have "of_nat (be_dec bs * 256 + unat b) = b" by (simp only: word_unat_eq_iff)
  ultimately show ?case using snoc.IH by (simp del: of_nat_add of_nat_mult)
qed simp

lemma be_dec_less: "be_dec bs < 256 ^ length bs"
proof -
  have "be_dec bs = be_dec (be_enc (length bs) (be_dec bs))" by (simp add: be_enc_dec)
  also have "\<dots> < 256 ^ length bs" by (simp only: be_dec_enc) simp
  finally show ?thesis .
qed

lemma drop_be_enc: "drop j (be_enc (j + k) v) = be_enc k v"
proof (induction k arbitrary: v)
  case (Suc k)
  then show ?case by simp
qed simp

lemma be_dec_2: "be_dec [a, b] = unat a * 256 + unat b"
  by (simp add: be_dec_def)

lemma be_dec_4: "be_dec [a, b, c, d] = ((unat a * 256 + unat b) * 256 + unat c) * 256 + unat d"
  by (simp add: be_dec_def)

section \<open>Checked reads of byte vectors\<close>

text \<open>\<open>v[i]\<close> and \<open>v[i..j]\<close> of Rust: a panic out of range.\<close>

definition index_opt :: "'a list \<Rightarrow> nat \<Rightarrow> 'a option" where
  "index_opt xs i = (if i < length xs then Some (xs ! i) else None)"

definition slice :: "'a list \<Rightarrow> nat \<Rightarrow> nat \<Rightarrow> 'a list option" where
  "slice xs i j = (if i \<le> j \<and> j \<le> length xs then Some (take (j - i) (drop i xs)) else None)"

lemma index_opt_in [simp]: "i < length xs \<Longrightarrow> index_opt xs i = Some (xs ! i)"
  by (simp add: index_opt_def)

lemma index_opt_None [simp]: "index_opt xs i = None \<longleftrightarrow> length xs \<le> i"
  by (auto simp: index_opt_def)

lemma slice_None: "slice xs i j = None \<longleftrightarrow> j < i \<or> length xs < j"
  by (auto simp: slice_def)

lemma length_slice: "slice xs i j = Some ys \<Longrightarrow> length ys = j - i"
  by (auto simp: slice_def split: if_splits)

lemma slice_append: "length a = i \<Longrightarrow> slice (a @ b @ r) i (i + length b) = Some b"
  by (simp add: slice_def)

section \<open>First match in a list\<close>

text \<open>
  Lookup and removal of the first element with a property, the reference for the queue scans of
  the node.
\<close>

fun remove_first :: "('a \<Rightarrow> bool) \<Rightarrow> 'a list \<Rightarrow> 'a list" where
  "remove_first P [] = []"
| "remove_first P (x # xs) = (if P x then xs else x # remove_first P xs)"

lemma find_None_filter: "find P xs = None \<longleftrightarrow> (\<forall>x \<in> set xs. \<not> P x)"
  by (induction xs) auto

lemma set_remove_first_subset: "set (remove_first P xs) \<subseteq> set xs"
  by (induction xs) auto

lemma remove_first_none: "find P xs = None \<Longrightarrow> remove_first P xs = xs"
  by (induction xs) (auto split: if_splits)

end
