(* ===== verification/Async.thy ===== *)
theory Async
  imports Prelude
begin

text \<open>
  Asynchronous Rust as resumptions. A task is a program over a shared state. Each \<open>Act\<close> is one
  atomic section of the code: what runs under one lock, or one operation of a channel. It waits
  until its guard holds (a receiver that has nothing yet is a guard that does not hold), updates
  the state and goes on with a continuation that sees the state in which it ran. Between two
  \<open>Act\<close>s every other task may run, as at an \<open>await\<close> or after a lock is released. \<open>Panic\<close> is a
  Rust panic: it ends the task and nothing else.

  \<^item> \<open>run\<close> executes one task with no interference, for the functional behaviour of a handler.
  \<^item> \<open>steps_in I G Q p\<close> says what a task does in every interleaving in which the states keep \<open>I\<close>:
    each of its atomic steps is in \<open>G\<close>, and what it returns satisfies \<open>Q\<close>.
  \<^item> \<open>safe I p\<close> says that in every such interleaving it does not panic.
\<close>

section \<open>Programs\<close>

datatype (dead 's, 'a) prog =
    Ret 'a
  | Panic
  | Act "'s \<Rightarrow> bool" "'s \<Rightarrow> 's" "'s \<Rightarrow> ('s, 'a) prog"

primrec bind :: "('s, 'a) prog \<Rightarrow> ('a \<Rightarrow> ('s, 'b) prog) \<Rightarrow> ('s, 'b) prog" where
  "bind (Ret x) q = q x"
| "bind Panic q = Panic"
| "bind (Act g u k) q = Act g u (\<lambda>s. bind (k s) q)"

text \<open>\<open>p; q\<close> of Rust, where the value of \<open>p\<close> is not used.\<close>

definition andthen :: "('s, 'a) prog \<Rightarrow> ('s, 'b) prog \<Rightarrow> ('s, 'b) prog" where
  "andthen p q = bind p (\<lambda>_. q)"

text \<open>One atomic section: read \<open>f\<close>, then update with \<open>u\<close>.\<close>

definition atomic :: "('s \<Rightarrow> 'a) \<Rightarrow> ('s \<Rightarrow> 's) \<Rightarrow> ('s, 'a) prog" where
  "atomic f u = Act (\<lambda>_. True) u (\<lambda>s. Ret (f s))"

text \<open>The same, once the guard holds.\<close>

definition await :: "('s \<Rightarrow> bool) \<Rightarrow> ('s \<Rightarrow> 'a) \<Rightarrow> ('s \<Rightarrow> 's) \<Rightarrow> ('s, 'a) prog" where
  "await g f u = Act g u (\<lambda>s. Ret (f s))"

definition gets :: "('s \<Rightarrow> 'a) \<Rightarrow> ('s, 'a) prog" where
  "gets f = atomic f (\<lambda>s. s)"

definition modify :: "('s \<Rightarrow> 's) \<Rightarrow> ('s, unit) prog" where
  "modify u = atomic (\<lambda>_. ()) u"

text \<open>\<open>Option::unwrap\<close> and \<open>Result::unwrap\<close>.\<close>

definition unwrap :: "'a option \<Rightarrow> ('s, 'a) prog" where
  "unwrap x = (case x of None \<Rightarrow> Panic | Some v \<Rightarrow> Ret v)"

text \<open>A point where the task gives way: \<open>sleep\<close>.\<close>

definition yield_now :: "('s, unit) prog" where
  "yield_now = gets (\<lambda>_. ())"

lemma bind_assoc: "bind (bind p q) r = bind p (\<lambda>x. bind (q x) r)"
  by (induction p) auto

lemma bind_Ret [simp]: "bind p Ret = p"
  by (induction p) auto

lemma unwrap_simps [simp]: "unwrap None = Panic" "unwrap (Some v) = Ret v"
  by (simp_all add: unwrap_def)

section \<open>Running one task alone\<close>

datatype ('s, 'a) outcome =
    Done 'a 's
  | Blocked "('s, 'a) prog" 's
  | Panicked 's

primrec run :: "('s, 'a) prog \<Rightarrow> 's \<Rightarrow> ('s, 'a) outcome" where
  "run (Ret x) = (\<lambda>s. Done x s)"
| "run Panic = (\<lambda>s. Panicked s)"
| "run (Act g u k) = (\<lambda>s. if g s then run (k s) (u s) else Blocked (Act g u k) s)"

primrec after :: "('s, 'a) outcome \<Rightarrow> ('a \<Rightarrow> ('s, 'b) prog) \<Rightarrow> ('s, 'b) outcome" where
  "after (Done x s) q = run (q x) s"
| "after (Blocked p s) q = Blocked (bind p q) s"
| "after (Panicked s) q = Panicked s"

lemma run_bind [run_simps]: "run (bind p q) s = after (run p s) q"
  by (induction p arbitrary: s) auto

lemma run_andthen [run_simps]: "run (andthen p q) s = after (run p s) (\<lambda>_. q)"
  by (simp add: andthen_def run_bind)

lemma run_atomic [run_simps]: "run (atomic f u) s = Done (f s) (u s)"
  by (simp add: atomic_def)

lemma run_await [run_simps]:
  "run (await g f u) s = (if g s then Done (f s) (u s) else Blocked (await g f u) s)"
  by (simp add: await_def)

lemma run_gets [run_simps]: "run (gets f) s = Done (f s) s"
  by (simp add: gets_def run_atomic)

lemma run_modify [run_simps]: "run (modify u) s = Done () (u s)"
  by (simp add: modify_def run_atomic)

lemma run_yield_now [run_simps]: "run yield_now s = Done () s"
  by (simp add: yield_now_def run_gets)

section \<open>What a task does in every interleaving\<close>

inductive steps_in ::
  "('s \<Rightarrow> bool) \<Rightarrow> ('s \<Rightarrow> 's \<Rightarrow> bool) \<Rightarrow> ('a \<Rightarrow> bool) \<Rightarrow> ('s, 'a) prog \<Rightarrow> bool"
  for I :: "'s \<Rightarrow> bool" and G :: "'s \<Rightarrow> 's \<Rightarrow> bool" and Q :: "'a \<Rightarrow> bool" where
  steps_Ret: "Q x \<Longrightarrow> steps_in I G Q (Ret x)"
| steps_Panic: "steps_in I G Q Panic"
| steps_Act: "(\<And>s. I s \<Longrightarrow> g s \<Longrightarrow> G s (u s)) \<Longrightarrow> (\<And>s. I s \<Longrightarrow> g s \<Longrightarrow> steps_in I G Q (k s)) \<Longrightarrow>
     steps_in I G Q (Act g u k)"

inductive_simps steps_in_Ret: "steps_in I G Q (Ret x)"
inductive_simps steps_in_Act: "steps_in I G Q (Act g u k)"

declare steps_in_Ret [simp] steps_Panic [simp]

text \<open>
  The rule for sequences, with what is known of the first value; then the rules for one primitive
  followed by the rest. What was read is known afterwards: a continuation only has to be right for
  a value that some state with \<open>I\<close> can show.
\<close>

lemma steps_bind:
  assumes "steps_in I G Q p" and "\<And>x. Q x \<Longrightarrow> steps_in I G R (q x)"
  shows "steps_in I G R (bind p q)"
  using assms by (induction rule: steps_in.induct) (auto intro: steps_Act)

lemma steps_bind_any [steps_intro]:
  "steps_in I G (\<lambda>_. True) p \<Longrightarrow> (\<And>x. steps_in I G R (q x)) \<Longrightarrow> steps_in I G R (bind p q)"
  by (rule steps_bind)

lemma steps_andthen [steps_intro]:
  "steps_in I G (\<lambda>_. True) p \<Longrightarrow> steps_in I G R q \<Longrightarrow> steps_in I G R (andthen p q)"
  by (simp add: andthen_def steps_bind)

lemma steps_atomic [steps_intro]:
  "(\<And>s. I s \<Longrightarrow> G s (u s)) \<Longrightarrow> (\<And>s. I s \<Longrightarrow> Q (f s)) \<Longrightarrow> steps_in I G Q (atomic f u)"
  by (auto simp: atomic_def steps_in_Act)

lemma steps_await [steps_intro]:
  "(\<And>s. I s \<Longrightarrow> g s \<Longrightarrow> G s (u s)) \<Longrightarrow> (\<And>s. I s \<Longrightarrow> g s \<Longrightarrow> Q (f s)) \<Longrightarrow>
   steps_in I G Q (await g f u)"
  by (auto simp: await_def steps_in_Act)

lemma steps_gets [steps_intro]:
  "(\<And>s. I s \<Longrightarrow> G s s) \<Longrightarrow> (\<And>s. I s \<Longrightarrow> Q (f s)) \<Longrightarrow> steps_in I G Q (gets f)"
  by (simp add: gets_def steps_atomic)

lemma steps_modify [steps_intro]:
  "(\<And>s. I s \<Longrightarrow> G s (u s)) \<Longrightarrow> Q () \<Longrightarrow> steps_in I G Q (modify u)"
  by (simp add: modify_def steps_atomic)

lemma steps_yield_now [steps_intro]:
  "(\<And>s. I s \<Longrightarrow> G s s) \<Longrightarrow> Q () \<Longrightarrow> steps_in I G Q yield_now"
  by (simp add: yield_now_def steps_gets)

lemma steps_unwrap [steps_intro]: "(\<And>v. x = Some v \<Longrightarrow> Q v) \<Longrightarrow> steps_in I G Q (unwrap x)"
  by (cases x) auto

lemma steps_bind_atomic:
  assumes "\<And>s. I s \<Longrightarrow> G s (u s)" and "\<And>s. I s \<Longrightarrow> steps_in I G R (q (f s))"
  shows "steps_in I G R (bind (atomic f u) q)"
  using assms by (auto simp: atomic_def steps_in_Act)

lemma steps_bind_gets:
  assumes "\<And>s. I s \<Longrightarrow> G s s" and "\<And>s. I s \<Longrightarrow> steps_in I G R (q (f s))"
  shows "steps_in I G R (bind (gets f) q)"
  using assms by (simp add: gets_def steps_bind_atomic)

lemma steps_bind_await:
  assumes "\<And>s. I s \<Longrightarrow> g s \<Longrightarrow> G s (u s)" and "\<And>s. I s \<Longrightarrow> g s \<Longrightarrow> steps_in I G R (q (f s))"
  shows "steps_in I G R (bind (await g f u) q)"
  using assms by (auto simp: await_def steps_in_Act)

lemma steps_bind_unwrap:
  assumes "\<And>v. x = Some v \<Longrightarrow> steps_in I G R (q v)"
  shows "steps_in I G R (bind (unwrap x) q)"
  using assms by (cases x) auto

lemma steps_weaken:
  assumes "steps_in I G Q p" and "\<And>s. J s \<Longrightarrow> I s" and "\<And>s t. J s \<Longrightarrow> G s t \<Longrightarrow> H s t"
    and "\<And>x. Q x \<Longrightarrow> R x"
  shows "steps_in J H R p"
  using assms by (induction rule: steps_in.induct) (auto intro!: steps_Act)

text \<open>Every step keeps an invariant; a run without interference then keeps it too.\<close>

abbreviation keeps :: "('s \<Rightarrow> bool) \<Rightarrow> ('a \<Rightarrow> bool) \<Rightarrow> ('s, 'a) prog \<Rightarrow> bool" where
  "keeps I \<equiv> steps_in I (\<lambda>_ t. I t)"

primrec final_state :: "('s, 'a) outcome \<Rightarrow> 's" where
  "final_state (Done x s) = s"
| "final_state (Blocked p s) = s"
| "final_state (Panicked s) = s"

lemma keeps_run: "keeps I Q p \<Longrightarrow> I s \<Longrightarrow> I (final_state (run p s))"
  by (induction p arbitrary: s rule: steps_in.induct) auto

text \<open>A run without interference relates its ends by any relation closed under the steps.\<close>

lemma steps_run:
  assumes "steps_in (\<lambda>_. True) G Q p" and "\<And>s. G s s" and "\<And>s t u. G s t \<Longrightarrow> G t u \<Longrightarrow> G s u"
  shows "G s (final_state (run p s))"
  using assms(1)
proof (induction p arbitrary: s rule: steps_in.induct)
  case (steps_Act g u k)
  then show ?case using assms(2,3) by (cases "g s") (fastforce)+
qed (simp_all add: assms(2))

section \<open>Programs that do not panic\<close>

inductive safe :: "('s \<Rightarrow> bool) \<Rightarrow> ('a \<Rightarrow> bool) \<Rightarrow> ('s, 'a) prog \<Rightarrow> bool"
  for I :: "'s \<Rightarrow> bool" and Q :: "'a \<Rightarrow> bool" where
  safe_Ret: "Q x \<Longrightarrow> safe I Q (Ret x)"
| safe_Act: "(\<And>s. I s \<Longrightarrow> g s \<Longrightarrow> safe I Q (k s)) \<Longrightarrow> safe I Q (Act g u k)"

inductive_simps safe_Ret_simp: "safe I Q (Ret x)"
inductive_simps safe_Panic_simp: "safe I Q Panic"
inductive_simps safe_Act_simp: "safe I Q (Act g u k)"

declare safe_Ret_simp [simp] safe_Panic_simp [simp]

lemma safe_bind:
  assumes "safe I Q p" and "\<And>x. Q x \<Longrightarrow> safe I R (q x)"
  shows "safe I R (bind p q)"
  using assms by (induction rule: safe.induct) (auto intro: safe_Act)

lemma safe_bind_any:
  "safe I (\<lambda>_. True) p \<Longrightarrow> (\<And>x. safe I R (q x)) \<Longrightarrow> safe I R (bind p q)"
  by (rule safe_bind)

lemma safe_andthen: "safe I (\<lambda>_. True) p \<Longrightarrow> safe I R q \<Longrightarrow> safe I R (andthen p q)"
  by (simp add: andthen_def safe_bind)

lemma safe_atomic [simp]: "safe I Q (atomic f u) \<longleftrightarrow> (\<forall>s. I s \<longrightarrow> Q (f s))"
  by (auto simp: atomic_def safe_Act_simp)

lemma safe_await [simp]: "safe I Q (await g f u) \<longleftrightarrow> (\<forall>s. I s \<longrightarrow> g s \<longrightarrow> Q (f s))"
  by (auto simp: await_def safe_Act_simp)

lemma safe_gets [simp]: "safe I Q (gets f) \<longleftrightarrow> (\<forall>s. I s \<longrightarrow> Q (f s))"
  by (simp add: gets_def)

lemma safe_modify [simp]: "safe I Q (modify u) \<longleftrightarrow> (\<forall>s. I s \<longrightarrow> Q ())"
  by (simp add: modify_def)

lemma safe_yield_now [simp]: "safe I Q yield_now \<longleftrightarrow> (\<forall>s. I s \<longrightarrow> Q ())"
  by (simp add: yield_now_def)

lemma safe_unwrap [simp]: "safe I Q (unwrap x) \<longleftrightarrow> (\<exists>v. x = Some v \<and> Q v)"
  by (cases x) auto

lemma safe_bind_atomic: "safe I R (bind (atomic f u) q) \<longleftrightarrow> (\<forall>s. I s \<longrightarrow> safe I R (q (f s)))"
  by (auto simp: atomic_def safe_Act_simp)

lemma safe_bind_gets: "safe I R (bind (gets f) q) \<longleftrightarrow> (\<forall>s. I s \<longrightarrow> safe I R (q (f s)))"
  by (simp add: gets_def safe_bind_atomic)

lemma safe_bind_modify: "safe I R (bind (modify u) q) \<longleftrightarrow> (\<forall>s. I s \<longrightarrow> safe I R (q ()))"
  by (simp add: modify_def safe_bind_atomic)

lemma safe_bind_unwrap: "safe I R (bind (unwrap x) q) \<longleftrightarrow> (\<exists>v. x = Some v \<and> safe I R (q v))"
  by (cases x) auto

lemmas safe_simps = safe_bind_atomic safe_bind_gets safe_bind_modify safe_bind_unwrap

section \<open>Interleavings of tasks\<close>

text \<open>
  A configuration is the shared state and the programs in flight. One step is one atomic section
  of one task.
\<close>

inductive interleave :: "'s \<times> ('s, 'a) prog list \<Rightarrow> 's \<times> ('s, 'a) prog list \<Rightarrow> bool" where
  interleave_step: "i < length ps \<Longrightarrow> ps ! i = Act g u k \<Longrightarrow> g s \<Longrightarrow>
     interleave (s, ps) (u s, ps[i := k s])"

inductive_cases interleaveE: "interleave (s, ps) d"

inductive interleaves :: "'s \<times> ('s, 'a) prog list \<Rightarrow> 's \<times> ('s, 'a) prog list \<Rightarrow> bool" where
  interleaves_refl: "interleaves c c"
| interleaves_step: "interleave c d \<Longrightarrow> interleaves d e \<Longrightarrow> interleaves c e"

lemma interleave_keeps:
  assumes "interleave (s, ps) (t, qs)" and "I s" and "\<forall>p \<in> set ps. keeps I Q p"
  shows "I t \<and> (\<forall>p \<in> set qs. keeps I Q p)"
proof -
  from assms(1) obtain i g u k where *: "t = u s" "qs = ps[i := k s]" "i < length ps"
      "ps ! i = Act g u k" "g s"
    by (auto elim: interleaveE)
  with assms(3) have "keeps I Q (Act g u k)" by (metis nth_mem)
  with * assms(2,3) show ?thesis
    by (auto simp: steps_in_Act dest!: set_update_subset_insert [THEN subsetD])
qed

end
