(* ===== verification/Externals.thy ===== *)
theory Externals
  imports Prelude "HOL-Library.Sublist"
begin

text \<open>
  The messages of the \<open>.proto\<close> files under \<open>src/src\<close> and the code the program calls but does not
  contain. The Rust types and the encoders of the messages are generated by \<open>prost\<close> at build time;
  hashing, base58, random numbers, keys, ECIES and the Noise protocol come from packages. All of
  them are the fields of one record \<open>ext\<close>, an argument of every definition that calls them. What
  the program relies on is stated as the predicates at the end of this theory, one per package.
\<close>

section \<open>relay.proto\<close>

datatype relaytype = Relaytype_SetSessionId | Relaytype_Ack | Relaytype_Data | Relaytype_Disconnect
  | Relaytype_Wake | Relaytype_Probe | Relaytype_Success

fun relaytype_i32 :: "relaytype \<Rightarrow> i32" where
  "relaytype_i32 Relaytype_SetSessionId = 0"
| "relaytype_i32 Relaytype_Ack = 1"
| "relaytype_i32 Relaytype_Data = 2"
| "relaytype_i32 Relaytype_Disconnect = 3"
| "relaytype_i32 Relaytype_Wake = 4"
| "relaytype_i32 Relaytype_Probe = 5"
| "relaytype_i32 Relaytype_Success = 6"

record relay =
  relay_id :: string
  relay_type :: i32
  relay_data :: bytes
  relay_confusion :: bytes

record set_session_id_msg =
  ssm_session_id :: string
  ssm_role :: i32

record relay_msg =
  rm_session_id :: string
  rm_data :: bytes

record probe_signal =
  ps_session_id :: string
  ps_data :: bytes

record disconnect =
  dc_session_id :: string
  dc_err_code :: i32

record circuit_success =
  cs_session_id :: string

section \<open>request.proto\<close>

datatype reqtype = Reqtype_GetOnlineNodes | Reqtype_NewProxy | Reqtype_NewCircuit
  | Reqtype_DecryptGossip | Reqtype_NegPlainText | Reqtype_UnRegisterType | Reqtype_MainNetPeers

fun reqtype_i32 :: "reqtype \<Rightarrow> i32" where
  "reqtype_i32 Reqtype_GetOnlineNodes = 0"
| "reqtype_i32 Reqtype_NewProxy = 1"
| "reqtype_i32 Reqtype_NewCircuit = 2"
| "reqtype_i32 Reqtype_DecryptGossip = 3"
| "reqtype_i32 Reqtype_NegPlainText = 4"
| "reqtype_i32 Reqtype_UnRegisterType = 5"
| "reqtype_i32 Reqtype_MainNetPeers = 6"

record request =
  rq_req_id :: string
  rq_from :: string
  rq_reqtype :: i32
  rq_data :: bytes

record new_circuit =
  nc_from :: string
  nc_to :: string
  nc_session_id :: string

record new_proxy =
  np_time :: string
  np_white_noise_id :: string

record decrypt =
  de_destination :: string
  de_cypher :: bytes

record neg_plaintext =
  npl_session_id :: string
  npl_neg :: bytes

record main_net_peers =
  mnp_max :: i32

record node_info =
  ni_id :: string
  ni_addr :: "string list"

record peers_list =
  pl_peers :: "node_info list"

section \<open>command.proto, gossip.proto, payload.proto, chat.proto\<close>

datatype cmdtype = Cmdtype_SessionExPend | Cmdtype_Disconnect

fun cmdtype_i32 :: "cmdtype \<Rightarrow> i32" where
  "cmdtype_i32 Cmdtype_SessionExPend = 0"
| "cmdtype_i32 Cmdtype_Disconnect = 1"

record command =
  cmd_command_id :: string
  cmd_type :: i32
  cmd_from :: string
  cmd_data :: bytes

record session_expend =
  se_session_id :: string
  se_peer_id :: string

record ack =
  ack_command_id :: string
  ack_result :: bool
  ack_data :: bytes

record negotiate =
  ng_join :: string
  ng_session_id :: string
  ng_destination :: string
  ng_sig :: bytes

record encrypted_neg =
  en_des :: string
  en_cypher :: bytes

record noise_handshake_payload =
  nh_identity_key :: bytes
  nh_identity_sig :: bytes
  nh_data :: bytes

record chat_message =
  cm_peer_id :: string
  cm_data :: bytes

section \<open>Packages\<close>

text \<open>\<open>prost::Message\<close> of one message type; \<open>decode\<close> fails on bytes that are no such message.\<close>

record 'm codec =
  enc :: "'m \<Rightarrow> bytes"
  dec :: "bytes \<Rightarrow> 'm option"

text \<open>\<open>libp2p::PeerId\<close>: a multihash, known here by its bytes.\<close>

datatype peer_id = PeerId (peer_bytes: bytes)

text \<open>
  \<open>libp2p::identity::Keypair\<close>: the secret key material by kind of key. \<open>KeyOther\<close> is any other
  kind that \<open>libp2p\<close> has.
\<close>

datatype keypair = KeyEd25519 bytes | KeySecp256k1 bytes | KeyOther bytes

text \<open>State of a Noise session (\<open>snow::HandshakeState\<close>, \<open>snow::TransportState\<close>), opaque here.\<close>

datatype noise = Noise bytes

text \<open>\<open>ReadOneError\<close> of \<open>libp2p::core::upgrade\<close> and the \<open>Result\<close> of reading one message.\<close>

datatype read_one_error = ReadOneError_Io string | ReadOneError_TooLarge nat nat

type_synonym read_result = "read_one_error + bytes"

record protos =
  c_relay :: "relay codec"
  c_set_session :: "set_session_id_msg codec"
  c_relay_msg :: "relay_msg codec"
  c_probe :: "probe_signal codec"
  c_disconnect :: "disconnect codec"
  c_success :: "circuit_success codec"
  c_request :: "request codec"
  c_new_circuit :: "new_circuit codec"
  c_new_proxy :: "new_proxy codec"
  c_decrypt :: "decrypt codec"
  c_neg_plaintext :: "neg_plaintext codec"
  c_main_net_peers :: "main_net_peers codec"
  c_peers_list :: "peers_list codec"
  c_command :: "command codec"
  c_session_expend :: "session_expend codec"
  c_ack :: "ack codec"
  c_negotiate :: "negotiate codec"
  c_encrypted_neg :: "encrypted_neg codec"
  c_handshake :: "noise_handshake_payload codec"
  c_chat :: "chat_message codec"

text \<open>
  The rest, by package. A function that draws random numbers or reads the clock takes the number
  of draws made so far, so that a theorem for every \<open>ext\<close> is one for every outcome.
  \<^item> \<open>multihash\<close>: \<open>Code::Sha2_256.digest(b).to_bytes()\<close>.
  \<^item> \<open>bs58\<close>; \<open>libp2p::PeerId\<close>; \<open>libp2p::Multiaddr\<close> (parsing an address, known by its text);
    \<open>rand\<close>; \<open>uuid\<close>; \<open>std::time\<close>; the \<open>DefaultHasher\<close> of \<open>std\<close> on a byte vector.
  \<^item> \<open>bytes\<close>: the length of \<open>chunk_mut()\<close> of a vector that was made with room for \<open>h + n\<close> bytes
    and holds \<open>h\<close> of them.
  \<^item> \<open>libp2p::identity\<close>: generating, encoding and decoding keys; the encoded public key and the
    peer id of a key pair.
  \<^item> \<open>eth_ecies\<close>, \<open>ecies_ed25519\<close>, \<open>sha2\<close>.
  \<^item> \<open>snow\<close> with the pattern XX: the state of each side before the first message, reading and
    writing a handshake message, the remote static key, the transport phase.
  \<^item> \<open>libp2p::core::upgrade\<close>: the bytes that \<open>write_with_len_prefix\<close> writes for a message, and what
    \<open>read_one\<close> with a maximal size returns once it has taken these bytes off its socket, \<open>None\<close>
    while it waits for more.
\<close>

record crypto = protos +
  multihash_sha2_256 :: "bytes \<Rightarrow> bytes"
  sha512 :: "bytes \<Rightarrow> bytes"
  bs58_encode :: "bytes \<Rightarrow> string"
  bs58_decode :: "string \<Rightarrow> bytes option"
  ed25519_generate :: "nat \<Rightarrow> bytes"
  ed25519_encode :: "bytes \<Rightarrow> bytes"
  ed25519_decode :: "bytes \<Rightarrow> bytes option"
  ed25519_secret :: "bytes \<Rightarrow> bytes"
  secp_generate :: "nat \<Rightarrow> bytes"
  secp_secret_bytes :: "bytes \<Rightarrow> bytes"
  secp_from_secret :: "bytes \<Rightarrow> bytes option"
  secp_uncompressed :: "bytes \<Rightarrow> bytes option"
  public_encode :: "keypair \<Rightarrow> bytes"
  into_peer_id :: "keypair \<Rightarrow> peer_id"
  ecies_ed25519_enc :: "nat \<Rightarrow> bytes \<Rightarrow> bytes \<Rightarrow> bytes option"
  ecies_ed25519_dec :: "bytes \<Rightarrow> bytes \<Rightarrow> bytes option"
  ecies_secp_enc :: "nat \<Rightarrow> bytes \<Rightarrow> bytes \<Rightarrow> bytes option"
  ecies_secp_dec :: "bytes \<Rightarrow> bytes \<Rightarrow> bytes option"
  noise_initiator :: "nat \<Rightarrow> keypair \<Rightarrow> noise"
  noise_responder :: "nat \<Rightarrow> keypair \<Rightarrow> noise"
  noise_identity_key :: "nat \<Rightarrow> keypair \<Rightarrow> bytes"
  noise_identity_sig :: "nat \<Rightarrow> keypair \<Rightarrow> bytes"
  noise_write_message :: "noise \<Rightarrow> bytes \<Rightarrow> (noise \<times> bytes) option"
  noise_read_message :: "noise \<Rightarrow> bytes \<Rightarrow> (noise \<times> bytes) option"
  noise_remote_static :: "noise \<Rightarrow> bytes option"
  noise_into_transport :: "noise \<Rightarrow> noise option"
  verify_signature :: "bytes \<Rightarrow> bytes \<Rightarrow> bytes \<Rightarrow> bool option"

record ext = crypto +
  to_base58 :: "peer_id \<Rightarrow> string"
  peer_from_bytes :: "bytes \<Rightarrow> peer_id option"
  peer_random :: "nat \<Rightarrow> peer_id"
  parse_multiaddr :: "string \<Rightarrow> string option"
  gen_range :: "nat \<Rightarrow> nat \<Rightarrow> nat"
  fill_bytes :: "nat \<Rightarrow> nat \<Rightarrow> bytes"
  random_usize :: "nat \<Rightarrow> usize"
  uuid_v4 :: "nat \<Rightarrow> string"
  now_micros :: "nat \<Rightarrow> nat"
  chunk_mut_len :: "nat \<Rightarrow> nat \<Rightarrow> nat"
  default_hash :: "bytes \<Rightarrow> 64 word"
  len_prefixed :: "bytes \<Rightarrow> bytes"
  read_step :: "nat \<Rightarrow> bytes \<Rightarrow> read_result option"

section \<open>What the program relies on\<close>

text \<open>\<open>prost\<close>: decoding what was encoded gives the message back.\<close>

definition codec_law :: "'m codec \<Rightarrow> bool" where
  "codec_law c \<longleftrightarrow> (\<forall>m. dec c (enc c m) = Some m)"

definition protos_ok :: "'x protos_scheme \<Rightarrow> bool" where
  "protos_ok E \<longleftrightarrow>
     codec_law (c_relay E) \<and> codec_law (c_set_session E) \<and> codec_law (c_relay_msg E) \<and>
     codec_law (c_probe E) \<and> codec_law (c_disconnect E) \<and> codec_law (c_success E) \<and>
     codec_law (c_request E) \<and> codec_law (c_new_circuit E) \<and> codec_law (c_new_proxy E) \<and>
     codec_law (c_decrypt E) \<and> codec_law (c_neg_plaintext E) \<and> codec_law (c_main_net_peers E) \<and>
     codec_law (c_peers_list E) \<and> codec_law (c_command E) \<and> codec_law (c_session_expend E) \<and>
     codec_law (c_ack E) \<and> codec_law (c_negotiate E) \<and> codec_law (c_encrypted_neg E) \<and>
     codec_law (c_handshake E) \<and> codec_law (c_chat E)"

lemma codec_lawD [simp]: "codec_law c \<Longrightarrow> dec c (enc c m) = Some m"
  by (simp add: codec_law_def)

lemma codec_inj: "codec_law c \<Longrightarrow> enc c m = enc c m' \<Longrightarrow> m = m'"
  by (metis codec_lawD option.inject)

lemma protos_okD [simp]:
  assumes "protos_ok E"
  shows "codec_law (c_relay E)" "codec_law (c_set_session E)" "codec_law (c_relay_msg E)"
    "codec_law (c_probe E)" "codec_law (c_disconnect E)" "codec_law (c_success E)"
    "codec_law (c_request E)" "codec_law (c_new_circuit E)" "codec_law (c_new_proxy E)"
    "codec_law (c_decrypt E)" "codec_law (c_neg_plaintext E)" "codec_law (c_main_net_peers E)"
    "codec_law (c_peers_list E)" "codec_law (c_command E)" "codec_law (c_session_expend E)"
    "codec_law (c_ack E)" "codec_law (c_negotiate E)" "codec_law (c_encrypted_neg E)"
    "codec_law (c_handshake E)" "codec_law (c_chat E)"
  using assms by (auto simp: protos_ok_def)

text \<open>\<open>rand\<close>: \<open>gen_range(0, hi)\<close> is below \<open>hi\<close>, \<open>fill_bytes\<close> fills the whole slice.\<close>

definition rand_ok :: "'x ext_scheme \<Rightarrow> bool" where
  "rand_ok E \<longleftrightarrow> (\<forall>n hi. 0 < hi \<longrightarrow> gen_range E n hi < hi) \<and> (\<forall>n k. length (fill_bytes E n k) = k)"

text \<open>
  \<open>bs58\<close> and \<open>PeerId\<close>: decoding inverts encoding; a base58 string is made of the alphabet's ASCII
  characters, so none of its bytes is a continuation byte.
\<close>

definition base58_ok :: "'x crypto_scheme \<Rightarrow> bool" where
  "base58_ok E \<longleftrightarrow> (\<forall>b. bs58_decode E (bs58_encode E b) = Some b) \<and>
     (\<forall>b. \<forall>c \<in> set (bs58_encode E b). \<not> is_continuation c)"

definition peer_ok :: "'x ext_scheme \<Rightarrow> bool" where
  "peer_ok E \<longleftrightarrow> (\<forall>p. \<exists>b. bs58_decode E (to_base58 E p) = Some b \<and> peer_from_bytes E b = Some p)"

lemma peer_ok_inj: "peer_ok E \<Longrightarrow> to_base58 E p = to_base58 E q \<Longrightarrow> p = q"
  unfolding peer_ok_def by (metis option.inject)

lemma base58_ok_inj: "base58_ok E \<Longrightarrow> bs58_encode E a = bs58_encode E b \<Longrightarrow> a = b"
  unfolding base58_ok_def by (metis option.inject)

text \<open>
  \<open>Vec\<close> and \<open>bytes\<close>: \<open>Vec::with_capacity\<close> allocates just the room asked for, and \<open>chunk_mut\<close>
  of a vector with room left is that room.
\<close>

definition alloc_exact :: "'x ext_scheme \<Rightarrow> bool" where
  "alloc_exact E \<longleftrightarrow> (\<forall>h n. 0 < n \<longrightarrow> chunk_mut_len E h n = n)"

text \<open>
  \<open>libp2p::core::upgrade\<close>: \<open>read_one\<close> waits at first; a message that was written with its length
  and is no longer than the maximal size is returned when all its bytes have come and not before; a
  longer one is refused, with its length, after some of its bytes.
\<close>

definition read_one_ok :: "'x ext_scheme \<Rightarrow> bool" where
  "read_one_ok E \<longleftrightarrow> (\<forall>lim. read_step E lim [] = None) \<and>
     (\<forall>lim m. length m \<le> lim \<longrightarrow> read_step E lim (len_prefixed E m) = Some (Inr m) \<and>
        (\<forall>p. strict_prefix p (len_prefixed E m) \<longrightarrow> read_step E lim p = None)) \<and>
     (\<forall>lim m. lim < length m \<longrightarrow> (\<exists>p. prefix p (len_prefixed E m) \<and>
        read_step E lim p = Some (Inl (ReadOneError_TooLarge (length m) lim)) \<and>
        (\<forall>q. strict_prefix q p \<longrightarrow> read_step E lim q = None)))"

section \<open>Reading one message\<close>

text \<open>
  What a call of \<open>read_one\<close> returns when its socket fails, and when it ends before a first byte,
  which counts as an empty message.
\<close>

definition end_result :: "read_one_error option \<Rightarrow> read_result" where
  "end_result e = (case e of None \<Rightarrow> Inr [] | Some e \<Rightarrow> Inl e)"

text \<open>
  A call of \<open>read_one\<close> that is not interrupted takes byte after byte until it has its result. The
  bytes that are left stay on the socket; \<open>None\<close> is a call that still waits.
\<close>

fun read_from :: "'x ext_scheme \<Rightarrow> nat \<Rightarrow> bytes \<Rightarrow> bytes \<Rightarrow> (read_result \<times> bytes) option" where
  "read_from E lim got [] = map_option (\<lambda>r. (r, [])) (read_step E lim got)"
| "read_from E lim got (b # bs) =
     (case read_step E lim got of
        Some r \<Rightarrow> Some (r, b # bs)
      | None \<Rightarrow> read_from E lim (got @ [b]) bs)"

definition read_one :: "'x ext_scheme \<Rightarrow> nat \<Rightarrow> bytes \<Rightarrow> (read_result \<times> bytes) option" where
  "read_one E lim bs = read_from E lim [] bs"

lemma read_one_okD:
  assumes "read_one_ok E"
  shows "read_step E lim [] = None"
    and "length m \<le> lim \<Longrightarrow> read_step E lim (len_prefixed E m) = Some (Inr m)"
    and "length m \<le> lim \<Longrightarrow> strict_prefix p (len_prefixed E m) \<Longrightarrow> read_step E lim p = None"
  using assms by (auto simp: read_one_ok_def)

lemma read_too_large:
  assumes "read_one_ok E" and "lim < length m"
  obtains p rest where "len_prefixed E m = p @ rest"
    "read_step E lim p = Some (Inl (ReadOneError_TooLarge (length m) lim))"
    "\<And>q. strict_prefix q p \<Longrightarrow> read_step E lim q = None"
  using assms unfolding read_one_ok_def prefix_def by metis

lemma len_prefixed_not_Nil: "read_one_ok E \<Longrightarrow> len_prefixed E m \<noteq> []"
  using read_one_okD(1) [of E "length m"] read_one_okD(2) [of E m "length m"] by auto

lemma read_from_result:
  assumes "read_step E lim (got @ p) = Some r"
    and "\<And>q. strict_prefix q p \<Longrightarrow> read_step E lim (got @ q) = None"
  shows "read_from E lim got (p @ rest) = Some (r, rest)"
  using assms
proof (induction p arbitrary: got)
  case Nil
  then show ?case by (cases rest) simp_all
next
  case (Cons b p)
  have "read_step E lim got = None" using Cons.prems(2) [of "[]"] by simp
  moreover have "read_step E lim ((got @ [b]) @ q) = None" if "strict_prefix q p" for q
    using Cons.prems(2) [of "b # q"] that by simp
  ultimately show ?case using Cons.IH [of "got @ [b]"] Cons.prems(1) by simp
qed

lemma read_one_message:
  assumes "read_one_ok E" and "length m \<le> lim"
  shows "read_one E lim (len_prefixed E m @ rest) = Some (Inr m, rest)"
  unfolding read_one_def
  by (rule read_from_result) (use assms read_one_okD in auto)

lemma read_one_long:
  assumes "read_one_ok E" and "lim < length m"
  shows "\<exists>rest'. read_one E lim (len_prefixed E m @ rest) = Some (Inl (ReadOneError_TooLarge (length m) lim), rest')"
proof -
  obtain p q where p: "len_prefixed E m = p @ q"
    "read_step E lim p = Some (Inl (ReadOneError_TooLarge (length m) lim))"
    "\<And>q. strict_prefix q p \<Longrightarrow> read_step E lim q = None"
    using read_too_large [OF assms] by blast
  show ?thesis
    unfolding read_one_def p(1) append_assoc using read_from_result [of E lim "[]" p] p(2,3) by auto
qed

end
