(* ===== verification/Session.thy ===== *)
theory Session
  imports Externals
begin

text \<open>
  \<open>network/session.rs\<close> and the stream handle of \<open>network/protocols/relay_behaviour.rs\<close>: a session
  of a node is a pair of relay streams, the early one (opened first) and the later one, and the role
  the node plays in the circuit.
\<close>

section \<open>Streams\<close>

text \<open>
  \<open>WrappedStream\<close>. Clones of it share the substream and both channels through \<open>Arc\<close>: \<open>ws_stream\<close>
  is the identity of those shared objects, under which the node's state keeps their contents.
  \<open>ws_stream_id\<close> is the \<open>Uuid\<close> by which the code tells streams apart.
\<close>

record wrapped_stream =
  ws_stream :: nat
  ws_remote_peer_id :: peer_id
  ws_stream_id :: string

text \<open>\<open>WrapedData\<close>: what is queued for the writer of a stream.\<close>

datatype wraped_data = WrapedData_Close | WrapedData_Data bytes

section \<open>Sessions\<close>

datatype session_role = CallerRole | EntryRole | SinkRole | RelayRole | AccessRole | AnswerRole

fun session_role_i32 :: "session_role \<Rightarrow> i32" where
  "session_role_i32 CallerRole = 1"
| "session_role_i32 EntryRole = 2"
| "session_role_i32 SinkRole = 3"
| "session_role_i32 RelayRole = 4"
| "session_role_i32 AccessRole = 5"
| "session_role_i32 AnswerRole = 6"

record pair_stream =
  early_stream :: "wrapped_stream option"
  later_stream :: "wrapped_stream option"

record session =
  ses_id :: string
  ses_pair :: pair_stream
  ses_role :: i32

definition ready :: "session \<Rightarrow> bool" where
  "ready s = (early_stream (ses_pair s) \<noteq> None \<and> later_stream (ses_pair s) \<noteq> None)"

text \<open>The two ways the code stores a session: a new one on its first stream, and a second stream.\<close>

definition new_session :: "string \<Rightarrow> i32 \<Rightarrow> wrapped_stream \<Rightarrow> session" where
  "new_session sid role st =
     \<lparr>ses_id = sid, ses_pair = \<lparr>early_stream = Some st, later_stream = None\<rparr>,
      ses_role = role\<rparr>"

definition set_later :: "wrapped_stream \<Rightarrow> session \<Rightarrow> session" where
  "set_later st s = s\<lparr>ses_pair := (ses_pair s)\<lparr>later_stream := Some st\<rparr>\<rparr>"

text \<open>Whether a stream, known by its id, is one of the session's two.\<close>

definition has_stream :: "session \<Rightarrow> string \<Rightarrow> bool" where
  "has_stream s i =
     ((case early_stream (ses_pair s) of None \<Rightarrow> False | Some st \<Rightarrow> ws_stream_id st = i) \<or>
      (case later_stream (ses_pair s) of None \<Rightarrow> False | Some st \<Rightarrow> ws_stream_id st = i))"

section \<open>Well-formed sessions\<close>

text \<open>
  What the node keeps of the session under key \<open>sid\<close>: it carries that id, and its early stream is
  there. A session is then ready just when it has its later stream.
\<close>

definition wf_session :: "string \<Rightarrow> session \<Rightarrow> bool" where
  "wf_session sid s \<longleftrightarrow> ses_id s = sid \<and> early_stream (ses_pair s) \<noteq> None"

lemma wf_new_session [simp]: "wf_session sid (new_session sid role st)"
  by (simp add: wf_session_def new_session_def)

lemma wf_set_later [simp]: "wf_session sid (set_later st s) = wf_session sid s"
  by (simp add: wf_session_def set_later_def)

lemma ready_new_session [simp]: "\<not> ready (new_session sid role st)"
  by (simp add: ready_def new_session_def)

lemma ready_set_later [simp]: "wf_session sid s \<Longrightarrow> ready (set_later st s)"
  by (simp add: ready_def set_later_def wf_session_def)

lemma role_new_session [simp]: "ses_role (new_session sid role st) = role"
  by (simp add: new_session_def)

lemma role_set_later [simp]: "ses_role (set_later st s) = ses_role s"
  by (simp add: set_later_def)

lemma early_set_later [simp]:
  "early_stream (ses_pair (set_later st s)) = early_stream (ses_pair s)"
  by (simp add: set_later_def)

lemma later_set_later [simp]: "later_stream (ses_pair (set_later st s)) = Some st"
  by (simp add: set_later_def)

lemma session_role_i32_inj [simp]: "session_role_i32 a = session_role_i32 b \<longleftrightarrow> a = b"
  by (cases a; cases b) simp_all

end
