(* ===== verification/Node_State.thy ===== *)
theory Node_State
  imports Async Session
begin

text \<open>
  The state of one node: \<open>struct Node\<close> of \<open>network/node.rs\<close> with the requests of
  \<open>network/whitenoise_behaviour.rs\<close>, and the channels its tasks talk through. Every clone of a
  \<open>Node\<close> shares its maps and queues through \<open>Arc\<close>, so one record holds them for all tasks of the
  node. \<open>proxy_id\<close> is copied by a clone; only the handle that the client owns reads or writes it,
  so it is kept here as well.
\<close>

section \<open>Requests to the event loop\<close>

datatype peer_operation = PeerOperation_Disconnect

record node_ack_request =
  nar_remote_peer_id :: peer_id
  nar_ack_request :: "ack option"

record node_proxy_request =
  npr_remote_peer_id :: peer_id
  npr_proxy_request :: "request option"
  npr_peer_operation :: "peer_operation option"

record node_cmd_request =
  ncr_remote_peer_id :: peer_id
  ncr_cmd_request :: "command option"

record add_peer_addresses =
  apa_remote_peer_id :: peer_id
  apa_remote_addr :: "string list"

text \<open>A \<open>oneshot::Sender\<close> in a request is the number of its channel.\<close>

record get_main_nets_request =
  gmn_command_id :: string
  gmn_remote_peer_id :: peer_id
  gmn_num :: i32
  gmn_sender :: nat

record publish_data_request =
  pdr_data :: bytes
  pdr_sender :: nat

datatype node_request =
    NodeRequest_ProxyRequest node_proxy_request
  | NodeRequest_CmdRequest node_cmd_request
  | NodeRequest_AckRequest node_ack_request
  | NodeRequest_NewStreamRequest peer_id
  | NodeRequest_AddPeerAddressesRequest add_peer_addresses
  | NodeRequest_GetMainNetsRequest get_main_nets_request
  | NodeRequest_PublishData publish_data_request

section \<open>Node\<close>

record probe =
  probe_session_id :: string
  probe_rand :: bytes

record client_info =
  ci_whitenoise_id :: string
  ci_peer_id :: peer_id
  ci_state :: i32
  ci_time_secs :: nat

text \<open>
  \<open>CircuitConn\<close> of \<open>network/connection.rs\<close>: \<open>cc_in_channel\<close> is the channel behind
  \<open>in_channel_receiver\<close> and \<open>in_channel_sender\<close>, \<open>cc_transport_state\<close> the shared Noise state.
\<close>

record circuit_conn =
  cc_id :: string
  cc_out_stream :: wrapped_stream
  cc_in_channel :: nat
  cc_transport_state :: "nat option"

record node =
  node_request_sender :: "node_request list"
  event_bus :: "string \<Rightarrow> nat option"
  node_keypair :: keypair
  proxy_id :: "peer_id option"
  relay_in_streams :: "wrapped_stream list"
  relay_out_streams :: "wrapped_stream list"
  circuit_task :: "string \<Rightarrow> bytes option"
  client_wn_map :: "string \<Rightarrow> client_info option"
  client_peer_map :: "string \<Rightarrow> string option"
  session_map :: "string \<Rightarrow> session option"
  circuit_map :: "string \<Rightarrow> circuit_conn option"
  probe_map :: "string \<Rightarrow> probe option"
  boot_peer_id :: "peer_id option"

section \<open>Channels and tasks\<close>

datatype oneshot_msg = Oneshot_Ack ack | Oneshot_Peers "node_info list" | Oneshot_Bool bool

datatype oneshot = Oneshot_Pending | Oneshot_Sent oneshot_msg | Oneshot_Canceled

text \<open>
  What \<open>async_std::task::spawn\<close> is called with. A task that loops is named with the variables its
  loop carries; its program is one round of the loop.
\<close>

datatype task =
    T_relay_event_handler wrapped_stream "string option"
  | T_write_relay_arc wrapped_stream relay
  | T_process_handshake circuit_conn bool string
  | T_send_node_request node_request
  | T_send_in wrapped_stream read_result
  | T_process_proxy_request
  | T_process_cmd_request
  | T_process_publish_request
  | T_process_new_stream

text \<open>
  The locks of the node that a task can poison: it panics while it holds the lock for writing, and
  from then on every \<open>read().unwrap()\<close> and \<open>write().unwrap()\<close> of that lock panics. Under the
  other write locks nothing can panic.
\<close>

datatype lock = Lock_session_map | Lock_circuit_task

text \<open>
  The node with its channels. \<open>out_chan\<close> and \<open>in_chan\<close> are the two channels of a stream,
  \<open>conn_chan\<close> the channel of a circuit connection, \<open>transports\<close> the shared Noise states, each behind
  a \<open>Mutex\<close> (\<open>None\<close> once a panic under the lock has poisoned it); all are indexed by the number of
  the shared object. The \<open>_alive\<close> flags say which receivers still exist: the one behind
  \<open>node_request_sender\<close>, which the event loop owns, and those of the three loops that serve the
  channels below. \<open>draws\<close> counts the random numbers and clock readings.
\<close>

record world = node +
  request_loop_alive :: bool
  proxy_loop_alive :: bool
  cmd_loop_alive :: bool
  publish_loop_alive :: bool
  oneshots :: "nat \<Rightarrow> oneshot"
  out_chan :: "nat \<Rightarrow> wraped_data list"
  in_chan :: "nat \<Rightarrow> read_result list"
  conn_chan :: "nat \<Rightarrow> bytes list"
  transports :: "nat \<Rightarrow> noise option"
  next_handle :: nat
  draws :: nat
  proxy_request_channel :: "node_proxy_request list"
  cmd_request_channel :: "node_cmd_request list"
  publish_channel :: "bytes list"
  spawned :: "task list"
  poisoned :: "lock \<Rightarrow> bool"

type_synonym 'a async = "(world, 'a) prog"

section \<open>Primitive operations\<close>

definition spawn :: "task \<Rightarrow> unit async" where
  "spawn t = modify (\<lambda>w. w\<lparr>spawned := spawned w @ [t]\<rparr>)"

text \<open>One section under a lock that may be poisoned.\<close>

definition under :: "lock \<Rightarrow> (world \<Rightarrow> 'a) \<Rightarrow> (world \<Rightarrow> world) \<Rightarrow> 'a async" where
  "under l f u =
     bind (atomic (\<lambda>w. if poisoned w l then None else Some (f w)) (\<lambda>w. if poisoned w l then w else u w))
          unwrap"

definition read_session :: "string \<Rightarrow> session option async" where
  "read_session sid = under Lock_session_map (\<lambda>w. session_map w sid) (\<lambda>w. w)"

definition poison :: "lock \<Rightarrow> world \<Rightarrow> world" where
  "poison l w = w\<lparr>poisoned := (poisoned w)(l := True)\<rparr>"

definition draw :: "nat async" where
  "draw = atomic draws (\<lambda>w. w\<lparr>draws := Suc (draws w)\<rparr>)"

text \<open>\<open>node_request_sender.unbounded_send(r).unwrap()\<close>: a panic once the event loop is gone.\<close>

definition send_node_request :: "node_request \<Rightarrow> unit async" where
  "send_node_request r =
     bind (atomic request_loop_alive
            (\<lambda>w. if request_loop_alive w
                 then w\<lparr>node_request_sender := node_request_sender w @ [r]\<rparr> else w))
          (\<lambda>ok. if ok then Ret () else Panic)"

text \<open>\<open>oneshot::channel()\<close>, and the receiver's \<open>await\<close>: \<open>None\<close> when the sender was dropped.\<close>

definition oneshot_channel :: "nat async" where
  "oneshot_channel = atomic next_handle
     (\<lambda>w. w\<lparr>oneshots := (oneshots w)(next_handle w := Oneshot_Pending),
             next_handle := Suc (next_handle w)\<rparr>)"

fun oneshot_value :: "oneshot \<Rightarrow> oneshot_msg option" where
  "oneshot_value (Oneshot_Sent m) = Some m"
| "oneshot_value _ = None"

definition oneshot_recv :: "nat \<Rightarrow> oneshot_msg option async" where
  "oneshot_recv h = await (\<lambda>w. oneshots w h \<noteq> Oneshot_Pending) (\<lambda>w. oneshot_value (oneshots w h)) (\<lambda>w. w)"

text \<open>The receivers by the type they carry.\<close>

definition recv_ack :: "nat \<Rightarrow> ack option async" where
  "recv_ack h = bind (oneshot_recv h)
     (\<lambda>m. Ret (case m of Some (Oneshot_Ack a) \<Rightarrow> Some a | _ \<Rightarrow> None))"

definition recv_peers :: "nat \<Rightarrow> node_info list option async" where
  "recv_peers h = bind (oneshot_recv h)
     (\<lambda>m. Ret (case m of Some (Oneshot_Peers a) \<Rightarrow> Some a | _ \<Rightarrow> None))"

definition recv_bool :: "nat \<Rightarrow> bool option async" where
  "recv_bool h = bind (oneshot_recv h)
     (\<lambda>m. Ret (case m of Some (Oneshot_Bool a) \<Rightarrow> Some a | _ \<Rightarrow> None))"

text \<open>A sender that is dropped cancels a channel nothing was sent on.\<close>

definition drop_sender :: "nat \<Rightarrow> world \<Rightarrow> world" where
  "drop_sender h w =
     (if oneshots w h = Oneshot_Pending
      then w\<lparr>oneshots := (oneshots w)(h := Oneshot_Canceled)\<rparr> else w)"

text \<open>\<open>event_bus.insert(key, sender)\<close>: a sender that was there under the key is dropped.\<close>

definition event_bus_put :: "string \<Rightarrow> nat \<Rightarrow> world \<Rightarrow> world" where
  "event_bus_put key h w =
     (let w' = (case event_bus w key of None \<Rightarrow> w | Some h' \<Rightarrow> drop_sender h' w)
      in w'\<lparr>event_bus := (event_bus w')(key \<mapsto> h)\<rparr>)"

definition event_bus_insert :: "string \<Rightarrow> nat \<Rightarrow> unit async" where
  "event_bus_insert key h = modify (event_bus_put key h)"

text \<open>\<open>WrappedStream::write\<close>, \<open>close\<close> and \<open>read\<close>. A stream holds both ends of its channels, so
  sending never fails and the in-channel never ends.\<close>

definition push_out :: "wrapped_stream \<Rightarrow> wraped_data \<Rightarrow> world \<Rightarrow> world" where
  "push_out st d w = w\<lparr>out_chan := (out_chan w)(ws_stream st := out_chan w (ws_stream st) @ [d])\<rparr>"

definition ws_write :: "wrapped_stream \<Rightarrow> bytes \<Rightarrow> unit async" where
  "ws_write st data = modify (push_out st (WrapedData_Data data))"

definition ws_close :: "wrapped_stream \<Rightarrow> unit async" where
  "ws_close st = modify (push_out st WrapedData_Close)"

definition ws_read :: "wrapped_stream \<Rightarrow> read_result async" where
  "ws_read st = await (\<lambda>w. in_chan w (ws_stream st) \<noteq> []) (\<lambda>w. hd (in_chan w (ws_stream st)))
     (\<lambda>w. w\<lparr>in_chan := (in_chan w)(ws_stream st := tl (in_chan w (ws_stream st)))\<rparr>)"

text \<open>The channel of a circuit connection: \<open>in_channel_sender\<close> and \<open>in_channel_receiver\<close>.\<close>

definition conn_channel :: "nat async" where
  "conn_channel = atomic next_handle
     (\<lambda>w. w\<lparr>conn_chan := (conn_chan w)(next_handle w := []), next_handle := Suc (next_handle w)\<rparr>)"

definition conn_push :: "nat \<Rightarrow> bytes \<Rightarrow> world \<Rightarrow> world" where
  "conn_push c d w = w\<lparr>conn_chan := (conn_chan w)(c := conn_chan w c @ [d])\<rparr>"

definition conn_recv :: "nat \<Rightarrow> bytes async" where
  "conn_recv c = await (\<lambda>w. conn_chan w c \<noteq> []) (\<lambda>w. hd (conn_chan w c))
     (\<lambda>w. w\<lparr>conn_chan := (conn_chan w)(c := tl (conn_chan w c))\<rparr>)"

section \<open>Updates of the node's maps\<close>

definition put_session :: "string \<Rightarrow> session \<Rightarrow> world \<Rightarrow> world" where
  "put_session sid s w = w\<lparr>session_map := (session_map w)(sid \<mapsto> s)\<rparr>"

definition del_session :: "string \<Rightarrow> world \<Rightarrow> world" where
  "del_session sid w = w\<lparr>session_map := (session_map w)(sid := None)\<rparr>"

definition put_circuit :: "string \<Rightarrow> circuit_conn \<Rightarrow> world \<Rightarrow> world" where
  "put_circuit sid c w = w\<lparr>circuit_map := (circuit_map w)(sid \<mapsto> c)\<rparr>"

definition del_circuit :: "string \<Rightarrow> world \<Rightarrow> world" where
  "del_circuit sid w = w\<lparr>circuit_map := (circuit_map w)(sid := None)\<rparr>"

definition put_probe :: "string \<Rightarrow> probe \<Rightarrow> world \<Rightarrow> world" where
  "put_probe sid p w = w\<lparr>probe_map := (probe_map w)(sid \<mapsto> p)\<rparr>"

definition del_probe :: "string \<Rightarrow> world \<Rightarrow> world" where
  "del_probe sid w = w\<lparr>probe_map := (probe_map w)(sid := None)\<rparr>"

lemmas map_update_defs = put_session_def del_session_def put_circuit_def del_circuit_def
  put_probe_def del_probe_def

lemmas chan_update_defs = push_out_def conn_push_def drop_sender_def event_bus_put_def

definition insert_session :: "string \<Rightarrow> session \<Rightarrow> unit async" where
  "insert_session sid s = under Lock_session_map (\<lambda>_. ()) (put_session sid s)"

section \<open>Runs of the primitives\<close>

lemma run_under [run_simps]:
  "run (under l f u) w = (if poisoned w l then Panicked w else Done (f w) (u w))"
  by (simp add: under_def run_simps)

lemma run_read_session [run_simps]:
  "run (read_session sid) w =
     (if poisoned w Lock_session_map then Panicked w else Done (session_map w sid) w)"
  by (simp add: read_session_def run_simps)

lemma run_insert_session [run_simps]:
  "run (insert_session sid s) w =
     (if poisoned w Lock_session_map then Panicked w else Done () (put_session sid s w))"
  by (simp add: insert_session_def run_simps)

lemma run_spawn [run_simps]: "run (spawn t) w = Done () (w\<lparr>spawned := spawned w @ [t]\<rparr>)"
  by (simp add: spawn_def run_simps)

lemma run_draw [run_simps]: "run draw w = Done (draws w) (w\<lparr>draws := Suc (draws w)\<rparr>)"
  by (simp add: draw_def run_simps)

lemma run_send_node_request [run_simps]:
  "run (send_node_request r) w =
     (if request_loop_alive w
      then Done () (w\<lparr>node_request_sender := node_request_sender w @ [r]\<rparr>) else Panicked w)"
  by (simp add: send_node_request_def run_simps)

lemma run_ws_write [run_simps]: "run (ws_write st d) w = Done () (push_out st (WrapedData_Data d) w)"
  by (simp add: ws_write_def run_simps)

lemma run_ws_close [run_simps]: "run (ws_close st) w = Done () (push_out st WrapedData_Close w)"
  by (simp add: ws_close_def run_simps)

lemma run_event_bus_insert [run_simps]:
  "run (event_bus_insert key h) w = Done () (event_bus_put key h w)"
  by (simp add: event_bus_insert_def run_simps)

lemma run_ws_read [run_simps]:
  "in_chan w (ws_stream st) = r # rs \<Longrightarrow>
   run (ws_read st) w = Done r (w\<lparr>in_chan := (in_chan w)(ws_stream st := rs)\<rparr>)"
  by (simp add: ws_read_def run_simps)

lemma run_oneshot_channel [run_simps]:
  "run oneshot_channel w = Done (next_handle w)
     (w\<lparr>oneshots := (oneshots w)(next_handle w := Oneshot_Pending), next_handle := Suc (next_handle w)\<rparr>)"
  by (simp add: oneshot_channel_def run_simps)

lemma run_conn_channel [run_simps]:
  "run conn_channel w = Done (next_handle w)
     (w\<lparr>conn_chan := (conn_chan w)(next_handle w := []), next_handle := Suc (next_handle w)\<rparr>)"
  by (simp add: conn_channel_def run_simps)

end
