(* ===== verification/Framing.thy ===== *)
theory Framing
  imports Externals
begin

text \<open>
  The two length-prefixed framings of the code. Relay data carries its payload behind a 16-bit
  length (\<open>write_payload_arc\<close> and \<open>write_payload\<close> write it; \<open>read_payload_arc\<close>,
  \<open>handle_read_shake\<close> and \<open>CircuitConn::read\<close> read it); an application message carries a 32-bit
  length (the chat client writes it, \<open>CircuitConn::read\<close> reads it). The locale states what both
  promise; each is an interpretation.
\<close>

section \<open>The contract\<close>

locale framing =
  fixes frame :: "bytes \<Rightarrow> bytes"
    and unframe :: "bytes \<Rightarrow> bytes option"
    and limit :: nat
  assumes unframe_frame: "length p < limit \<Longrightarrow> unframe (frame p @ r) = Some p"
    and unframe_exact: "unframe d = Some p \<Longrightarrow> length p < limit \<and> (\<exists>r. d = frame p @ r)"
begin

lemma unframe_iff: "unframe d = Some p \<longleftrightarrow> length p < limit \<and> (\<exists>r. d = frame p @ r)"
  using unframe_frame unframe_exact by blast

lemma frame_prefix_free:
  assumes "length p < limit" and "length q < limit" and "frame p @ r = frame q @ s"
  shows "p = q \<and> r = s"
proof -
  have "unframe (frame p @ r) = Some p" using assms(1) by (rule unframe_frame)
  moreover have "unframe (frame p @ r) = Some q"
    unfolding assms(3) using assms(2) by (rule unframe_frame)
  ultimately show ?thesis using assms(3) by simp
qed

lemma frame_inj: "length p < limit \<Longrightarrow> length q < limit \<Longrightarrow> frame p = frame q \<Longrightarrow> p = q"
  using frame_prefix_free [of p q "[]" "[]"] by simp

end

section \<open>The 16-bit framing of relay data\<close>

text \<open>\<open>put_u16(len as u16)\<close> and the buffer: the cast keeps the low 16 bits of the length.\<close>

definition put_u16 :: "nat \<Rightarrow> bytes" where
  "put_u16 len = be_enc 2 (unat (of_nat len :: 16 word))"

definition frame16 :: "bytes \<Rightarrow> bytes" where
  "frame16 buf = put_u16 (length buf) @ buf"

text \<open>
  \<open>data[0] as usize * 256 + data[1] as usize\<close>, then \<open>data[2..(2 + buf_len)]\<close>; \<open>None\<close> where an
  index is out of range and the code panics.
\<close>

definition unframe16 :: "bytes \<Rightarrow> bytes option" where
  "unframe16 data =
     (case (index_opt data 0, index_opt data 1) of
        (Some a, Some b) \<Rightarrow> (let buf_len = unat a * 256 + unat b in slice data 2 (2 + buf_len))
      | _ \<Rightarrow> None)"

lemma put_u16_eq: "put_u16 len = be_enc 2 (len mod 65536)"
  by (simp add: put_u16_def unat_of_nat)

lemma two_bytes: "length data \<ge> 2 \<Longrightarrow> \<exists>a b r. data = a # b # r"
  by (metis Suc_le_length_iff numeral_2_eq_2)

lemma unframe16_cons: "unframe16 (a # b # r) =
    (if be_dec [a, b] \<le> length r then Some (take (be_dec [a, b]) r) else None)"
  by (simp add: unframe16_def be_dec_2 Let_def slice_def)

lemma unframe16_short: "length data < 2 \<Longrightarrow> unframe16 data = None"
  by (cases data rule: remdups_adj.cases) (simp_all add: unframe16_def index_opt_def)

lemma unframe16_None:
  "unframe16 data = None \<longleftrightarrow> length data < 2 \<or> length data < 2 + be_dec (take 2 data)"
proof (cases "length data < 2")
  case False
  then obtain a b r where "data = a # b # r" using two_bytes by (meson not_less)
  then show ?thesis by (auto simp: unframe16_cons)
qed (simp add: unframe16_short)

interpretation u16: framing frame16 unframe16 65536
proof unfold_locales
  fix p r :: bytes assume "length p < 65536"
  moreover obtain a b where ab: "put_u16 (length p) = [a, b]"
    by (auto simp: put_u16_eq numeral_2_eq_2)
  ultimately have "be_dec [a, b] = length p"
    unfolding ab [symmetric] put_u16_eq by simp
  then show "unframe16 (frame16 p @ r) = Some p"
    by (simp add: frame16_def ab unframe16_cons)
next
  fix d p assume u: "unframe16 d = Some p"
  then have "length d \<ge> 2" using unframe16_short [of d] by fastforce
  then obtain a b r where d: "d = a # b # r" using two_bytes by blast
  with u have p: "p = take (be_dec [a, b]) r" "be_dec [a, b] \<le> length r"
    by (auto simp: unframe16_cons split: if_splits)
  moreover have "be_dec [a, b] < 65536" using be_dec_less [of "[a, b]"] by simp
  moreover have "be_enc 2 (be_dec [a, b]) = [a, b]"
    using be_enc_dec [of "[a, b]"] by (simp add: numeral_2_eq_2)
  ultimately have "length p < 65536" "d = frame16 p @ drop (be_dec [a, b]) r"
    by (simp_all add: d frame16_def put_u16_eq)
  then show "length p < 65536 \<and> (\<exists>r. d = frame16 p @ r)" by blast
qed

section \<open>The 32-bit framing of application messages\<close>

definition put_u32 :: "nat \<Rightarrow> bytes" where
  "put_u32 len = be_enc 4 (unat (of_nat len :: 32 word))"

definition frame32 :: "bytes \<Rightarrow> bytes" where
  "frame32 msg = put_u32 (length msg) @ msg"

text \<open>\<open>u32::from_be_bytes([buf[0], buf[1], buf[2], buf[3]])\<close>, then \<open>buf[4..(real_size + 4)]\<close>.\<close>

definition unframe32 :: "bytes \<Rightarrow> bytes option" where
  "unframe32 buf =
     (case (index_opt buf 0, index_opt buf 1, index_opt buf 2, index_opt buf 3) of
        (Some a, Some b, Some c, Some d) \<Rightarrow>
          (let real_size = be_dec [a, b, c, d] in slice buf 4 (real_size + 4))
      | _ \<Rightarrow> None)"

lemma put_u32_eq: "put_u32 len = be_enc 4 (len mod 4294967296)"
  by (simp add: put_u32_def unat_of_nat)

lemma four_bytes: "length buf \<ge> 4 \<Longrightarrow> \<exists>a b c d r. buf = a # b # c # d # r"
proof -
  assume "4 \<le> length buf"
  then obtain a b r where r: "buf = a # b # r" using two_bytes [of buf] by auto
  with \<open>4 \<le> length buf\<close> obtain c d q where "r = c # d # q" using two_bytes [of r] by auto
  with r show ?thesis by blast
qed

lemma length_4: "length [a, b, c, d] = 4"
  by simp

lemma unframe32_cons: "unframe32 (a # b # c # d # r) =
    (if be_dec [a, b, c, d] \<le> length r then Some (take (be_dec [a, b, c, d]) r) else None)"
  by (simp add: unframe32_def Let_def slice_def numeral_eq_Suc)

lemma unframe32_short: "length buf < 4 \<Longrightarrow> unframe32 buf = None"
  by (auto simp: unframe32_def index_opt_def)

interpretation u32: framing frame32 unframe32 4294967296
proof unfold_locales
  fix p r :: bytes assume l: "length p < 4294967296"
  have "length (put_u32 (length p)) = 4" by (simp add: put_u32_def)
  then obtain a b c d where ab: "put_u32 (length p) = [a, b, c, d]"
    using four_bytes [of "put_u32 (length p)"] by auto
  have "be_dec [a, b, c, d] = length p"
    unfolding ab [symmetric] put_u32_eq using l by simp
  then show "unframe32 (frame32 p @ r) = Some p"
    by (simp add: frame32_def ab unframe32_cons)
next
  fix f p assume u: "unframe32 f = Some p"
  then have "length f \<ge> 4" using unframe32_short [of f] by fastforce
  then obtain a b c d r where f: "f = a # b # c # d # r" using four_bytes by blast
  with u have p: "p = take (be_dec [a, b, c, d]) r" "be_dec [a, b, c, d] \<le> length r"
    by (auto simp: unframe32_cons split: if_splits)
  moreover have "be_dec [a, b, c, d] < 4294967296" using be_dec_less [of "[a, b, c, d]"] by simp
  moreover have "be_enc 4 (be_dec [a, b, c, d]) = [a, b, c, d]"
    using be_enc_dec [of "[a, b, c, d]"] by (simp only: length_4)
  ultimately have "length p < 4294967296" "f = frame32 p @ drop (be_dec [a, b, c, d]) r"
    by (simp_all add: f frame32_def put_u32_eq)
  then show "length p < 4294967296 \<and> (\<exists>r. f = frame32 p @ r)" by blast
qed

end
