(* ===== verification/Utils.thy ===== *)
theory Utils
  imports Node_State Framing
begin

text \<open>
  \<open>network/utils.rs\<close> over wrapped streams, and the constants of \<open>network/const_vb.rs\<close>: identifiers
  from hashes, the traffic confusion and the time jitter, the writers of relay messages, the
  forwarding between the two streams of a session.
\<close>

definition BUF_LEN :: nat where "BUF_LEN = 65536"
definition CONFUSION_MAX_PROPORTION :: nat where "CONFUSION_MAX_PROPORTION = 10"
definition CONFUSION_PAD_LEN :: nat where "CONFUSION_PAD_LEN = 10"
definition JITTER_MAX_MICROS :: nat where "JITTER_MAX_MICROS = 30"

section \<open>Identifiers\<close>

definition from_bytes_get_id :: "ext \<Rightarrow> bytes \<Rightarrow> string" where
  "from_bytes_get_id E buf = bs58_encode E (drop 2 (multihash_sha2_256 E buf))"

definition from_request_get_id :: "ext \<Rightarrow> request \<Rightarrow> string" where
  "from_request_get_id E r = from_bytes_get_id E (enc (c_request E) r)"

definition from_whitenoise_to_hash :: "ext \<Rightarrow> string \<Rightarrow> string option" where
  "from_whitenoise_to_hash E whitenoise_id =
     (case split_at_1 whitenoise_id of
        None \<Rightarrow> None
      | Some (_, pub_bytes) \<Rightarrow>
          (case bs58_decode E pub_bytes of
             None \<Rightarrow> None
           | Some whitenoise_bytes \<Rightarrow>
               Some (bs58_encode E (drop 2 (multihash_sha2_256 E whitenoise_bytes)))))"

section \<open>Confusion and jitter\<close>

definition confusion_relay :: "ext \<Rightarrow> relay \<Rightarrow> relay async" where
  "confusion_relay E relay =
     bind draw (\<lambda>n.
     let confusion_len = gen_range E n
           (length (relay_data relay) * CONFUSION_MAX_PROPORTION div 100 + CONFUSION_PAD_LEN) in
     bind draw (\<lambda>m.
     let confusion = fill_bytes E m confusion_len in
     Ret \<lparr>relay_id = relay_id relay, relay_type = relay_type relay,
          relay_data = relay_data relay, relay_confusion = confusion\<rparr>))"

definition random_jitter_duration :: "ext \<Rightarrow> nat async" where
  "random_jitter_duration E = bind draw (\<lambda>n. Ret (gen_range E n JITTER_MAX_MICROS))"

definition jitter :: "ext \<Rightarrow> unit async" where
  "jitter E = bind (random_jitter_duration E) (\<lambda>dur. yield_now)"

section \<open>Writing relay messages\<close>

definition write_relay_arc :: "ext \<Rightarrow> wrapped_stream \<Rightarrow> relay \<Rightarrow> string async" where
  "write_relay_arc E stream relay =
     bind (confusion_relay E relay) (\<lambda>relay.
     let relay_data = enc (c_relay E) relay;
         key = from_bytes_get_id E relay_data;
         relay = relay\<lparr>relay_id := key\<rparr>;
         relay_data = enc (c_relay E) relay in
     bind (jitter E) (\<lambda>_.
     bind (ws_write stream relay_data) (\<lambda>_.
     Ret key)))"

text \<open>
  The buffer of \<open>write_payload_arc\<close>: \<open>put_u16\<close>, then \<open>chunk_mut().copy_from_slice(buf)\<close>, which
  panics unless the room left is just as long as \<open>buf\<close>, then \<open>advance_mut(len)\<close>.
\<close>

definition payload_buf :: "ext \<Rightarrow> bytes \<Rightarrow> nat \<Rightarrow> bytes option" where
  "payload_buf E buf len =
     (if length buf = chunk_mut_len E 2 len \<and> len \<le> chunk_mut_len E 2 len
      then Some (put_u16 len @ take len buf) else None)"

definition relay_of :: "relaytype \<Rightarrow> bytes \<Rightarrow> relay" where
  "relay_of t data =
     \<lparr>relay_id = '''', relay_type = relaytype_i32 t, relay_data = data, relay_confusion = []\<rparr>"

definition write_payload_arc :: "ext \<Rightarrow> wrapped_stream \<Rightarrow> bytes \<Rightarrow> nat \<Rightarrow> string \<Rightarrow> unit async" where
  "write_payload_arc E stream buf len session_id =
     bind (unwrap (payload_buf E buf len)) (\<lambda>new_buf.
     let relay_msg = \<lparr>rm_session_id = session_id, rm_data = new_buf\<rparr>;
         relay_msg_data = enc (c_relay_msg E) relay_msg in
     andthen (write_relay_arc E stream (relay_of Relaytype_Data relay_msg_data)) (Ret ()))"

definition write_handshake_payload_arc ::
  "ext \<Rightarrow> wrapped_stream \<Rightarrow> bytes \<Rightarrow> nat \<Rightarrow> string \<Rightarrow> unit async" where
  "write_handshake_payload_arc E stream buf len session_id =
     write_payload_arc E stream buf len session_id"

definition write_disconnect_arc :: "ext \<Rightarrow> wrapped_stream \<Rightarrow> string \<Rightarrow> unit async" where
  "write_disconnect_arc E stream session_id =
     (let disconnect_relay = \<lparr>dc_session_id = session_id, dc_err_code = 0\<rparr>;
          data = enc (c_disconnect E) disconnect_relay in
      andthen (write_relay_arc E stream (relay_of Relaytype_Disconnect data)) (Ret ()))"

definition write_relay_wake_arc :: "ext \<Rightarrow> wrapped_stream \<Rightarrow> unit async" where
  "write_relay_wake_arc E stream =
     andthen (write_relay_arc E stream (relay_of Relaytype_Wake [])) (Ret ())"

definition write_set_session_with_role_arc ::
  "ext \<Rightarrow> wrapped_stream \<Rightarrow> string \<Rightarrow> i32 \<Rightarrow> string async" where
  "write_set_session_with_role_arc E stream session_id role =
     (let cmd = \<lparr>ssm_session_id = session_id, ssm_role = role\<rparr>;
          data = enc (c_set_session E) cmd in
      write_relay_arc E stream (relay_of Relaytype_SetSessionId data))"

definition write_set_session_arc :: "ext \<Rightarrow> wrapped_stream \<Rightarrow> string \<Rightarrow> string async" where
  "write_set_session_arc E stream session_id =
     (let cmd = \<lparr>ssm_session_id = session_id, ssm_role = session_role_i32 EntryRole\<rparr>;
          data = enc (c_set_session E) cmd in
      write_relay_arc E stream (relay_of Relaytype_SetSessionId data))"

text \<open>\<open>Relay::decode(msg).unwrap()\<close> of what the stream delivers.\<close>

definition read_from_negotiated_arc :: "ext \<Rightarrow> wrapped_stream \<Rightarrow> (read_one_error + relay) async" where
  "read_from_negotiated_arc E stream =
     bind (ws_read stream) (\<lambda>msg.
     case msg of
       Inl e \<Rightarrow> Ret (Inl e)
     | Inr bs \<Rightarrow> bind (unwrap (dec (c_relay E) bs)) (\<lambda>relay. Ret (Inr relay)))"

section \<open>Messages of the control plane\<close>

definition new_relay_circuit_success :: "ext \<Rightarrow> string \<Rightarrow> relay" where
  "new_relay_circuit_success E session_id =
     relay_of Relaytype_Success (enc (c_success E) \<lparr>cs_session_id = session_id\<rparr>)"

definition new_relay_probe :: "ext \<Rightarrow> string \<Rightarrow> relay" where
  "new_relay_probe E session_id =
     (let hash_bytes = drop 2 (multihash_sha2_256 E (as_bytes session_id));
          probe_signal = \<lparr>ps_session_id = session_id, ps_data = hash_bytes\<rparr> in
      relay_of Relaytype_Probe (enc (c_probe E) probe_signal))"

section \<open>Forwarding\<close>

definition forward_relay :: "ext \<Rightarrow> session \<Rightarrow> string \<Rightarrow> relay \<Rightarrow> unit async" where
  "forward_relay E session cur_stream_id relay =
     bind (unwrap (early_stream (ses_pair session))) (\<lambda>early.
     if ws_stream_id early = cur_stream_id
     then bind (unwrap (later_stream (ses_pair session))) (\<lambda>later.
          andthen (write_relay_arc E later relay) (Ret ()))
     else bind (unwrap (later_stream (ses_pair session))) (\<lambda>later.
          if ws_stream_id later = cur_stream_id
          then andthen (write_relay_arc E early relay) (Ret ())
          else Ret ()))"

definition send_relay_twoway :: "session \<Rightarrow> relay \<Rightarrow> unit async" where
  "send_relay_twoway session relay =
     andthen (case early_stream (ses_pair session) of
                None \<Rightarrow> Ret () | Some st \<Rightarrow> spawn (T_write_relay_arc st relay))
             (case later_stream (ses_pair session) of
                None \<Rightarrow> Ret () | Some st \<Rightarrow> spawn (T_write_relay_arc st relay))"

section \<open>The handshake payload\<close>

definition handle_remote_handshake_payload :: "ext \<Rightarrow> bytes \<Rightarrow> bytes \<Rightarrow> bool option" where
  "handle_remote_handshake_payload E payload remote_static =
     (case dec (c_handshake E) payload of
        None \<Rightarrow> None
      | Some p \<Rightarrow> verify_signature E (nh_identity_key p)
                    (as_bytes ''noise-libp2p-static-key:'' @ remote_static) (nh_identity_sig p))"

definition generate_handshake_payload :: "ext \<Rightarrow> nat \<Rightarrow> keypair \<Rightarrow> bytes" where
  "generate_handshake_payload E n k =
     enc (c_handshake E) \<lparr>nh_identity_key = noise_identity_key E n k,
                           nh_identity_sig = noise_identity_sig E n k, nh_data = []\<rparr>"

section \<open>What goes on the wire\<close>

text \<open>
  The relay that \<open>write_relay_arc\<close> sends when \<open>n\<close> random numbers have been drawn before: the
  reference for the runs below.
\<close>

definition confused :: "ext \<Rightarrow> nat \<Rightarrow> relay \<Rightarrow> relay" where
  "confused E n r = r\<lparr>relay_confusion := fill_bytes E (Suc n) (gen_range E n
     (length (relay_data r) * CONFUSION_MAX_PROPORTION div 100 + CONFUSION_PAD_LEN))\<rparr>"

definition on_wire :: "ext \<Rightarrow> nat \<Rightarrow> relay \<Rightarrow> relay" where
  "on_wire E n r = (confused E n r)\<lparr>relay_id := from_bytes_get_id E (enc (c_relay E) (confused E n r))\<rparr>"

lemma on_wire_type [simp]: "relay_type (on_wire E n r) = relay_type r"
  and on_wire_data [simp]: "relay_data (on_wire E n r) = relay_data r"
  by (simp_all add: on_wire_def confused_def)

definition sent_relay :: "ext \<Rightarrow> wrapped_stream \<Rightarrow> relay \<Rightarrow> world \<Rightarrow> world" where
  "sent_relay E st r w =
     push_out st (WrapedData_Data (enc (c_relay E) (on_wire E (draws w) r))) (w\<lparr>draws := draws w + 3\<rparr>)"

lemma run_confusion_relay [run_simps]:
  "run (confusion_relay E r) w = Done (confused E (draws w) r) (w\<lparr>draws := draws w + 2\<rparr>)"
  by (simp add: confusion_relay_def confused_def run_simps Let_def)

lemma run_jitter [run_simps]: "run (jitter E) w = Done () (w\<lparr>draws := Suc (draws w)\<rparr>)"
  by (simp add: jitter_def random_jitter_duration_def run_simps)

lemma run_write_relay_arc [run_simps]:
  "run (write_relay_arc E st r) w =
     Done (relay_id (on_wire E (draws w) r)) (sent_relay E st r w)"
  by (simp add: write_relay_arc_def run_simps Let_def on_wire_def sent_relay_def
      numeral_3_eq_3)

lemma sent_relay_frame [simp]:
  "session_map (sent_relay E st r w) = session_map w"
  "circuit_map (sent_relay E st r w) = circuit_map w"
  "probe_map (sent_relay E st r w) = probe_map w"
  "node_request_sender (sent_relay E st r w) = node_request_sender w"
  "request_loop_alive (sent_relay E st r w) = request_loop_alive w"
  "event_bus (sent_relay E st r w) = event_bus w"
  "oneshots (sent_relay E st r w) = oneshots w"
  "next_handle (sent_relay E st r w) = next_handle w"
  "spawned (sent_relay E st r w) = spawned w"
  "relay_out_streams (sent_relay E st r w) = relay_out_streams w"
  "in_chan (sent_relay E st r w) = in_chan w"
  "conn_chan (sent_relay E st r w) = conn_chan w"
  "poisoned (sent_relay E st r w) = poisoned w"
  "circuit_task (sent_relay E st r w) = circuit_task w"
  "draws (sent_relay E st r w) = draws w + 3"
  by (simp_all add: sent_relay_def push_out_def)

lemma out_chan_sent_relay:
  "out_chan (sent_relay E st r w) i =
     (if i = ws_stream st
      then out_chan w i @ [WrapedData_Data (enc (c_relay E) (on_wire E (draws w) r))] else out_chan w i)"
  by (simp add: sent_relay_def push_out_def)

lemma run_forward_relay:
  assumes "early_stream (ses_pair s) = Some e" and "later_stream (ses_pair s) = Some l"
  shows "run (forward_relay E s i r) w =
    Done () (if ws_stream_id e = i then sent_relay E l r w
             else if ws_stream_id l = i then sent_relay E e r w else w)"
  using assms by (simp add: forward_relay_def run_simps)

lemma run_send_relay_twoway [run_simps]:
  "run (send_relay_twoway s r) w = Done () (w\<lparr>spawned := spawned w @
     map (\<lambda>st. T_write_relay_arc st r)
       (List.map_filter id [early_stream (ses_pair s), later_stream (ses_pair s)])\<rparr>)"
  by (auto simp: send_relay_twoway_def run_simps map_filter_simps split: option.splits)

lemma payload_buf_exact:
  assumes "alloc_exact E" and "buf \<noteq> []"
  shows "payload_buf E buf (length buf) = Some (frame16 buf)"
  using assms by (simp add: payload_buf_def alloc_exact_def frame16_def)

end
