(* ===== verification/Account.thy ===== *)
theory Account
  imports Utils
begin

text \<open>
  \<open>account/key_types.rs\<close> and \<open>account/account_service.rs\<close>: kinds of keys, the key pair stored
  under \<open>./db\<close>, the WhiteNoise id of a key pair, and ECIES encryption to a WhiteNoise id. A function
  that panics returns \<open>None\<close>.
\<close>

section \<open>Key types\<close>

datatype key_type = ED25519 | SECP256K1

fun key_type_to_i32 :: "key_type \<Rightarrow> i32" where
  "key_type_to_i32 ED25519 = 0"
| "key_type_to_i32 SECP256K1 = 1"

definition key_type_from_i32 :: "i32 \<Rightarrow> key_type" where
  "key_type_from_i32 index = (if index = 0 then ED25519 else SECP256K1)"

definition key_type_from_text_str :: "string \<Rightarrow> key_type" where
  "key_type_from_text_str t = (if t = ''ed25519'' then ED25519 else SECP256K1)"

section \<open>The stored account\<close>

text \<open>The level database is a map from keys to values; opening it and writing to it succeed.\<close>

type_synonym db = "bytes \<Rightarrow> bytes option"

definition default_key :: "key_type \<Rightarrow> bytes" where
  "default_key t = as_bytes (''default'' @ i32_to_string (key_type_to_i32 t))"

definition generate_keypair :: "ext \<Rightarrow> nat \<Rightarrow> key_type \<Rightarrow> keypair" where
  "generate_keypair E n t =
     (case t of ED25519 \<Rightarrow> KeyEd25519 (ed25519_generate E n) | SECP256K1 \<Rightarrow> KeySecp256k1 (secp_generate E n))"

definition get_default_account_keypair ::
  "ext \<Rightarrow> nat \<Rightarrow> db \<Rightarrow> key_type \<Rightarrow> (keypair \<times> db) option" where
  "get_default_account_keypair E n db t =
     (let key = default_key t in
      case db key of
        None \<Rightarrow>
          (let keypair = generate_keypair E n t in
           case keypair of
             KeyEd25519 k \<Rightarrow> Some (keypair, db(key \<mapsto> ed25519_encode E k))
           | KeySecp256k1 k \<Rightarrow> Some (keypair, db(key \<mapsto> secp_secret_bytes E k))
           | KeyOther _ \<Rightarrow> None)
      | Some default_account_bytes \<Rightarrow>
          (case t of
             ED25519 \<Rightarrow>
               map_option (\<lambda>k. (KeyEd25519 k, db)) (ed25519_decode E default_account_bytes)
           | SECP256K1 \<Rightarrow>
               map_option (\<lambda>k. (KeySecp256k1 k, db)) (secp_from_secret E default_account_bytes)))"

section \<open>WhiteNoise ids\<close>

definition from_keypair_to_whitenoise_id :: "ext \<Rightarrow> keypair \<Rightarrow> string option" where
  "from_keypair_to_whitenoise_id E keypair =
     (case keypair of
        KeyEd25519 k \<Rightarrow> Some (''0'' @ bs58_encode E (public_encode E (KeyEd25519 k)))
      | KeySecp256k1 k \<Rightarrow> Some (''1'' @ bs58_encode E (public_encode E (KeySecp256k1 k)))
      | KeyOther _ \<Rightarrow> None)"

section \<open>ECIES\<close>

definition from_keypair_to_secretkey_bytes :: "ext \<Rightarrow> keypair \<Rightarrow> bytes option" where
  "from_keypair_to_secretkey_bytes E keypair =
     (case keypair of KeySecp256k1 k \<Rightarrow> Some (secp_secret_bytes E k) | _ \<Rightarrow> None)"

definition ecies_encrypt :: "ext \<Rightarrow> nat \<Rightarrow> bytes \<Rightarrow> bytes \<Rightarrow> bytes option" where
  "ecies_encrypt E n pub_bytes plain =
     (case secp_uncompressed E pub_bytes of
        None \<Rightarrow> None
      | Some serialized \<Rightarrow>
          (case slice serialized 1 65 of
             None \<Rightarrow> None
           | Some public_key \<Rightarrow> ecies_secp_enc E n public_key plain))"

definition ecies_ed25519_encrypt :: "ext \<Rightarrow> nat \<Rightarrow> bytes \<Rightarrow> bytes \<Rightarrow> bytes option" where
  "ecies_ed25519_encrypt E n pub_bytes plain = ecies_ed25519_enc E n pub_bytes plain"

text \<open>The decryptions return a \<open>Result\<close>: \<open>Some None\<close> is the error, \<open>None\<close> the panic.\<close>

definition ecies_decrypt :: "ext \<Rightarrow> keypair \<Rightarrow> bytes \<Rightarrow> bytes option option" where
  "ecies_decrypt E keypair encrypted =
     map_option (\<lambda>secret. ecies_secp_dec E secret encrypted) (from_keypair_to_secretkey_bytes E keypair)"

text \<open>The masks applied to the lower half of the hashed secret, one assignment after the other.\<close>

definition clamp_scalar :: "bytes \<Rightarrow> bytes" where
  "clamp_scalar lower =
     (let lower = lower[0 := lower ! 0 AND 248];
          lower = lower[31 := lower ! 31 AND 63];
          lower = lower[31 := lower ! 31 OR 64];
          lower = lower[0 := lower ! 0 AND 248];
          lower = lower[31 := lower ! 31 AND 127];
          lower = lower[31 := lower ! 31 OR 64] in lower)"

definition ecies_ed25519_decrypt :: "ext \<Rightarrow> keypair \<Rightarrow> bytes \<Rightarrow> bytes option option" where
  "ecies_ed25519_decrypt E keypair encrypted =
     (case keypair of
        KeyEd25519 k \<Rightarrow>
          (let hash = sha512 E (ed25519_secret E k);
               secret = clamp_scalar (take 32 hash) in
           Some (ecies_ed25519_dec E secret encrypted))
      | _ \<Rightarrow> None)"

section \<open>Lemmas\<close>

text \<open>\<open>libp2p::identity\<close>: decoding an encoded key pair gives it back.\<close>

definition keys_ok :: "ext \<Rightarrow> bool" where
  "keys_ok E \<longleftrightarrow> (\<forall>k. ed25519_decode E (ed25519_encode E k) = Some k) \<and>
     (\<forall>k. secp_from_secret E (secp_secret_bytes E k) = Some k)"

lemma key_type_i32_roundtrip [simp]: "key_type_from_i32 (key_type_to_i32 t) = t"
  by (cases t) (simp_all add: key_type_from_i32_def)

lemma default_key_distinct: "default_key ED25519 \<noteq> default_key SECP256K1"
  by code_simp

lemma default_key_inj: "default_key s = default_key t \<Longrightarrow> s = t"
  using default_key_distinct by (cases s; cases t) auto

lemma default_account_created:
  assumes "db (default_key t) = None"
  shows "\<exists>db'. get_default_account_keypair E n db t = Some (generate_keypair E n t, db') \<and>
    dom db' = insert (default_key t) (dom db)"
  using assms
  by (cases t) (simp_all add: get_default_account_keypair_def generate_keypair_def Let_def)

lemma clamp_scalar_eq:
  assumes "length lower = 32"
  shows "clamp_scalar lower = lower[0 := lower ! 0 AND 248, 31 := (lower ! 31 AND 63) OR 64]"
proof -
  have "((x AND 63 OR 64) AND 127) OR 64 = (x AND 63 OR 64 :: byte)" for x
    by (simp add: bit.conj_disj_distrib2 and.assoc or.assoc)
  moreover have "(x AND 248) AND 248 = (x AND 248 :: byte)" for x
    by (simp add: and.assoc)
  ultimately show ?thesis
    using assms by (simp add: clamp_scalar_def Let_def list_update_swap)
qed

lemma whitenoise_id_hash:
  assumes "base58_ok E" and "from_keypair_to_whitenoise_id E k = Some wid"
  shows "from_whitenoise_to_hash E wid =
    Some (bs58_encode E (drop 2 (multihash_sha2_256 E (public_encode E k))))"
  using assms
  by (auto simp: from_keypair_to_whitenoise_id_def from_whitenoise_to_hash_def base58_ok_def
      split_at_1_ascii split: keypair.splits)

end
