(* ===== verification/Node_Ops.thy ===== *)
theory Node_Ops
  imports Account
begin

text \<open>
  The methods of \<open>impl Node\<close> in \<open>network/node.rs\<close>: requests and their acknowledgements, the queue of
  outgoing relay streams, opening and closing sessions, dialing.
\<close>

section \<open>Requests\<close>

definition get_id :: "ext \<Rightarrow> world \<Rightarrow> string" where
  "get_id E w = to_base58 E (into_peer_id E (node_keypair w))"

definition external_send_node_request_not_wait :: "node_request \<Rightarrow> unit async" where
  "external_send_node_request_not_wait r = send_node_request r"

definition external_send_node_request_and_wait :: "string \<Rightarrow> node_request \<Rightarrow> ack async" where
  "external_send_node_request_and_wait key r =
     bind oneshot_channel (\<lambda>h.
     bind (event_bus_insert key h) (\<lambda>_.
     bind (send_node_request r) (\<lambda>_.
     bind (recv_ack h) (\<lambda>a. unwrap a))))"

definition send_ack :: "node_request \<Rightarrow> unit async" where
  "send_ack r = send_node_request r"

text \<open>The requests of the code: built with an empty id, which is then set to the hash.\<close>

definition with_req_id :: "ext \<Rightarrow> request \<Rightarrow> request" where
  "with_req_id E r = r\<lparr>rq_req_id := from_request_get_id E r\<rparr>"

definition to_proxy :: "peer_id \<Rightarrow> request \<Rightarrow> node_request" where
  "to_proxy p r = NodeRequest_ProxyRequest
     \<lparr>npr_remote_peer_id = p, npr_proxy_request = Some r, npr_peer_operation = None\<rparr>"

definition ack_to :: "peer_id \<Rightarrow> string \<Rightarrow> bool \<Rightarrow> bytes \<Rightarrow> node_request" where
  "ack_to p cid result data = NodeRequest_AckRequest
     \<lparr>nar_remote_peer_id = p,
      nar_ack_request = Some \<lparr>ack_command_id = cid, ack_result = result, ack_data = data\<rparr>\<rparr>"

definition peer_of_base58 :: "ext \<Rightarrow> string \<Rightarrow> peer_id option" where
  "peer_of_base58 E s =
     (case bs58_decode E s of None \<Rightarrow> None | Some b \<Rightarrow> peer_from_bytes E b)"

section \<open>Peers of the main net\<close>

fun add_main_nets :: "ext \<Rightarrow> node_info list \<Rightarrow> node_info list async" where
  "add_main_nets E [] = Ret []"
| "add_main_nets E (peer # peers) =
     (if ni_addr peer = [] then add_main_nets E peers
      else
        bind (unwrap (those (map (parse_multiaddr E) (ni_addr peer)))) (\<lambda>addrs.
        bind (unwrap (peer_of_base58 E (ni_id peer))) (\<lambda>p.
        bind (send_node_request (NodeRequest_AddPeerAddressesRequest
                \<lparr>apa_remote_peer_id = p, apa_remote_addr = addrs\<rparr>)) (\<lambda>_.
        bind (add_main_nets E peers) (\<lambda>rest. Ret (peer # rest))))))"

definition get_main_nets :: "ext \<Rightarrow> i32 \<Rightarrow> peer_id \<Rightarrow> string \<Rightarrow> peers_list async" where
  "get_main_nets E cnt remote_peer_id remote_peer_addr =
     bind (send_node_request (NodeRequest_AddPeerAddressesRequest
             \<lparr>apa_remote_peer_id = remote_peer_id, apa_remote_addr = [remote_peer_addr]\<rparr>)) (\<lambda>_.
     let request = with_req_id E
           \<lparr>rq_req_id = '''', rq_from = '''', rq_reqtype = reqtype_i32 Reqtype_MainNetPeers,
            rq_data = enc (c_main_net_peers E) \<lparr>mnp_max = cnt\<rparr>\<rparr> in
     bind (external_send_node_request_and_wait (rq_req_id request)
             (to_proxy remote_peer_id request)) (\<lambda>data.
     bind (unwrap (dec (c_peers_list E) (ack_data data))) (\<lambda>peer_list.
     bind (add_main_nets E (pl_peers peer_list)) (\<lambda>peers.
     Ret \<lparr>pl_peers = peers\<rparr>))))"

section \<open>Registering with a proxy\<close>

definition register_proxy :: "ext \<Rightarrow> peer_id \<Rightarrow> bool async" where
  "register_proxy E remote_peer_id =
     bind (gets node_keypair) (\<lambda>keypair.
     bind (unwrap (from_keypair_to_whitenoise_id E keypair)) (\<lambda>wid.
     let request = with_req_id E
           \<lparr>rq_req_id = '''', rq_from = to_base58 E (into_peer_id E keypair),
            rq_reqtype = reqtype_i32 Reqtype_NewProxy,
            rq_data = enc (c_new_proxy E) \<lparr>np_time = ''60m'', np_white_noise_id = wid\<rparr>\<rparr> in
     bind (external_send_node_request_and_wait (rq_req_id request)
             (to_proxy remote_peer_id request)) (\<lambda>data.
     if ack_result data
     then bind (modify (\<lambda>w. w\<lparr>proxy_id := Some remote_peer_id\<rparr>)) (\<lambda>_. Ret True)
     else Ret False)))"

section \<open>Relay streams\<close>

definition pop_out_stream :: "wrapped_stream option async" where
  "pop_out_stream = atomic
     (\<lambda>w. case relay_out_streams w of [] \<Rightarrow> None | st # _ \<Rightarrow> Some st)
     (\<lambda>w. w\<lparr>relay_out_streams := tl (relay_out_streams w)\<rparr>)"

definition push_out_stream :: "wrapped_stream \<Rightarrow> unit async" where
  "push_out_stream st = modify (\<lambda>w. w\<lparr>relay_out_streams := relay_out_streams w @ [st]\<rparr>)"

text \<open>The inner loop of \<open>wait_for_out_peer_relay_stream\<close>, with \<open>k\<close> rounds to go.\<close>

fun scan_out_streams :: "peer_id \<Rightarrow> nat \<Rightarrow> wrapped_stream option async" where
  "scan_out_streams p 0 = Ret None"
| "scan_out_streams p (Suc k) =
     bind pop_out_stream (\<lambda>o_st.
     case o_st of
       None \<Rightarrow> scan_out_streams p k
     | Some st \<Rightarrow>
         if ws_remote_peer_id st = p then Ret (Some st)
         else bind (push_out_stream st) (\<lambda>_. scan_out_streams p k))"

text \<open>The outer loop: a scan every 50 ms until \<open>wait_time\<close> reaches 5000.\<close>

function wait_for_out :: "peer_id \<Rightarrow> nat \<Rightarrow> wrapped_stream option async" where
  "wait_for_out p wait_time =
     (if wait_time \<ge> 5000 then Ret None
      else
        bind (gets (\<lambda>w. length (relay_out_streams w))) (\<lambda>len.
        bind (scan_out_streams p len) (\<lambda>o_st.
        case o_st of
          Some st \<Rightarrow> Ret (Some st)
        | None \<Rightarrow> bind yield_now (\<lambda>_. wait_for_out p (wait_time + 50)))))"
  by pat_completeness auto
termination
  by (relation "measure (\<lambda>(p, t). 5000 - t)") auto

declare wait_for_out.simps [simp del]

definition wait_for_out_peer_relay_stream :: "peer_id \<Rightarrow> wrapped_stream option async" where
  "wait_for_out_peer_relay_stream p = wait_for_out p 0"

text \<open>
  \<open>wait_for_relay_stream\<close> polls every 50 ms until a stream has come in: a wait on the queue.
\<close>

definition wait_for_relay_stream :: "wrapped_stream async" where
  "wait_for_relay_stream = await (\<lambda>w. relay_in_streams w \<noteq> []) (\<lambda>w. hd (relay_in_streams w))
     (\<lambda>w. w\<lparr>relay_in_streams := tl (relay_in_streams w)\<rparr>)"

definition new_relay_stream :: "peer_id \<Rightarrow> wrapped_stream option async" where
  "new_relay_stream p =
     bind (spawn (T_send_node_request (NodeRequest_NewStreamRequest p))) (\<lambda>_.
     wait_for_out_peer_relay_stream p)"

section \<open>Sessions\<close>

definition close_stream_opt :: "wrapped_stream option \<Rightarrow> unit async" where
  "close_stream_opt o_st = (case o_st of None \<Rightarrow> Ret () | Some st \<Rightarrow> ws_close st)"

definition handle_close_session :: "string \<Rightarrow> unit async" where
  "handle_close_session sid =
     bind (under Lock_session_map (\<lambda>w. session_map w sid) (del_session sid)) (\<lambda>session_opt.
     bind (case session_opt of
             None \<Rightarrow> Ret ()
           | Some s \<Rightarrow>
               bind (close_stream_opt (early_stream (ses_pair s))) (\<lambda>_.
               close_stream_opt (later_stream (ses_pair s)))) (\<lambda>_.
     bind (modify (del_circuit sid)) (\<lambda>_.
     modify (del_probe sid))))"

text \<open>
  \<open>session_map.write().unwrap().insert(session_id, new_session.unwrap())\<close>: the lock is taken before
  the argument is unwrapped, so that a session that is gone poisons it.
\<close>

definition insert_later :: "string \<Rightarrow> wrapped_stream \<Rightarrow> session option \<Rightarrow> unit async" where
  "insert_later sid st s =
     bind (under Lock_session_map (\<lambda>_. s)
            (\<lambda>w. case s of
               None \<Rightarrow> poison Lock_session_map w
             | Some s \<Rightarrow> put_session sid (set_later st s) w)) (\<lambda>s.
     bind (unwrap s) (\<lambda>_. Ret ()))"

definition new_session_to_peer ::
  "ext \<Rightarrow> peer_id \<Rightarrow> string \<Rightarrow> i32 \<Rightarrow> i32 \<Rightarrow> wrapped_stream option async" where
  "new_session_to_peer E p sid my_role other_role =
     bind (new_relay_stream p) (\<lambda>o_st.
     case o_st of
       None \<Rightarrow> Ret None
     | Some st \<Rightarrow>
         bind (write_relay_wake_arc E st) (\<lambda>_.
         bind (write_set_session_with_role_arc E st sid other_role) (\<lambda>key.
         bind oneshot_channel (\<lambda>h.
         bind (event_bus_insert key h) (\<lambda>_.
         bind (recv_ack h) (\<lambda>a.
         bind (unwrap a) (\<lambda>_.
         bind (spawn (T_relay_event_handler st (Some sid))) (\<lambda>_.
         bind (read_session sid) (\<lambda>found.
         bind (if found = None
               then insert_session sid (new_session sid my_role st)
               else bind (read_session sid) (\<lambda>s. insert_later sid st s)) (\<lambda>_.
         Ret (Some st)))))))))))"

section \<open>Dialing\<close>

definition generate_session_id :: "ext \<Rightarrow> nat \<Rightarrow> string \<Rightarrow> string \<Rightarrow> string" where
  "generate_session_id E n remote_id local_id =
     (let time_bytes = drop 8 (be_enc 16 (now_micros E n));
          to_hash = as_bytes local_id @ as_bytes remote_id @ time_bytes;
          hash = drop 2 (multihash_sha2_256 E to_hash) in
      bs58_encode E hash)"

definition new_circuit_request ::
  "ext \<Rightarrow> string \<Rightarrow> string \<Rightarrow> string \<Rightarrow> string \<Rightarrow> peer_id \<Rightarrow> unit async" where
  "new_circuit_request E remote_wid local_wid local_peer_id sid proxy =
     bind (unwrap (from_whitenoise_to_hash E local_wid)) (\<lambda>from_hash.
     bind (unwrap (from_whitenoise_to_hash E remote_wid)) (\<lambda>to_hash.
     let request = with_req_id E
           \<lparr>rq_req_id = '''', rq_from = local_peer_id, rq_reqtype = reqtype_i32 Reqtype_NewCircuit,
            rq_data = enc (c_new_circuit E)
              \<lparr>nc_from = from_hash, nc_to = to_hash, nc_session_id = sid\<rparr>\<rparr> in
     andthen (external_send_node_request_and_wait (rq_req_id request) (to_proxy proxy request))
       (Ret ())))"

text \<open>The key type byte and the public key of the remote: what \<open>dial\<close> stores for the session.\<close>

definition composit_bytes :: "ext \<Rightarrow> string \<Rightarrow> bytes option" where
  "composit_bytes E remote_wid =
     (case split_at_1 remote_wid of
        None \<Rightarrow> None
      | Some (index, pub_bytes) \<Rightarrow>
          (case bs58_decode E pub_bytes of
             None \<Rightarrow> None
           | Some bs \<Rightarrow> Some (hd (as_bytes index) # bs)))"

definition dial :: "ext \<Rightarrow> string \<Rightarrow> string async" where
  "dial E remote_wid =
     bind (gets node_keypair) (\<lambda>keypair.
     bind (unwrap (from_keypair_to_whitenoise_id E keypair)) (\<lambda>local_wid.
     bind draw (\<lambda>n.
     let sid = generate_session_id E n remote_wid local_wid in
     bind (unwrap (composit_bytes E remote_wid)) (\<lambda>bs.
     bind (under Lock_circuit_task (\<lambda>_. ()) (\<lambda>w. w\<lparr>circuit_task := (circuit_task w)(sid \<mapsto> bs)\<rparr>)) (\<lambda>_.
     bind (gets proxy_id) (\<lambda>proxy_opt.
     bind (unwrap proxy_opt) (\<lambda>proxy.
     bind (new_session_to_peer E proxy sid (session_role_i32 CallerRole) (session_role_i32 EntryRole)) (\<lambda>st_opt.
     bind (unwrap st_opt) (\<lambda>st.
     bind conn_channel (\<lambda>c.
     bind (modify (put_circuit sid
             \<lparr>cc_id = sid, cc_out_stream = st, cc_in_channel = c, cc_transport_state = None\<rparr>)) (\<lambda>_.
     bind (gets (get_id E)) (\<lambda>my_id.
     bind (new_circuit_request E remote_wid local_wid my_id sid proxy) (\<lambda>_.
     Ret sid)))))))))))))"

end
