(* ===== verification/Connection.thy ===== *)
theory Connection
  imports Node_Ops
begin

text \<open>
  \<open>network/connection.rs\<close> and \<open>Node::send_message\<close>: encrypted messages over a circuit. A reader owns
  a buffer that \<open>read_message\<close> overwrites from the front; the rest of it keeps what it held.
\<close>

section \<open>Noise messages into a buffer\<close>

text \<open>\<open>write_message\<close> and \<open>read_message\<close> of \<open>snow\<close> fail when the output buffer is too small.\<close>

definition noise_write_into :: "ext \<Rightarrow> nat \<Rightarrow> bytes \<Rightarrow> noise \<Rightarrow> (noise \<times> bytes) option" where
  "noise_write_into E cap payload ns =
     (case noise_write_message E ns payload of
        None \<Rightarrow> None
      | Some (ns', m) \<Rightarrow> if length m \<le> cap then Some (ns', m) else None)"

definition noise_read_into :: "ext \<Rightarrow> nat \<Rightarrow> bytes \<Rightarrow> noise \<Rightarrow> (noise \<times> bytes) option" where
  "noise_read_into E cap msg ns =
     (case noise_read_message E ns msg of
        None \<Rightarrow> None
      | Some (ns', p) \<Rightarrow> if length p \<le> cap then Some (ns', p) else None)"

text \<open>
  \<open>lock().unwrap().op(..).unwrap()\<close> on a shared Noise state: a panic when the lock is poisoned, and
  a panic that poisons it when the operation fails, since the guard is still held.
\<close>

definition locked :: "(noise \<Rightarrow> (noise \<times> bytes) option) \<Rightarrow> noise option \<Rightarrow> (noise \<times> bytes) option" where
  "locked f ts = (case ts of None \<Rightarrow> None | Some ns \<Rightarrow> f ns)"

definition with_transport :: "nat \<Rightarrow> (noise \<Rightarrow> (noise \<times> bytes) option) \<Rightarrow> bytes async" where
  "with_transport h f =
     bind (atomic (\<lambda>w. map_option snd (locked f (transports w h)))
             (\<lambda>w. w\<lparr>transports := (transports w)(h := map_option fst (locked f (transports w h)))\<rparr>))
          unwrap"

definition new_transport :: "noise \<Rightarrow> nat async" where
  "new_transport ns = atomic next_handle
     (\<lambda>w. w\<lparr>transports := (transports w)(next_handle w \<mapsto> ns), next_handle := Suc (next_handle w)\<rparr>)"

section \<open>CircuitConn\<close>

text \<open>\<open>read\<close> returns the message and the buffer as it leaves it.\<close>

definition circuit_conn_read :: "ext \<Rightarrow> circuit_conn \<Rightarrow> bytes \<Rightarrow> (bytes \<times> bytes) async" where
  "circuit_conn_read E cc buf =
     (case cc_transport_state cc of
        None \<Rightarrow> Ret ([], buf)
      | Some h \<Rightarrow>
          bind (conn_recv (cc_in_channel cc)) (\<lambda>data.
          bind (unwrap (unframe16 data)) (\<lambda>payload.
          bind (with_transport h (noise_read_into E (length buf) payload)) (\<lambda>plain.
          let buf = plain @ drop (length plain) buf in
          bind (unwrap (unframe32 buf)) (\<lambda>msg. Ret (msg, buf))))))"

definition circuit_conn_write :: "ext \<Rightarrow> circuit_conn \<Rightarrow> bytes \<Rightarrow> nat \<Rightarrow> unit async" where
  "circuit_conn_write E cc payload buf_len =
     (case cc_transport_state cc of
        None \<Rightarrow> Ret ()
      | Some h \<Rightarrow>
          bind (with_transport h (noise_write_into E buf_len payload)) (\<lambda>buf_tmp.
          write_payload_arc E (cc_out_stream cc) buf_tmp (length buf_tmp) (cc_id cc)))"

definition send_message :: "ext \<Rightarrow> string \<Rightarrow> bytes \<Rightarrow> unit async" where
  "send_message E sid message =
     bind (gets (\<lambda>w. circuit_map w sid)) (\<lambda>cc_opt.
     bind (unwrap cc_opt) (\<lambda>cc.
     if cc_transport_state cc = None then Ret ()
     else circuit_conn_write E cc message BUF_LEN))"

section \<open>Runs\<close>

lemma run_with_transport [run_simps]:
  "run (with_transport h f) w =
     (case transports w h of
        None \<Rightarrow> Panicked (w\<lparr>transports := (transports w)(h := None)\<rparr>)
      | Some ns \<Rightarrow>
          (case f ns of
             None \<Rightarrow> Panicked (w\<lparr>transports := (transports w)(h := None)\<rparr>)
           | Some (ns', m) \<Rightarrow> Done m (w\<lparr>transports := (transports w)(h \<mapsto> ns')\<rparr>)))"
  by (auto simp: with_transport_def run_simps locked_def split: option.splits)

lemma run_conn_recv [run_simps]:
  "conn_chan w c = d # ds \<Longrightarrow>
   run (conn_recv c) w = Done d (w\<lparr>conn_chan := (conn_chan w)(c := ds)\<rparr>)"
  by (simp add: conn_recv_def run_simps)

lemma run_write_payload_arc:
  assumes "alloc_exact E" and "buf \<noteq> []"
  shows "run (write_payload_arc E st buf (length buf) sid) w =
    Done () (sent_relay E st (relay_of Relaytype_Data
       (enc (c_relay_msg E) \<lparr>rm_session_id = sid, rm_data = frame16 buf\<rparr>)) w)"
  using assms by (simp add: write_payload_arc_def payload_buf_exact run_simps Let_def)

text \<open>
  \<open>snow\<close>: two transport states are paired by \<open>R\<close> when what one writes, the other reads as the same
  plaintext, and they stay paired. A written message is never empty (it carries its tag) and is
  at most 65535 bytes long.
\<close>

definition noise_paired :: "ext \<Rightarrow> (noise \<Rightarrow> noise \<Rightarrow> bool) \<Rightarrow> bool" where
  "noise_paired E R \<longleftrightarrow>
     (\<forall>a b p a' c. R a b \<longrightarrow> noise_write_message E a p = Some (a', c) \<longrightarrow>
        c \<noteq> [] \<and> length c < 65536 \<and> (\<exists>b'. noise_read_message E b c = Some (b', p) \<and> R a' b'))"

lemma noise_pairedD:
  assumes "noise_paired E R" and "R a b" and "noise_write_message E a p = Some (a', c)"
  obtains b' where "c \<noteq> []" "length c < 65536" "noise_read_message E b c = Some (b', p)" "R a' b'"
  using assms unfolding noise_paired_def by meson

text \<open>A framed message that fits the buffer comes out of \<open>read\<close>, whatever the buffer held.\<close>

lemma circuit_conn_read_frame:
  assumes "cc_transport_state cc = Some h" and "transports w h = Some b"
    and "conn_chan w (cc_in_channel cc) = frame16 c # ds" and "length c < 65536"
    and "noise_read_message E b c = Some (b', frame32 msg)"
    and "length (frame32 msg) \<le> length buf" and "length msg < 4294967296"
  shows "run (circuit_conn_read E cc buf) w =
    Done (msg, frame32 msg @ drop (length (frame32 msg)) buf)
      (w\<lparr>conn_chan := (conn_chan w)(cc_in_channel cc := ds), transports := (transports w)(h \<mapsto> b')\<rparr>)"
proof -
  have "unframe16 (frame16 c) = Some c"
    using u16.unframe_frame [of c "[]"] assms(4) by simp
  moreover have "unframe32 (frame32 msg @ r) = Some msg" for r
    using assms(7) by (rule u32.unframe_frame)
  ultimately show ?thesis
    using assms by (simp add: circuit_conn_read_def run_simps noise_read_into_def Let_def)
qed

end
