(* ===== verification/Relay_Handler.thy ===== *)
theory Relay_Handler
  imports Connection
begin

text \<open>
  \<open>network/relay_event_handler.rs\<close>: what a node does with the relay messages of one stream. Each
  program is one round of the loop; it returns the task that goes on, or \<open>None\<close> where the loop
  breaks.
\<close>

section \<open>Handshake\<close>

definition handle_read_shake :: "ext \<Rightarrow> bytes \<Rightarrow> noise \<Rightarrow> (noise \<times> bytes) option" where
  "handle_read_shake E data noise =
     (case unframe16 data of
        None \<Rightarrow> None
      | Some payload \<Rightarrow> noise_read_into E 65535 payload noise)"

text \<open>
  The caller writes two messages and reads one; the answerer reads two and writes one. The result
  \<open>verify_success\<close> of the check of the remote's identity is logged and not used.
\<close>

definition handshake_initiate :: "ext \<Rightarrow> circuit_conn \<Rightarrow> string \<Rightarrow> unit async" where
  "handshake_initiate E cc sid =
     bind (gets node_keypair) (\<lambda>keypair.
     bind draw (\<lambda>n.
     let noise = noise_initiator E n keypair in
     bind (unwrap (noise_write_into E 65535 [] noise)) (\<lambda>(noise, msg).
     bind (write_handshake_payload_arc E (cc_out_stream cc) msg (length msg) sid) (\<lambda>_.
     bind (conn_recv (cc_in_channel cc)) (\<lambda>data.
     bind (unwrap (handle_read_shake E data noise)) (\<lambda>(noise, remote_payload).
     bind (unwrap (noise_remote_static E noise)) (\<lambda>pubkey.
     bind (unwrap (handle_remote_handshake_payload E remote_payload pubkey)) (\<lambda>verify_success.
     let payload = generate_handshake_payload E n keypair in
     bind (unwrap (noise_write_into E 65535 payload noise)) (\<lambda>(noise, msg).
     bind (write_handshake_payload_arc E (cc_out_stream cc) msg (length msg) sid) (\<lambda>_.
     bind (unwrap (noise_into_transport E noise)) (\<lambda>transport.
     bind (new_transport transport) (\<lambda>h.
     modify (put_circuit sid (cc\<lparr>cc_transport_state := Some h\<rparr>))))))))))))))"

definition handshake_respond :: "ext \<Rightarrow> circuit_conn \<Rightarrow> string \<Rightarrow> unit async" where
  "handshake_respond E cc sid =
     bind (gets node_keypair) (\<lambda>keypair.
     bind draw (\<lambda>n.
     let noise = noise_responder E n keypair in
     bind (conn_recv (cc_in_channel cc)) (\<lambda>data.
     bind (unwrap (handle_read_shake E data noise)) (\<lambda>(noise, first_payload).
     let payload = generate_handshake_payload E n keypair in
     bind (unwrap (noise_write_into E 65535 payload noise)) (\<lambda>(noise, msg).
     bind (write_handshake_payload_arc E (cc_out_stream cc) msg (length msg) sid) (\<lambda>_.
     bind (conn_recv (cc_in_channel cc)) (\<lambda>data.
     bind (unwrap (handle_read_shake E data noise)) (\<lambda>(noise, remote_payload).
     bind (unwrap (noise_remote_static E noise)) (\<lambda>pubkey.
     bind (unwrap (handle_remote_handshake_payload E remote_payload pubkey)) (\<lambda>verify_success.
     bind (unwrap (noise_into_transport E noise)) (\<lambda>transport.
     bind (new_transport transport) (\<lambda>h.
     modify (put_circuit sid (cc\<lparr>cc_transport_state := Some h\<rparr>))))))))))))))"

definition process_handshake :: "ext \<Rightarrow> circuit_conn \<Rightarrow> bool \<Rightarrow> string \<Rightarrow> unit async" where
  "process_handshake E cc initiate sid =
     (if initiate then handshake_initiate E cc sid else handshake_respond E cc sid)"

section \<open>Handlers\<close>

definition handle_relay_probe :: "ext \<Rightarrow> string \<Rightarrow> wrapped_stream \<Rightarrow> relay \<Rightarrow> unit async" where
  "handle_relay_probe E sid stream relay =
     bind (unwrap (dec (c_probe E) (relay_data relay))) (\<lambda>probe.
     bind (read_session sid) (\<lambda>session_opt.
     case session_opt of
       None \<Rightarrow> Ret ()
     | Some session \<Rightarrow>
         if ses_role session = session_role_i32 SinkRole
         then
           bind (gets (\<lambda>w. probe_map w sid \<noteq> None)) (\<lambda>contains.
           if contains
           then
             bind (gets (\<lambda>w. probe_map w sid)) (\<lambda>exist_probe.
             bind (unwrap exist_probe) (\<lambda>exist_probe.
             if probe_rand exist_probe = ps_data probe
             then send_relay_twoway session (new_relay_circuit_success E sid)
             else handle_close_session sid))
           else modify (put_probe sid \<lparr>probe_session_id = sid, probe_rand = ps_data probe\<rparr>))
         else if ready session
         then forward_relay E session (ws_stream_id stream) relay
         else Ret ()))"

definition handle_success :: "ext \<Rightarrow> relay \<Rightarrow> wrapped_stream \<Rightarrow> unit async" where
  "handle_success E relay stream =
     (case dec (c_success E) (relay_data relay) of
        None \<Rightarrow> Ret ()
      | Some relay_success \<Rightarrow>
          (let sid = cs_session_id relay_success in
           bind (read_session sid) (\<lambda>session_opt.
           case session_opt of
             None \<Rightarrow> Ret ()
           | Some session \<Rightarrow>
               if ses_role session = session_role_i32 CallerRole
               then bind (gets (\<lambda>w. circuit_map w sid)) (\<lambda>cc.
                    bind (unwrap cc) (\<lambda>cc. spawn (T_process_handshake cc True sid)))
               else if ses_role session = session_role_i32 AnswerRole
               then bind (gets (\<lambda>w. circuit_map w sid)) (\<lambda>cc.
                    bind (unwrap cc) (\<lambda>cc. spawn (T_process_handshake cc False sid)))
               else if ready session
               then forward_relay E session (ws_stream_id stream) relay
               else Ret ())))"

definition handle_relay_msg :: "ext \<Rightarrow> relay \<Rightarrow> wrapped_stream \<Rightarrow> unit async" where
  "handle_relay_msg E relay stream =
     (case dec (c_relay_msg E) (relay_data relay) of
        None \<Rightarrow> Ret ()
      | Some relay_msg \<Rightarrow>
          (let sid = rm_session_id relay_msg in
           bind (read_session sid) (\<lambda>session_opt.
           case session_opt of
             None \<Rightarrow> Ret ()
           | Some session \<Rightarrow>
               if ses_role session = session_role_i32 AnswerRole \<or>
                  ses_role session = session_role_i32 CallerRole
               then modify (\<lambda>w. case circuit_map w sid of
                      None \<Rightarrow> w | Some cc \<Rightarrow> conn_push (cc_in_channel cc) (rm_data relay_msg) w)
               else if ready session
               then forward_relay E session (ws_stream_id stream) relay
               else Ret ())))"

text \<open>
  In the last branch the session is looked up again and unwrapped under the write lock: if it was
  closed in between, the panic poisons the lock.
\<close>

definition handle_set_session ::
  "ext \<Rightarrow> set_session_id_msg \<Rightarrow> wrapped_stream \<Rightarrow> string \<Rightarrow> unit async" where
  "handle_set_session E msg stream rid =
     (let sid = ssm_session_id msg;
          ack_request = ack_to (ws_remote_peer_id stream) rid True [] in
      bind (read_session sid) (\<lambda>session_opt.
      if (case session_opt of None \<Rightarrow> False | Some s \<Rightarrow> ses_role s = session_role_i32 EntryRole) \<and>
         ssm_role msg = session_role_i32 RelayRole
      then
        bind (unwrap session_opt) (\<lambda>session.
        if ready session
        then
          bind (insert_session sid (set_later stream session)) (\<lambda>_.
          bind (unwrap (later_stream (ses_pair session))) (\<lambda>to_close_stream.
          bind (write_disconnect_arc E to_close_stream sid) (\<lambda>_.
          bind (ws_close to_close_stream) (\<lambda>_.
          send_ack ack_request))))
        else handle_close_session sid)
      else
        bind (if session_opt = None
              then insert_session sid (new_session sid (ssm_role msg) stream)
              else bind (under Lock_session_map (\<lambda>w. session_map w sid)
                          (\<lambda>w. case session_map w sid of
                             None \<Rightarrow> poison Lock_session_map w
                           | Some s \<Rightarrow> put_session sid (set_later stream s) w)) (\<lambda>s.
                   bind (unwrap s) (\<lambda>_. Ret ()))) (\<lambda>_.
        send_ack ack_request)))"

text \<open>
  \<open>entry(sid).or_insert_with(..)\<close> under one write lock: a connection that is there already stays.
\<close>

definition add_circuit_conn :: "string \<Rightarrow> wrapped_stream \<Rightarrow> unit async" where
  "add_circuit_conn sid stream = modify (\<lambda>w.
     case circuit_map w sid of
       Some _ \<Rightarrow> w
     | None \<Rightarrow>
         (let c = next_handle w in
          put_circuit sid
            \<lparr>cc_id = sid, cc_out_stream = stream, cc_in_channel = c, cc_transport_state = None\<rparr>
            (w\<lparr>conn_chan := (conn_chan w)(c := []), next_handle := Suc c\<rparr>)))"

section \<open>The loop\<close>

definition relay_event_handler :: "ext \<Rightarrow> wrapped_stream \<Rightarrow> string option \<Rightarrow> task option async" where
  "relay_event_handler E stream session_id =
     bind (read_from_negotiated_arc E stream) (\<lambda>read_relay_option.
     case read_relay_option of
       Inl _ \<Rightarrow>
         (case session_id of
            None \<Rightarrow> Ret None
          | Some sid \<Rightarrow>
              bind (read_session sid) (\<lambda>session_opt.
              let find_stream = (case session_opt of
                    None \<Rightarrow> False | Some s \<Rightarrow> has_stream s (ws_stream_id stream)) in
              andthen (if find_stream then handle_close_session sid else Ret ()) (Ret None)))
     | Inr read_relay \<Rightarrow>
         (let t = relay_type read_relay;
              continue = Ret (Some (T_relay_event_handler stream session_id)) in
          if t = relaytype_i32 Relaytype_Wake then continue
          else if t = relaytype_i32 Relaytype_Ack then continue
          else if t = relaytype_i32 Relaytype_Probe
          then bind (unwrap session_id) (\<lambda>sid.
               andthen (handle_relay_probe E sid stream read_relay) continue)
          else if t = relaytype_i32 Relaytype_Disconnect
          then andthen (case dec (c_disconnect E) (relay_data read_relay) of
                          None \<Rightarrow> Ret ()
                        | Some d \<Rightarrow> handle_close_session (dc_session_id d)) (Ret None)
          else if t = relaytype_i32 Relaytype_SetSessionId
          then bind (unwrap (dec (c_set_session E) (relay_data read_relay))) (\<lambda>msg.
               let sid = (case session_id of None \<Rightarrow> ssm_session_id msg | Some sid \<Rightarrow> sid) in
               andthen (if ssm_role msg = session_role_i32 AnswerRole
                        then add_circuit_conn sid stream else Ret ())
               (andthen (handle_set_session E msg stream (relay_id read_relay))
                 (Ret (Some (T_relay_event_handler stream (Some sid))))))
          else if t = relaytype_i32 Relaytype_Success
          then andthen (handle_success E read_relay stream) continue
          else if t = relaytype_i32 Relaytype_Data
          then andthen (handle_relay_msg E read_relay stream) continue
          else continue))"

end
