(* ===== verification/Circuit_Handlers.thy ===== *)
theory Circuit_Handlers
  imports Relay_Handler
begin

text \<open>
  The three loops that build circuits: \<open>network/cmd_event_handler.rs\<close> (the relay extends a session
  to the sink), \<open>network/proxy_event_handler.rs\<close> (requests of the node's clients, and of other nodes
  to this client) and \<open>network/publish_event_handler.rs\<close> (gossip that looks for an answering client).
  Each program is one round of its loop.
\<close>

section \<open>Channels from the event loop\<close>

text \<open>\<open>receiver.next()\<close>: the next element, or \<open>None\<close> once the senders, which the swarm owns, are gone.\<close>

definition chan_recv :: "(world \<Rightarrow> 'a list) \<Rightarrow> (world \<Rightarrow> world) \<Rightarrow> 'a option async" where
  "chan_recv c drop_first =
     await (\<lambda>w. c w \<noteq> [] \<or> \<not> request_loop_alive w)
       (\<lambda>w. case c w of [] \<Rightarrow> None | x # _ \<Rightarrow> Some x) drop_first"

definition recv_cmd :: "node_cmd_request option async" where
  "recv_cmd = chan_recv cmd_request_channel
     (\<lambda>w. w\<lparr>cmd_request_channel := tl (cmd_request_channel w)\<rparr>)"

definition recv_proxy :: "node_proxy_request option async" where
  "recv_proxy = chan_recv proxy_request_channel
     (\<lambda>w. w\<lparr>proxy_request_channel := tl (proxy_request_channel w)\<rparr>)"

definition recv_publish :: "bytes option async" where
  "recv_publish = chan_recv publish_channel (\<lambda>w. w\<lparr>publish_channel := tl (publish_channel w)\<rparr>)"

section \<open>Commands\<close>

definition handle_session_expend :: "ext \<Rightarrow> peer_id \<Rightarrow> command \<Rightarrow> unit async" where
  "handle_session_expend E remote_peer_id request =
     bind (unwrap (dec (c_session_expend E) (cmd_data request))) (\<lambda>session_expend.
     let sid = se_session_id session_expend;
         ack = ack_to remote_peer_id (cmd_command_id request) in
     bind (read_session sid) (\<lambda>session_opt.
     case session_opt of
       None \<Rightarrow>
         bind (handle_close_session sid) (\<lambda>_.
         send_ack (ack False (as_bytes ''No such session'')))
     | Some session \<Rightarrow>
         if ready session
         then bind (send_ack (ack True [])) (\<lambda>_.
              send_relay_twoway session (new_relay_circuit_success E sid))
         else
           bind (unwrap (peer_of_base58 E (se_peer_id session_expend))) (\<lambda>sink_peer_id.
           bind (new_session_to_peer E sink_peer_id sid
                   (session_role_i32 RelayRole) (session_role_i32 SinkRole)) (\<lambda>wraped_stream.
           if wraped_stream = None
           then bind (handle_close_session sid) (\<lambda>_.
                send_ack (ack False (as_bytes ''new session error'')))
           else send_ack (ack True [])))))"

definition process_cmd_request :: "ext \<Rightarrow> task option async" where
  "process_cmd_request E =
     bind recv_cmd (\<lambda>cmd_request_option.
     case cmd_request_option of
       None \<Rightarrow> Ret None
     | Some node_cmd_request \<Rightarrow>
         bind (unwrap (ncr_cmd_request node_cmd_request)) (\<lambda>request.
         andthen (if cmd_type request = cmdtype_i32 Cmdtype_SessionExPend
                  then handle_session_expend E (ncr_remote_peer_id node_cmd_request) request
                  else Ret ())
                 (Ret (Some T_process_cmd_request))))"

section \<open>Choosing a peer\<close>

text \<open>\<open>boot_peer_id.unwrap_or_else(PeerId::random)\<close>.\<close>

definition bootstrap_peer :: "ext \<Rightarrow> peer_id async" where
  "bootstrap_peer E =
     bind (gets boot_peer_id) (\<lambda>b. case b of Some p \<Rightarrow> Ret p | None \<Rightarrow> bind draw (\<lambda>n. Ret (peer_random E n)))"

text \<open>
  The inner loop over the known nodes, with \<open>j\<close> rounds to go: the first one from \<open>index + 1\<close> on,
  round the list, that was not tried before, is neither this node nor \<open>other\<close> nor the bootstrap
  node, and passes the check against the destination. Where none does, \<open>join\<close> stays what it was.
  \<open>index += 1\<close> wraps at 64 bits, as a release build does.
\<close>

fun choose_peer ::
  "ext \<Rightarrow> node_info list \<Rightarrow> string list \<Rightarrow> string \<Rightarrow> string \<Rightarrow> nat \<Rightarrow> usize \<Rightarrow> peer_id \<Rightarrow> peer_id async" where
  "choose_peer E nodeinfos invalid other dest 0 index join = Ret join"
| "choose_peer E nodeinfos invalid other dest (Suc j) index join =
     (let index = (index + 1) mod of_nat (length nodeinfos) in
      bind (unwrap (index_opt nodeinfos (unat index))) (\<lambda>info.
      let id = ni_id info in
      bind (bootstrap_peer E) (\<lambda>boot.
      bind (gets (get_id E)) (\<lambda>me.
      if id \<notin> set invalid \<and> id \<noteq> me \<and> id \<noteq> other \<and> id \<noteq> to_base58 E boot
      then
        bind (gets (\<lambda>w. client_peer_map w id)) (\<lambda>hash_opt.
        bind (case hash_opt of
                None \<Rightarrow> Ret True
              | Some h \<Rightarrow> bind (unwrap (from_whitenoise_to_hash E h)) (\<lambda>hh. Ret (hh \<noteq> dest))) (\<lambda>ok.
        if ok then unwrap (peer_of_base58 E id)
        else choose_peer E nodeinfos invalid other dest j index join))
      else choose_peer E nodeinfos invalid other dest j index join))))"

text \<open>
  The outer loop, with \<open>i\<close> tries to go: choose a peer and open a session to it; a peer that could
  not be reached is not chosen again. The result says whether a session was opened, and to whom.
\<close>

fun try_peers ::
  "ext \<Rightarrow> node_info list \<Rightarrow> string \<Rightarrow> string \<Rightarrow> string \<Rightarrow> i32 \<Rightarrow> i32 \<Rightarrow> nat \<Rightarrow> string list \<Rightarrow> peer_id \<Rightarrow>
   (bool \<times> peer_id) async" where
  "try_peers E nodeinfos other dest sid my_role other_role 0 invalid join = Ret (False, join)"
| "try_peers E nodeinfos other dest sid my_role other_role (Suc i) invalid join =
     bind draw (\<lambda>n.
     bind (choose_peer E nodeinfos invalid other dest (length nodeinfos) (random_usize E n) join) (\<lambda>join.
     bind (new_session_to_peer E join sid my_role other_role) (\<lambda>wraped_stream_opt.
     if wraped_stream_opt = None
     then try_peers E nodeinfos other dest sid my_role other_role i (to_base58 E join # invalid) join
     else Ret (True, join))))"

text \<open>\<open>GetMainNets\<close> through the event loop: \<open>None\<close> when the sender was dropped.\<close>

definition ask_main_nets :: "string \<Rightarrow> peer_id \<Rightarrow> i32 \<Rightarrow> node_info list option async" where
  "ask_main_nets cid p num =
     bind oneshot_channel (\<lambda>h.
     bind (send_node_request (NodeRequest_GetMainNetsRequest
             \<lparr>gmn_command_id = cid, gmn_remote_peer_id = p, gmn_num = num, gmn_sender = h\<rparr>)) (\<lambda>_.
     recv_peers h))"

section \<open>Requests of clients\<close>

definition handle_new_circuit :: "ext \<Rightarrow> request \<Rightarrow> peer_id \<Rightarrow> bool async" where
  "handle_new_circuit E request remote_peer_id =
     (case dec (c_new_circuit E) (rq_data request) of
        None \<Rightarrow> Ret False
      | Some new_circuit \<Rightarrow>
     (let sid = nc_session_id new_circuit in
     bind (gets (\<lambda>w. client_wn_map w (nc_from new_circuit))) (\<lambda>from_client.
     if from_client = None then Ret False else
     bind (read_session sid) (\<lambda>session_opt.
     if (case session_opt of None \<Rightarrow> True | Some s \<Rightarrow> ready s) then Ret False else
     bind (gets (\<lambda>w. client_wn_map w (nc_to new_circuit))) (\<lambda>to_client_info_opt.
     case to_client_info_opt of
       Some to_client_info \<Rightarrow>
         bind (new_session_to_peer E (ci_peer_id to_client_info) sid
                 (session_role_i32 AccessRole) (session_role_i32 AnswerRole)) (\<lambda>wraped_stream_opt.
         if wraped_stream_opt = None then Ret False else
         bind (read_session sid) (\<lambda>new_session_opt.
         bind (case new_session_opt of
                 None \<Rightarrow> Ret ()
               | Some s \<Rightarrow> send_relay_twoway s (new_relay_circuit_success E sid)) (\<lambda>_.
         Ret True)))
     | None \<Rightarrow>
         bind (ask_main_nets (rq_req_id request) remote_peer_id 100) (\<lambda>nodeinfos_res.
         case nodeinfos_res of
           None \<Rightarrow> Ret False
         | Some nodeinfos \<Rightarrow>
             bind draw (\<lambda>n.
             bind (try_peers E nodeinfos (to_base58 E remote_peer_id) (nc_to new_circuit) sid
                     (session_role_i32 EntryRole) (session_role_i32 SinkRole) 3 [] (peer_random E n))
               (\<lambda>(joined, join).
             if \<not> joined then bind (handle_close_session sid) (\<lambda>_. Ret False) else
             bind (gets (get_id E)) (\<lambda>me.
             let neg = \<lparr>ng_join = to_base58 E join, ng_session_id = sid,
                        ng_destination = nc_to new_circuit, ng_sig = []\<rparr>;
                 neg_plain = \<lparr>npl_session_id = sid, npl_neg = enc (c_negotiate E) neg\<rparr>;
                 neg_request = with_req_id E
                   \<lparr>rq_req_id = '''', rq_from = me, rq_reqtype = reqtype_i32 Reqtype_NegPlainText,
                    rq_data = enc (c_neg_plaintext E) neg_plain\<rparr> in
             bind (external_send_node_request_and_wait (rq_req_id neg_request)
                     (to_proxy remote_peer_id neg_request)) (\<lambda>ack.
             let encrypted_neg = \<lparr>en_des = nc_to new_circuit, en_cypher = ack_data ack\<rparr> in
             bind oneshot_channel (\<lambda>h.
             bind (send_node_request (NodeRequest_PublishData
                     \<lparr>pdr_data = enc (c_encrypted_neg E) encrypted_neg, pdr_sender = h\<rparr>)) (\<lambda>_.
             bind (recv_bool h) (\<lambda>publish_res.
             bind (unwrap publish_res) (\<lambda>_.
             bind (read_session sid) (\<lambda>session_opt.
             case session_opt of
               None \<Rightarrow> Ret False
             | Some session \<Rightarrow>
                 bind (send_relay_twoway session (new_relay_probe E sid)) (\<lambda>_. Ret True))))))))))))))))"

text \<open>
  \<open>PeerOperation::Disconnect\<close> and \<open>UnRegisterType\<close> take the client of a peer out of both maps,
  one lock after the other.
\<close>

definition remove_client :: "ext \<Rightarrow> peer_id \<Rightarrow> unit async" where
  "remove_client E p =
     bind (atomic (\<lambda>w. client_peer_map w (to_base58 E p))
            (\<lambda>w. w\<lparr>client_peer_map := (client_peer_map w)(to_base58 E p := None)\<rparr>)) (\<lambda>hash_option.
     case hash_option of
       None \<Rightarrow> Ret ()
     | Some hash \<Rightarrow> modify (\<lambda>w. w\<lparr>client_wn_map := (client_wn_map w)(hash := None)\<rparr>))"

definition handle_new_proxy :: "ext \<Rightarrow> request \<Rightarrow> peer_id \<Rightarrow> unit async" where
  "handle_new_proxy E request p =
     bind (unwrap (dec (c_new_proxy E) (rq_data request))) (\<lambda>new_proxy.
     bind (unwrap (from_whitenoise_to_hash E (np_white_noise_id new_proxy))) (\<lambda>hash.
     bind (gets (\<lambda>w. client_wn_map w hash)) (\<lambda>found.
     if found \<noteq> None
     then send_node_request (ack_to p (rq_req_id request) False (as_bytes ''Proxy already''))
     else
       bind (modify (\<lambda>w. w\<lparr>client_peer_map := (client_peer_map w)(to_base58 E p \<mapsto> hash)\<rparr>)) (\<lambda>_.
       bind (modify (\<lambda>w. w\<lparr>client_wn_map := (client_wn_map w)(hash \<mapsto>
               \<lparr>ci_whitenoise_id = np_white_noise_id new_proxy, ci_peer_id = p, ci_state = 1,
                ci_time_secs = 3600\<rparr>)\<rparr>)) (\<lambda>_.
       send_node_request (ack_to p (rq_req_id request) True []))))))"

definition handle_main_net_peers :: "ext \<Rightarrow> request \<Rightarrow> peer_id \<Rightarrow> unit async" where
  "handle_main_net_peers E request p =
     bind (unwrap (dec (c_main_net_peers E) (rq_data request))) (\<lambda>get_mainnets_request.
     bind (ask_main_nets (rq_req_id request) p (mnp_max get_mainnets_request)) (\<lambda>nodeinfos_res.
     case nodeinfos_res of
       Some infos \<Rightarrow>
         send_ack (ack_to p (rq_req_id request) True (enc (c_peers_list E) \<lparr>pl_peers = infos\<rparr>))
     | None \<Rightarrow> send_ack (ack_to p (rq_req_id request) False [])))"

definition handle_decrypt_gossip :: "ext \<Rightarrow> request \<Rightarrow> peer_id \<Rightarrow> unit async" where
  "handle_decrypt_gossip E request p =
     bind (unwrap (dec (c_decrypt E) (rq_data request))) (\<lambda>decrypt.
     bind (gets node_keypair) (\<lambda>keypair.
     bind (unwrap (case keypair of
                     KeyEd25519 _ \<Rightarrow> ecies_ed25519_decrypt E keypair (de_cypher decrypt)
                   | KeySecp256k1 _ \<Rightarrow> ecies_decrypt E keypair (de_cypher decrypt)
                   | KeyOther _ \<Rightarrow> None)) (\<lambda>decrypt_res.
     bind (unwrap decrypt_res) (\<lambda>plain_text.
     if dec (c_negotiate E) plain_text \<noteq> None
     then send_node_request (ack_to p (rq_req_id request) True plain_text)
     else Ret ()))))"

text \<open>The cypher text of \<open>NegPlainText\<close>; \<open>None\<close> where the code panics.\<close>

definition neg_cypher :: "ext \<Rightarrow> nat \<Rightarrow> bytes option \<Rightarrow> bytes \<Rightarrow> bytes option" where
  "neg_cypher E n task neg =
     (case task of
        None \<Rightarrow> None
      | Some pub_bytes \<Rightarrow>
          (case pub_bytes of
             [] \<Rightarrow> None
           | b # bs \<Rightarrow>
               if b = of_char (CHR ''0'') then ecies_ed25519_encrypt E n bs neg else ecies_encrypt E n bs neg))"

text \<open>
  All of it runs under the write lock of \<open>circuit_task\<close>: a panic poisons that lock.
\<close>

definition handle_neg_plaintext :: "ext \<Rightarrow> request \<Rightarrow> peer_id \<Rightarrow> unit async" where
  "handle_neg_plaintext E request p =
     bind (unwrap (dec (c_neg_plaintext E) (rq_data request))) (\<lambda>neg_plaintext.
     bind draw (\<lambda>n.
     let crypted = (\<lambda>w. if request_loop_alive w
                        then neg_cypher E n (circuit_task w (npl_session_id neg_plaintext)) (npl_neg neg_plaintext)
                        else None) in
     bind (under Lock_circuit_task crypted
            (\<lambda>w. case crypted w of
               None \<Rightarrow> poison Lock_circuit_task w
             | Some c \<Rightarrow> w\<lparr>node_request_sender := node_request_sender w @
                              [ack_to p (rq_req_id request) True c]\<rparr>)) (\<lambda>c.
     bind (unwrap c) (\<lambda>_. Ret ()))))"

definition handle_proxy_request :: "ext \<Rightarrow> request \<Rightarrow> peer_id \<Rightarrow> unit async" where
  "handle_proxy_request E request p =
     (let t = rq_reqtype request in
      if t = reqtype_i32 Reqtype_DecryptGossip then handle_decrypt_gossip E request p
      else if t = reqtype_i32 Reqtype_NegPlainText then handle_neg_plaintext E request p
      else if t = reqtype_i32 Reqtype_MainNetPeers then handle_main_net_peers E request p
      else if t = reqtype_i32 Reqtype_NewProxy then handle_new_proxy E request p
      else if t = reqtype_i32 Reqtype_UnRegisterType then remove_client E p
      else if t = reqtype_i32 Reqtype_NewCircuit
      then bind (handle_new_circuit E request p) (\<lambda>res.
           send_node_request (ack_to p (rq_req_id request) res []))
      else Ret ())"

definition process_proxy_request :: "ext \<Rightarrow> task option async" where
  "process_proxy_request E =
     bind recv_proxy (\<lambda>proxy_request_option.
     case proxy_request_option of
       None \<Rightarrow> Ret None
     | Some r \<Rightarrow>
         andthen (case npr_peer_operation r of
                    Some PeerOperation_Disconnect \<Rightarrow> remove_client E (npr_remote_peer_id r)
                  | None \<Rightarrow>
                      bind (unwrap (npr_proxy_request r)) (\<lambda>request.
                      handle_proxy_request E request (npr_remote_peer_id r)))
                 (Ret (Some T_process_proxy_request)))"

section \<open>Gossip\<close>

definition handle_publish :: "ext \<Rightarrow> encrypted_neg \<Rightarrow> client_info \<Rightarrow> unit async" where
  "handle_publish E encrypted_neg client_info =
     bind (gets (get_id E)) (\<lambda>me.
     let decrypt = \<lparr>de_destination = en_des encrypted_neg, de_cypher = en_cypher encrypted_neg\<rparr>;
         request = with_req_id E
           \<lparr>rq_req_id = '''', rq_from = me, rq_reqtype = reqtype_i32 Reqtype_DecryptGossip,
            rq_data = enc (c_decrypt E) decrypt\<rparr> in
     bind (external_send_node_request_and_wait (rq_req_id request)
             (to_proxy (ci_peer_id client_info) request)) (\<lambda>ack.
     if \<not> ack_result ack then Ret () else
     bind (unwrap (dec (c_negotiate E) (ack_data ack))) (\<lambda>negotiate.
     let sid = ng_session_id negotiate in
     bind (new_session_to_peer E (ci_peer_id client_info) sid
             (session_role_i32 AccessRole) (session_role_i32 AnswerRole)) (\<lambda>wraped_stream_opt.
     if wraped_stream_opt = None then handle_close_session sid else
     if ng_join negotiate = me
     then bind (read_session sid) (\<lambda>new_session_opt.
          case new_session_opt of
            None \<Rightarrow> Ret ()
          | Some s \<Rightarrow> send_relay_twoway s (new_relay_circuit_success E sid))
     else
     bind draw (\<lambda>n.
     bind (ask_main_nets ''123'' (peer_random E n) 100) (\<lambda>nodeinfos_res.
     case nodeinfos_res of
       None \<Rightarrow> Ret ()
     | Some nodeinfos \<Rightarrow>
         bind draw (\<lambda>m.
         bind (try_peers E nodeinfos (ng_join negotiate) (en_des encrypted_neg) sid
                 (session_role_i32 AccessRole) (session_role_i32 RelayRole) 3 [] (peer_random E m))
           (\<lambda>(joined, relay).
         if \<not> joined then handle_close_session sid else
         let session_expand = \<lparr>se_session_id = sid, se_peer_id = ng_join negotiate\<rparr>;
             command = \<lparr>cmd_command_id = '''', cmd_type = cmdtype_i32 Cmdtype_SessionExPend,
                        cmd_from = me, cmd_data = enc (c_session_expend E) session_expand\<rparr>;
             key = from_bytes_get_id E (enc (c_command E) command);
             command = command\<lparr>cmd_command_id := key\<rparr> in
         bind (external_send_node_request_and_wait key (NodeRequest_CmdRequest
                 \<lparr>ncr_remote_peer_id = relay, ncr_cmd_request = Some command\<rparr>)) (\<lambda>ack.
         if \<not> ack_result ack then handle_close_session sid else
         bind (read_session sid) (\<lambda>session_opt.
         case session_opt of
           None \<Rightarrow> Ret ()
         | Some session \<Rightarrow> send_relay_twoway session (new_relay_probe E sid)))))))))))"

definition process_publish_request :: "ext \<Rightarrow> task option async" where
  "process_publish_request E =
     bind recv_publish (\<lambda>gossipsub_message_opt.
     case gossipsub_message_opt of
       None \<Rightarrow> Ret None
     | Some data \<Rightarrow>
         bind (unwrap (dec (c_encrypted_neg E) data)) (\<lambda>encrypted_neg.
         bind (gets (\<lambda>w. client_wn_map w (en_des encrypted_neg) \<noteq> None)) (\<lambda>contains.
         if \<not> contains then Ret (Some T_process_publish_request) else
         bind (gets (\<lambda>w. client_wn_map w (en_des encrypted_neg))) (\<lambda>client_info.
         bind (unwrap client_info) (\<lambda>client_info.
         andthen (handle_publish E encrypted_neg client_info)
                 (Ret (Some T_process_publish_request)))))))"

end
