(* ===== verification/Node_Inv.thy ===== *)
theory Node_Inv
  imports Circuit_Handlers
begin

text \<open>
  The tables of a node under concurrency. The handlers share the session, circuit and probe tables
  and take their locks one at a time, so between two accesses any other task may have changed them.
  The locale \<open>tables\<close> states what the handlers rely on and promise: a property of the tables and of
  the queues of the streams that every insertion of a well-formed entry, every removal and every
  message of the right form keeps. Inside it, each handler is shown to keep the property at each of
  its atomic steps. Two instances are for the node: \<open>node_inv\<close>, that every table is keyed by the ids
  its entries carry and every session has its early stream, and \<open>wire_inv\<close>, that every message queued
  on a stream has a known type and data of that type.
\<close>

section \<open>Well-formed tasks\<close>

text \<open>
  A handshake is started on the connection of its session; what a task is to write has the form
  \<open>ok\<close>.
\<close>

fun wf_task :: "(relay \<Rightarrow> bool) \<Rightarrow> task \<Rightarrow> bool" where
  "wf_task ok (T_process_handshake cc i sid) = (cc_id cc = sid)"
| "wf_task ok (T_write_relay_arc st r) = ok r"
| "wf_task ok _ = True"

definition wf_next :: "(relay \<Rightarrow> bool) \<Rightarrow> task option \<Rightarrow> bool" where
  "wf_next ok r = (case r of None \<Rightarrow> True | Some t \<Rightarrow> wf_task ok t)"

lemma wf_next_simps [simp]: "wf_next ok None" "wf_next ok (Some t) = wf_task ok t"
  by (simp_all add: wf_next_def)

text \<open>An entry of a stream's queue: the end of the stream, or the encoding of such a message.\<close>

definition wf_data :: "ext \<Rightarrow> (relay \<Rightarrow> bool) \<Rightarrow> wraped_data \<Rightarrow> bool" where
  "wf_data E ok d \<longleftrightarrow> d = WrapedData_Close \<or> (\<exists>r. ok r \<and> d = WrapedData_Data (enc (c_relay E) r))"

definition same_tables :: "world \<Rightarrow> world \<Rightarrow> bool" where
  "same_tables w w' \<longleftrightarrow> session_map w' = session_map w \<and> circuit_map w' = circuit_map w \<and>
     probe_map w' = probe_map w \<and> spawned w' = spawned w"

text \<open>A step that stays clear of the tables and of the tasks, and queues nothing on a stream.\<close>

definition quiet :: "world \<Rightarrow> world \<Rightarrow> bool" where
  "quiet w w' \<longleftrightarrow> same_tables w w' \<and> (\<forall>i. set (out_chan w' i) \<subseteq> set (out_chan w i))"

lemmas quiet_defs = quiet_def same_tables_def

definition wf_opt :: "string \<Rightarrow> session option \<Rightarrow> bool" where
  "wf_opt sid o_s = (\<forall>s. o_s = Some s \<longrightarrow> wf_session sid s)"

section \<open>The contract of the tables\<close>

text \<open>
  Which messages a node may write: confusion and a new id do not matter, every message that the
  code builds is one, and so is every message that a handler has decoded before it forwards it.
\<close>

locale relay_form =
  fixes E :: ext
    and ok :: "relay \<Rightarrow> bool"
  assumes ok_same: "ok r \<Longrightarrow> relay_type r' = relay_type r \<Longrightarrow> relay_data r' = relay_data r \<Longrightarrow> ok r'"
    and ok_wake: "ok (relay_of Relaytype_Wake [])"
    and ok_set_session: "ok (relay_of Relaytype_SetSessionId (enc (c_set_session E) m1))"
    and ok_disconnect: "ok (relay_of Relaytype_Disconnect (enc (c_disconnect E) m2))"
    and ok_data: "ok (relay_of Relaytype_Data (enc (c_relay_msg E) m3))"
    and ok_success: "ok (relay_of Relaytype_Success (enc (c_success E) m4))"
    and ok_probe: "ok (relay_of Relaytype_Probe (enc (c_probe E) m5))"
    and ok_probe_read: "relay_type r = relaytype_i32 Relaytype_Probe \<Longrightarrow>
      dec (c_probe E) (relay_data r) = Some m5 \<Longrightarrow> ok r"
    and ok_success_read: "relay_type r = relaytype_i32 Relaytype_Success \<Longrightarrow>
      dec (c_success E) (relay_data r) = Some m4 \<Longrightarrow> ok r"
    and ok_data_read: "relay_type r = relaytype_i32 Relaytype_Data \<Longrightarrow>
      dec (c_relay_msg E) (relay_data r) = Some m3 \<Longrightarrow> ok r"

locale tables = relay_form +
  fixes I :: "world \<Rightarrow> bool"
  assumes frame: "I w \<Longrightarrow> quiet w w' \<Longrightarrow> I w'"
    and I_spawn: "I w \<Longrightarrow> wf_task ok t \<Longrightarrow> I (w\<lparr>spawned := spawned w @ [t]\<rparr>)"
    and I_push_out: "I w \<Longrightarrow> wf_data E ok d \<Longrightarrow> I (push_out st d w)"
    and I_put_session: "I w \<Longrightarrow> wf_session sid s \<Longrightarrow> I (put_session sid s w)"
    and I_del_session: "I w \<Longrightarrow> I (del_session sid w)"
    and I_put_circuit: "I w \<Longrightarrow> cc_id cc = sid \<Longrightarrow> I (put_circuit sid cc w)"
    and I_del_circuit: "I w \<Longrightarrow> I (del_circuit sid w)"
    and I_put_probe: "I w \<Longrightarrow> probe_session_id pr = sid \<Longrightarrow> I (put_probe sid pr w)"
    and I_del_probe: "I w \<Longrightarrow> I (del_probe sid w)"
    and I_session: "I w \<Longrightarrow> session_map w sid = Some s \<Longrightarrow> wf_session sid s"
    and I_circuit: "I w \<Longrightarrow> circuit_map w sid = Some cc \<Longrightarrow> cc_id cc = sid"
begin

lemma I_same:
  assumes "I w" and "session_map w' = session_map w" and "circuit_map w' = circuit_map w"
    and "probe_map w' = probe_map w" and "spawned w' = spawned w" and "out_chan w' = out_chan w"
  shows "I w'"
  using assms frame [of w w'] by (simp add: quiet_defs)

lemma I_frames:
  assumes "I w"
  shows "I (w\<lparr>conn_chan := f, next_handle := n\<rparr>)" "I (w\<lparr>client_peer_map := m\<rparr>)"
    "I (w\<lparr>client_wn_map := m'\<rparr>)" "I (w\<lparr>node_request_sender := q\<rparr>)"
  using assms by (auto elim: I_same)

subsection \<open>Primitives\<close>

lemma k_spawn: "wf_task ok t \<Longrightarrow> keeps I (\<lambda>_. True) (spawn t)"
  unfolding spawn_def by (auto intro!: steps_modify intro: I_spawn)

lemma k_gets: "keeps I (\<lambda>_. True) (gets f)"
  by (rule steps_gets) simp_all

lemma k_draw: "keeps I (\<lambda>_. True) draw"
  unfolding draw_def by (auto intro!: steps_atomic elim: I_same)

lemma k_send: "keeps I (\<lambda>_. True) (send_node_request r)"
  unfolding send_node_request_def by (auto intro!: steps_bind_atomic elim: I_same)

lemma k_oneshot_channel: "keeps I (\<lambda>_. True) oneshot_channel"
  unfolding oneshot_channel_def by (auto intro!: steps_atomic elim: I_same)

lemma k_oneshot_recv: "keeps I (\<lambda>_. True) (oneshot_recv h)"
  unfolding oneshot_recv_def by (auto intro!: steps_await)

lemma k_recv:
  "keeps I (\<lambda>_. True) (recv_ack h)"
  "keeps I (\<lambda>_. True) (recv_peers h)"
  "keeps I (\<lambda>_. True) (recv_bool h)"
  unfolding recv_ack_def recv_peers_def recv_bool_def
  by (auto intro!: k_oneshot_recv [THEN steps_bind])

lemma I_event_bus_put: "I w \<Longrightarrow> I (event_bus_put key h w)"
  by (rule I_same [of w])
    (auto simp: event_bus_put_def drop_sender_def Let_def split: option.splits)

lemma k_event_bus_insert: "keeps I (\<lambda>_. True) (event_bus_insert key h)"
  unfolding event_bus_insert_def by (auto intro!: steps_modify I_event_bus_put)

lemma k_ws_write: "ok r \<Longrightarrow> keeps I (\<lambda>_. True) (ws_write st (enc (c_relay E) r))"
  unfolding ws_write_def by (auto intro!: steps_modify I_push_out simp: wf_data_def)

lemma k_ws_close: "keeps I (\<lambda>_. True) (ws_close st)"
  unfolding ws_close_def by (auto intro!: steps_modify I_push_out simp: wf_data_def)

lemma k_ws_read: "keeps I (\<lambda>_. True) (ws_read st)"
  unfolding ws_read_def by (auto intro!: steps_await elim: I_same)

lemma k_conn_channel: "keeps I (\<lambda>_. True) conn_channel"
  unfolding conn_channel_def by (auto intro!: steps_atomic elim: I_same)

lemma k_conn_recv: "keeps I (\<lambda>_. True) (conn_recv c)"
  unfolding conn_recv_def by (auto intro!: steps_await elim: I_same)

lemma k_new_transport: "keeps I (\<lambda>_. True) (new_transport ns)"
  unfolding new_transport_def by (auto intro!: steps_atomic elim: I_same)

lemma k_with_transport: "keeps I (\<lambda>_. True) (with_transport h f)"
  unfolding with_transport_def
  by (auto intro!: steps_bind_atomic steps_unwrap elim: I_same)

lemma k_under:
  assumes "\<And>w. I w \<Longrightarrow> I (u w)" and "\<And>w. I w \<Longrightarrow> Q (f w)"
  shows "keeps I Q (under l f u)"
  unfolding under_def using assms
  by (auto intro!: steps_bind_atomic steps_unwrap split: if_splits)

lemma I_poison: "I w \<Longrightarrow> I (poison l w)"
  by (rule I_same [of w]) (auto simp: poison_def)

lemma k_read_session: "keeps I (wf_opt sid) (read_session sid)"
  unfolding read_session_def by (rule k_under) (auto simp: wf_opt_def dest: I_session)

lemma k_insert_session: "wf_session sid s \<Longrightarrow> keeps I (\<lambda>_. True) (insert_session sid s)"
  unfolding insert_session_def by (rule k_under) (auto intro: I_put_session)

lemmas k_prims = k_spawn k_gets k_draw k_send k_oneshot_channel k_recv k_event_bus_insert k_ws_write
  k_ws_close k_ws_read k_conn_channel k_conn_recv k_new_transport k_with_transport
  k_read_session k_insert_session

lemmas k_bind = k_prims [THEN steps_bind] steps_bind_unwrap

subsection \<open>Writers\<close>

lemma k_write_relay_arc: "ok r \<Longrightarrow> keeps I (\<lambda>_. True) (write_relay_arc E st r)"
  unfolding write_relay_arc_def confusion_relay_def jitter_def random_jitter_duration_def
  by (auto simp: Let_def bind_assoc intro!: k_bind steps_intro k_ws_write intro: ok_same [of r])

lemmas ok_made = ok_wake ok_set_session ok_disconnect ok_data ok_success ok_probe

lemma k_writers:
  "keeps I (\<lambda>_. True) (write_payload_arc E st buf n sid)"
  "keeps I (\<lambda>_. True) (write_handshake_payload_arc E st buf n sid)"
  "keeps I (\<lambda>_. True) (write_disconnect_arc E st sid)"
  "keeps I (\<lambda>_. True) (write_relay_wake_arc E st)"
  "keeps I (\<lambda>_. True) (write_set_session_with_role_arc E st sid role)"
  unfolding write_payload_arc_def write_handshake_payload_arc_def write_disconnect_arc_def
    write_relay_wake_arc_def write_set_session_with_role_arc_def
  by (auto simp: Let_def intro!: steps_andthen k_write_relay_arc steps_bind_unwrap ok_made)

lemma k_forward_relay: "ok r \<Longrightarrow> keeps I (\<lambda>_. True) (forward_relay E s i r)"
  unfolding forward_relay_def by (auto intro!: steps_bind_unwrap steps_andthen k_write_relay_arc)

lemma k_send_relay_twoway: "ok r \<Longrightarrow> keeps I (\<lambda>_. True) (send_relay_twoway s r)"
  unfolding send_relay_twoway_def by (auto intro!: steps_andthen k_spawn split: option.split)

lemma k_announce:
  "keeps I (\<lambda>_. True) (send_relay_twoway s (new_relay_circuit_success E sid))"
  "keeps I (\<lambda>_. True) (send_relay_twoway s (new_relay_probe E sid))"
  by (auto simp: new_relay_circuit_success_def new_relay_probe_def Let_def
      intro!: k_send_relay_twoway ok_made)

subsection \<open>Operations of the node\<close>

lemma k_close_stream_opt: "keeps I (\<lambda>_. True) (close_stream_opt o_st)"
  unfolding close_stream_opt_def by (auto intro!: k_ws_close split: option.split)

lemma k_take_session:
  "keeps I (\<lambda>_. True) (under Lock_session_map (\<lambda>w. session_map w sid) (del_session sid))"
  by (rule k_under) (auto intro: I_del_session)

lemma k_close: "keeps I (\<lambda>_. True) (handle_close_session sid)"
  unfolding handle_close_session_def
  by (auto intro!: k_take_session [THEN steps_bind] k_close_stream_opt steps_bind_any steps_modify
      intro: I_del_circuit I_del_probe split: option.split)

lemma k_and_wait: "keeps I (\<lambda>_. True) (external_send_node_request_and_wait key r)"
  unfolding external_send_node_request_and_wait_def by (auto intro!: k_bind steps_unwrap)

lemma k_pop: "keeps I (\<lambda>_. True) pop_out_stream"
  unfolding pop_out_stream_def by (auto intro!: steps_atomic elim: I_same)

lemma k_push: "keeps I (\<lambda>_. True) (push_out_stream st)"
  unfolding push_out_stream_def by (auto intro!: steps_modify elim: I_same)

lemma k_scan: "keeps I (\<lambda>_. True) (scan_out_streams p k)"
proof (induction k)
  case (Suc k)
  then show ?case
    by (auto intro!: k_pop [THEN steps_bind] k_push [THEN steps_bind] split: option.split)
qed simp

lemma k_wait_for_out: "keeps I (\<lambda>_. True) (wait_for_out p t)"
proof (induction p t rule: wait_for_out.induct)
  case (1 p t)
  show ?case
  proof (cases "t \<ge> 5000")
    case False
    then have "keeps I (\<lambda>_. True) (wait_for_out p (t + 50))" by (rule 1)
    with False show ?thesis
      by (subst wait_for_out.simps)
        (auto intro!: k_gets k_scan [THEN steps_bind] steps_bind_any steps_yield_now
          split: option.split)
  qed (simp add: wait_for_out.simps [of p t])
qed

lemma k_new_relay_stream: "keeps I (\<lambda>_. True) (new_relay_stream p)"
  unfolding new_relay_stream_def wait_for_out_peer_relay_stream_def
  by (auto intro!: k_bind k_wait_for_out)

lemma k_insert_later: "wf_opt sid s \<Longrightarrow> keeps I (\<lambda>_. True) (insert_later sid st s)"
  unfolding insert_later_def wf_opt_def
  by (rule steps_bind_any [OF k_under])
    (auto intro!: I_poison I_put_session steps_bind_unwrap split: option.split)

lemma k_new_session: "keeps I (\<lambda>_. True) (new_session_to_peer E p sid r1 r2)"
  unfolding new_session_to_peer_def
  by (auto intro!: k_new_relay_stream [THEN steps_bind] k_writers [THEN steps_bind] k_bind
      steps_bind_any [of I _ "if b then p else q" for b p q] k_insert_session k_insert_later
      split: option.split simp del: bind_Ret)

subsection \<open>Relay messages\<close>

lemma k_get_circuit:
  "keeps I (\<lambda>o_cc. \<forall>cc. o_cc = Some cc \<longrightarrow> cc_id cc = sid) (gets (\<lambda>w. circuit_map w sid))"
  by (auto intro!: steps_gets dest: I_circuit)

lemma I_conn_push: "I w \<Longrightarrow> I (conn_push c d w)"
  by (rule I_same [of w]) (auto simp: conn_push_def)

lemma I_later: "I w \<Longrightarrow> session_map w sid = Some s \<Longrightarrow> I (put_session sid (set_later st s) w)"
  by (simp add: I_put_session I_session)

lemma k_handshake: "cc_id cc = sid \<Longrightarrow> keeps I (\<lambda>_. True) (process_handshake E cc i sid)"
  unfolding process_handshake_def handshake_initiate_def handshake_respond_def
  by (auto simp: Let_def intro!: steps_bind_gets k_bind k_writers [THEN steps_bind] steps_modify
      intro: I_put_circuit)

lemma k_probe: "relay_type r = relaytype_i32 Relaytype_Probe \<Longrightarrow>
   keeps I (\<lambda>_. True) (handle_relay_probe E sid st r)"
  unfolding handle_relay_probe_def
  by (auto intro!: k_bind steps_bind_gets k_announce k_close k_forward_relay steps_modify
      I_put_probe split: option.split) (erule (1) ok_probe_read [simplified])

lemma k_success: "relay_type r = relaytype_i32 Relaytype_Success \<Longrightarrow>
   keeps I (\<lambda>_. True) (handle_success E r st)"
  unfolding handle_success_def
  by (auto simp: Let_def intro!: k_bind k_get_circuit [THEN steps_bind] k_spawn k_forward_relay
      elim: ok_success_read [simplified] split: option.split)

lemma k_relay_msg: "relay_type r = relaytype_i32 Relaytype_Data \<Longrightarrow>
   keeps I (\<lambda>_. True) (handle_relay_msg E r st)"
  unfolding handle_relay_msg_def
  by (auto simp: Let_def intro!: k_bind k_forward_relay steps_modify I_conn_push
      elim: ok_data_read [simplified] split: option.split)

lemma k_add_later:
  "keeps I (\<lambda>_. True) (under Lock_session_map (\<lambda>w. session_map w sid)
     (\<lambda>w. case session_map w sid of None \<Rightarrow> poison Lock_session_map w
           | Some s \<Rightarrow> put_session sid (set_later st s) w))"
  by (rule k_under) (auto intro: I_poison I_later split: option.split)

lemma k_set_session: "keeps I (\<lambda>_. True) (handle_set_session E msg st rid)"
  unfolding handle_set_session_def send_ack_def
  by (auto simp: Let_def wf_opt_def bind_assoc intro!: k_bind k_writers [THEN steps_bind] k_send k_close
      k_add_later [THEN steps_bind] steps_bind_any [of I _ "if b then p else q" for b p q]
      k_insert_session split: option.split)

lemma k_add_circuit: "keeps I (\<lambda>_. True) (add_circuit_conn sid st)"
  unfolding add_circuit_conn_def
  by (auto simp: Let_def intro!: steps_modify I_put_circuit I_frames split: option.split)

lemma k_relay_event_handler: "keeps I (wf_next ok) (relay_event_handler E st sid)"
  unfolding relay_event_handler_def read_from_negotiated_arc_def
  by (auto simp: Let_def bind_assoc intro!: k_bind steps_andthen k_probe k_close k_add_circuit
      k_set_session k_success k_relay_msg split: option.split sum.split)

subsection \<open>Circuits\<close>

lemma k_session_expend: "keeps I (\<lambda>_. True) (handle_session_expend E p r)"
  unfolding handle_session_expend_def send_ack_def
  by (auto simp: Let_def intro!: k_bind k_close [THEN steps_bind] k_new_session [THEN steps_bind]
      k_send k_announce split: option.split)

lemma k_chan_recv:
  assumes "\<And>w. I w \<Longrightarrow> I (u w)"
  shows "keeps I (\<lambda>_. True) (chan_recv c u)"
  unfolding chan_recv_def using assms by (auto intro!: steps_await)

lemma k_recv_chans:
  "keeps I (\<lambda>_. True) recv_cmd" "keeps I (\<lambda>_. True) recv_proxy" "keeps I (\<lambda>_. True) recv_publish"
  unfolding recv_cmd_def recv_proxy_def recv_publish_def by (auto intro!: k_chan_recv elim: I_same)

lemma k_process_cmd: "keeps I (wf_next ok) (process_cmd_request E)"
  unfolding process_cmd_request_def
  by (auto intro!: k_recv_chans [THEN steps_bind] k_bind steps_andthen k_session_expend
      split: option.split)

lemma k_bootstrap_peer: "keeps I (\<lambda>_. True) (bootstrap_peer E)"
  unfolding bootstrap_peer_def by (auto intro!: steps_bind_gets k_bind split: option.split)

lemma k_choose_peer: "keeps I (\<lambda>_. True) (choose_peer E infos ivd oth dst j ix jn)"
proof (induction j arbitrary: ix)
  case (Suc j)
  then show ?case
    by (auto simp: Let_def intro!: steps_bind_unwrap k_bootstrap_peer [THEN steps_bind]
        k_gets steps_bind_any steps_unwrap split: option.split)
qed simp

lemma k_try_peers: "keeps I (\<lambda>_. True) (try_peers E infos oth dst sid r1 r2 i ivd jn)"
proof (induction i arbitrary: ivd jn)
  case (Suc i)
  then show ?case
    by (auto intro!: k_bind k_choose_peer [THEN steps_bind] k_new_session [THEN steps_bind])
qed simp

lemma k_ask_main_nets: "keeps I (\<lambda>_. True) (ask_main_nets cid p n)"
  unfolding ask_main_nets_def by (auto intro!: k_bind k_recv)

lemmas k_circuit_bind = k_bind k_new_session [THEN steps_bind]
  k_ask_main_nets [THEN steps_bind] k_try_peers [THEN steps_bind] k_close [THEN steps_bind]
  k_and_wait [THEN steps_bind] k_announce [THEN steps_bind]

lemma k_new_circuit: "keeps I (\<lambda>_. True) (handle_new_circuit E r p)"
  unfolding handle_new_circuit_def
  by (auto simp: Let_def intro!: k_circuit_bind steps_bind_any k_gets k_announce
      split: option.split)

lemma k_proxy_parts:
  "keeps I (\<lambda>_. True) (remove_client E p)"
  "keeps I (\<lambda>_. True) (handle_new_proxy E r p)"
  "keeps I (\<lambda>_. True) (handle_main_net_peers E r p)"
  "keeps I (\<lambda>_. True) (handle_decrypt_gossip E r p)"
  unfolding remove_client_def handle_new_proxy_def handle_main_net_peers_def handle_decrypt_gossip_def
    send_ack_def
  by (auto intro!: steps_bind_atomic k_circuit_bind steps_modify steps_bind_any k_send
      steps_atomic I_frames split: option.split)

lemma k_neg_plaintext: "keeps I (\<lambda>_. True) (handle_neg_plaintext E r p)"
  unfolding handle_neg_plaintext_def
  by (auto simp: Let_def intro!: k_bind steps_bind_any k_under I_poison I_frames
      split: option.split)

lemma k_process_proxy: "keeps I (wf_next ok) (process_proxy_request E)"
  unfolding process_proxy_request_def handle_proxy_request_def
  by (auto simp: Let_def intro!: k_recv_chans [THEN steps_bind] k_bind steps_andthen k_proxy_parts
      k_neg_plaintext k_new_circuit [THEN steps_bind] k_send split: option.split peer_operation.split)

lemma k_publish: "keeps I (\<lambda>_. True) (handle_publish E en ci)"
  unfolding handle_publish_def
  by (auto simp: Let_def intro!: k_circuit_bind k_close k_announce split: option.split)

lemma k_process_publish: "keeps I (wf_next ok) (process_publish_request E)"
  unfolding process_publish_request_def
  by (auto intro!: k_recv_chans [THEN steps_bind] k_circuit_bind steps_andthen k_publish
      split: option.split)

subsection \<open>Calls of the client\<close>

lemma k_add_main_nets: "keeps I (\<lambda>_. True) (add_main_nets E ps)"
  by (induction ps) (auto intro!: k_bind steps_bind_any)

lemma k_get_main_nets: "keeps I (\<lambda>_. True) (get_main_nets E n p addr)"
  unfolding get_main_nets_def
  by (auto simp: Let_def intro!: k_bind k_and_wait [THEN steps_bind] k_add_main_nets [THEN steps_bind])

lemma k_set_proxy: "keeps I (\<lambda>_. True) (modify (\<lambda>w. w\<lparr>proxy_id := p\<rparr>))"
  by (auto intro!: steps_modify elim: I_same)

lemma k_register_proxy: "keeps I (\<lambda>_. True) (register_proxy E p)"
  unfolding register_proxy_def
  by (auto simp: Let_def intro!: k_bind k_and_wait [THEN steps_bind] k_set_proxy [THEN steps_bind])

lemma k_new_circuit_request: "keeps I (\<lambda>_. True) (new_circuit_request E a b c d p)"
  unfolding new_circuit_request_def
  by (auto simp: Let_def intro!: steps_bind_unwrap steps_andthen k_and_wait)

lemma k_set_task: "keeps I (\<lambda>_. True)
    (under Lock_circuit_task (\<lambda>_. ()) (\<lambda>w. w\<lparr>circuit_task := (circuit_task w)(sid \<mapsto> bs)\<rparr>))"
  by (rule k_under) (auto elim: I_same)

lemma k_put_circuit: "cc_id cc = sid \<Longrightarrow> keeps I (\<lambda>_. True) (modify (put_circuit sid cc))"
  by (auto intro!: steps_modify I_put_circuit)

lemma k_dial: "keeps I (\<lambda>_. True) (dial E wid)"
  unfolding dial_def
  by (auto simp: Let_def intro!: k_bind k_set_task [THEN steps_bind] k_new_session [THEN steps_bind]
      k_put_circuit [THEN steps_bind] k_new_circuit_request [THEN steps_bind])

lemma k_send_message: "keeps I (\<lambda>_. True) (send_message E sid m)"
  unfolding send_message_def circuit_conn_write_def
  by (auto intro!: k_bind k_writers split: option.split)

lemma k_circuit_conn_read: "keeps I (\<lambda>_. True) (circuit_conn_read E cc buf)"
  unfolding circuit_conn_read_def by (auto simp: Let_def intro!: k_bind split: option.split)

lemma k_wait_for_relay_stream: "keeps I (\<lambda>_. True) wait_for_relay_stream"
  unfolding wait_for_relay_stream_def by (auto intro!: steps_await elim: I_same)

end

section \<open>The invariants of the node\<close>

definition node_inv :: "world \<Rightarrow> bool" where
  "node_inv w \<longleftrightarrow>
     (\<forall>sid s. session_map w sid = Some s \<longrightarrow> wf_session sid s) \<and>
     (\<forall>sid cc. circuit_map w sid = Some cc \<longrightarrow> cc_id cc = sid) \<and>
     (\<forall>sid p. probe_map w sid = Some p \<longrightarrow> probe_session_id p = sid) \<and>
     (\<forall>t \<in> set (spawned w). wf_task (\<lambda>_. True) t)"

interpretation node: tables E "\<lambda>_. True" node_inv for E
  by unfold_locales (auto simp: node_inv_def quiet_defs map_update_defs push_out_def)

text \<open>
  A message of a known type with data of that type. \<open>carries c bs\<close>: the bytes were made by the
  encoder of \<open>c\<close> or are read by its decoder.
\<close>

definition carries :: "'m codec \<Rightarrow> bytes \<Rightarrow> bool" where
  "carries c bs \<longleftrightarrow> (\<exists>m. bs = enc c m \<or> dec c bs = Some m)"

definition typed_relay :: "ext \<Rightarrow> relay \<Rightarrow> bool" where
  "typed_relay E r \<longleftrightarrow>
     relay_type r = relaytype_i32 Relaytype_Wake \<or>
     relay_type r = relaytype_i32 Relaytype_SetSessionId \<and> carries (c_set_session E) (relay_data r) \<or>
     relay_type r = relaytype_i32 Relaytype_Disconnect \<and> carries (c_disconnect E) (relay_data r) \<or>
     relay_type r = relaytype_i32 Relaytype_Data \<and> carries (c_relay_msg E) (relay_data r) \<or>
     relay_type r = relaytype_i32 Relaytype_Success \<and> carries (c_success E) (relay_data r) \<or>
     relay_type r = relaytype_i32 Relaytype_Probe \<and> carries (c_probe E) (relay_data r)"

definition wire_inv :: "ext \<Rightarrow> world \<Rightarrow> bool" where
  "wire_inv E w \<longleftrightarrow> node_inv w \<and>
     (\<forall>i. \<forall>d \<in> set (out_chan w i). wf_data E (typed_relay E) d) \<and>
     (\<forall>t \<in> set (spawned w). wf_task (typed_relay E) t)"

interpretation typed: relay_form E "typed_relay E" for E
  by unfold_locales (auto simp: typed_relay_def carries_def relay_of_def)

lemma wf_task_any: "wf_task ok t \<Longrightarrow> wf_task (\<lambda>_. True) t"
  by (cases t) auto

lemma wire_inv_same:
  assumes "wire_inv E w" and "quiet w w'"
  shows "wire_inv E w'"
  using assms node.frame [of w w'] unfolding wire_inv_def quiet_defs by (metis subsetD)

interpretation wire: tables E "typed_relay E" "wire_inv E" for E
proof unfold_locales
  show "wire_inv E w \<Longrightarrow> quiet w w' \<Longrightarrow> wire_inv E w'" for w w'
    by (rule wire_inv_same)
qed (auto simp: wire_inv_def node_inv_def map_update_defs push_out_def intro: wf_task_any)

end
