(* ===== verification/Queues.thy ===== *)
theory Queues
  imports Prelude
begin

text \<open>
  \<open>std::collections::VecDeque\<close> as the code uses it: a list, pushed and popped at either end. Each
  queue of the program is filled at one end and emptied at the other. The locale \<open>fifo\<close> states that
  contract, in terms of what the queue holds in the order in which it will come out; it is interpreted
  for both directions.
\<close>

definition push_back :: "'a \<Rightarrow> 'a list \<Rightarrow> 'a list" where
  "push_back x q = q @ [x]"

definition push_front :: "'a \<Rightarrow> 'a list \<Rightarrow> 'a list" where
  "push_front x q = x # q"

definition pop_front :: "'a list \<Rightarrow> ('a \<times> 'a list) option" where
  "pop_front q = (case q of [] \<Rightarrow> None | x # r \<Rightarrow> Some (x, r))"

definition pop_back :: "'a list \<Rightarrow> ('a \<times> 'a list) option" where
  "pop_back q = (if q = [] then None else Some (last q, butlast q))"

locale fifo =
  fixes push :: "'a \<Rightarrow> 'q \<Rightarrow> 'q"
    and pop :: "'q \<Rightarrow> ('a \<times> 'q) option"
    and contents :: "'q \<Rightarrow> 'a list"
  assumes contents_push: "contents (push x q) = contents q @ [x]"
    and pop_None: "pop q = None \<longleftrightarrow> contents q = []"
    and pop_Some: "pop q = Some (x, q') \<Longrightarrow> contents q = x # contents q'"
begin

lemma pop_after_push: "contents q = [] \<Longrightarrow> \<exists>q'. pop (push x q) = Some (x, q') \<and> contents q' = []"
proof -
  assume e: "contents q = []"
  then obtain y q' where *: "pop (push x q) = Some (y, q')"
    using pop_None [of "push x q"] by (cases "pop (push x q)") (auto simp: contents_push)
  from pop_Some [OF *] e show ?thesis using * by (simp add: contents_push)
qed

end

interpretation back_front: fifo push_back pop_front "\<lambda>q. q"
  by unfold_locales (auto simp: push_back_def pop_front_def split: list.splits)

interpretation front_back: fifo push_front pop_back rev
proof unfold_locales
  fix q q' :: "'a list" and x
  assume "pop_back q = Some (x, q')"
  then have "q = q' @ [x]" by (auto simp: pop_back_def split: if_splits)
  then show "rev q = x # rev q'" by simp
qed (auto simp: push_front_def pop_back_def)

end
