(* ===== verification/Relay_Behaviour.thy ===== *)
theory Relay_Behaviour
  imports Node_State Queues "HOL-Library.Sublist"
begin

text \<open>
  \<open>network/protocols/relay_protocol.rs\<close> and \<open>network/protocols/relay_behaviour.rs\<close>: the connection
  handler and the network behaviour that hand relay substreams from \<open>libp2p\<close> to the node, and
  \<open>start_poll\<close>, the task that pumps one stream. A \<open>NegotiatedSubstream\<close> is known by a number, which
  is also the number of the stream made from it; what the code wrote to it and whether the code
  closed it are logged in \<open>relay_net\<close>, which also holds what the pump's pending \<open>read_one\<close> has taken
  off the substream (\<open>sub_got\<close>).
\<close>

section \<open>The handler of one connection\<close>

datatype handler_in_event = RelayHandlerInEvent_Dial peer_id

datatype handler_out_event =
    RelayHandlerOutEvent_RelayInbound nat
  | RelayHandlerOutEvent_RelayOutbound nat

datatype handler_event = Handler_Custom handler_out_event | Handler_OutboundSubstreamRequest

record relay_handler =
  rh_inbound :: "nat list"
  rh_outbound :: "nat list"
  rh_events :: "handler_in_event list"

text \<open>
  \<open>RelayProtocol\<close>: its name, and the upgrades, which hand the negotiated substream on as it is and
  cannot fail.
\<close>

definition relay_protocol_info :: "string list" where
  "relay_protocol_info = [''/relay'']"

definition upgrade_inbound :: "nat \<Rightarrow> nat" where "upgrade_inbound stream = stream"

definition upgrade_outbound :: "nat \<Rightarrow> nat" where "upgrade_outbound stream = stream"

definition relay_handler_new :: relay_handler where
  "relay_handler_new = \<lparr>rh_inbound = [], rh_outbound = [], rh_events = []\<rparr>"

definition inject_fully_negotiated_inbound :: "nat \<Rightarrow> relay_handler \<Rightarrow> relay_handler" where
  "inject_fully_negotiated_inbound s h = h\<lparr>rh_inbound := push_back s (rh_inbound h)\<rparr>"

definition inject_fully_negotiated_outbound :: "nat \<Rightarrow> relay_handler \<Rightarrow> relay_handler" where
  "inject_fully_negotiated_outbound s h = h\<lparr>rh_outbound := push_back s (rh_outbound h)\<rparr>"

definition handler_inject_event :: "handler_in_event \<Rightarrow> relay_handler \<Rightarrow> relay_handler" where
  "handler_inject_event x h = h\<lparr>rh_events := push_back x (rh_events h)\<rparr>"

text \<open>A substream that cannot be opened is logged; the connection is kept open in any case.\<close>

datatype keep_alive = KeepAlive_Yes

definition inject_dial_upgrade_error :: "relay_handler \<Rightarrow> relay_handler" where
  "inject_dial_upgrade_error h = h"

definition connection_keep_alive :: "relay_handler \<Rightarrow> keep_alive" where
  "connection_keep_alive h = KeepAlive_Yes"

text \<open>\<open>poll\<close>; \<open>None\<close> is \<open>Poll::Pending\<close>.\<close>

definition handler_poll :: "relay_handler \<Rightarrow> (handler_event \<times> relay_handler) option" where
  "handler_poll h =
     (case pop_front (rh_inbound h) of
        Some (s, q) \<Rightarrow>
          Some (Handler_Custom (RelayHandlerOutEvent_RelayInbound s), h\<lparr>rh_inbound := q\<rparr>)
      | None \<Rightarrow>
          (case pop_front (rh_outbound h) of
             Some (s, q) \<Rightarrow>
               Some (Handler_Custom (RelayHandlerOutEvent_RelayOutbound s), h\<lparr>rh_outbound := q\<rparr>)
           | None \<Rightarrow>
               (case pop_front (rh_events h) of
                  Some (_, q) \<Rightarrow> Some (Handler_OutboundSubstreamRequest, h\<lparr>rh_events := q\<rparr>)
                | None \<Rightarrow> None)))"

section \<open>The behaviour\<close>

datatype relay_event =
    RelayEvent_RelayInbound wrapped_stream
  | RelayEvent_RelayOutbound wrapped_stream
  | RelayEvent_Disconnect peer_id

datatype relay_action =
    Action_GenerateEvent relay_event
  | Action_NotifyHandler peer_id handler_in_event

record relay_behaviour =
  out_events :: "relay_event list"
  dive_events :: "handler_in_event list"
  rb_addresses :: "peer_id \<Rightarrow> string list option"

record relay_net = relay_behaviour +
  sub_written :: "nat \<Rightarrow> bytes list"
  sub_closed :: "nat \<Rightarrow> bool"
  sub_got :: "nat \<Rightarrow> bytes"
  polling :: "wrapped_stream list"

definition new_stream :: "peer_id \<Rightarrow> 'x relay_behaviour_scheme \<Rightarrow> 'x relay_behaviour_scheme" where
  "new_stream p rb = rb\<lparr>dive_events := push_back (RelayHandlerInEvent_Dial p) (dive_events rb)\<rparr>"

definition addresses_of_peer :: "'x relay_behaviour_scheme \<Rightarrow> peer_id \<Rightarrow> string list" where
  "addresses_of_peer rb p =
     (case rb_addresses rb p of
        None \<Rightarrow> []
      | Some exist_addresses \<Rightarrow> foldl (\<lambda>addresses x. push_back x addresses) [] exist_addresses)"

text \<open>Each connection gets a handler of its own; that a peer is connected is only logged.\<close>

definition new_handler :: "'x relay_behaviour_scheme \<Rightarrow> relay_handler" where
  "new_handler rb = relay_handler_new"

definition inject_connected :: "peer_id \<Rightarrow> 'x relay_behaviour_scheme \<Rightarrow> 'x relay_behaviour_scheme" where
  "inject_connected p rb = rb"

definition inject_disconnected :: "peer_id \<Rightarrow> 'x relay_behaviour_scheme \<Rightarrow> 'x relay_behaviour_scheme" where
  "inject_disconnected p rb = rb\<lparr>out_events := push_front (RelayEvent_Disconnect p) (out_events rb)\<rparr>"

text \<open>
  \<open>from_neg_to_wraped\<close>: new channels under the number of the substream, and a \<open>start_poll\<close> task.
\<close>

definition from_neg_to_wraped ::
  "ext \<Rightarrow> nat \<Rightarrow> peer_id \<Rightarrow> world \<times> 'x relay_net_scheme \<Rightarrow> wrapped_stream \<times> world \<times> 'x relay_net_scheme" where
  "from_neg_to_wraped E stream peer = (\<lambda>(w, n).
     let st = \<lparr>ws_stream = stream, ws_remote_peer_id = peer, ws_stream_id = uuid_v4 E (draws w)\<rparr> in
     (st, w\<lparr>draws := Suc (draws w), out_chan := (out_chan w)(stream := []),
            in_chan := (in_chan w)(stream := [])\<rparr>,
          n\<lparr>sub_got := (sub_got n)(stream := []), polling := polling n @ [st]\<rparr>))"

definition relay_inject_event ::
  "ext \<Rightarrow> peer_id \<Rightarrow> handler_out_event \<Rightarrow> world \<times> 'x relay_net_scheme \<Rightarrow> world \<times> 'x relay_net_scheme" where
  "relay_inject_event E peer result s =
     (case result of
        RelayHandlerOutEvent_RelayInbound x \<Rightarrow>
          (case from_neg_to_wraped E x peer s of (st, w, n) \<Rightarrow>
             (w, n\<lparr>out_events := push_front (RelayEvent_RelayInbound st) (out_events n)\<rparr>))
      | RelayHandlerOutEvent_RelayOutbound x \<Rightarrow>
          (case from_neg_to_wraped E x peer s of (st, w, n) \<Rightarrow>
             (w, n\<lparr>out_events := push_front (RelayEvent_RelayOutbound st) (out_events n)\<rparr>)))"

definition relay_poll ::
  "'x relay_behaviour_scheme \<Rightarrow> (relay_action \<times> 'x relay_behaviour_scheme) option" where
  "relay_poll rb =
     (case pop_back (out_events rb) of
        Some (e, q) \<Rightarrow> Some (Action_GenerateEvent e, rb\<lparr>out_events := q\<rparr>)
      | None \<Rightarrow>
          (case pop_front (dive_events rb) of
             Some (e, q) \<Rightarrow>
               (case e of RelayHandlerInEvent_Dial x \<Rightarrow>
                  Some (Action_NotifyHandler x (RelayHandlerInEvent_Dial x), rb\<lparr>dive_events := q\<rparr>))
           | None \<Rightarrow> None))"

section \<open>The pump of a stream\<close>

text \<open>
  What happens to \<open>start_poll\<close> while it waits in \<open>select!\<close>. The out-channel has an entry, and writing
  it to the substream succeeds or fails; or a byte comes in on the substream, which the pending
  \<open>read_one(stream, 4096)\<close> takes and which may complete its result; or the substream fails, or ends
  before a first byte, which \<open>read_one\<close> returns as an empty message. A branch that is taken ends the
  round: the future of the other branch is dropped, and with it the bytes that a pending \<open>read_one\<close>
  has taken; the next round calls \<open>read_one\<close> anew. The task holds a sender of its own out-channel, so
  that channel does not end. The result is \<open>None\<close> when the branch is not ready.
\<close>

datatype poll_event = Poll_next bool | Poll_byte byte | Poll_end "read_one_error option"

datatype loop_flow = Loop_continue | Loop_break | Loop_panic

definition READ_LIMIT :: nat where "READ_LIMIT = 4096"

definition push_in :: "wrapped_stream \<Rightarrow> read_result \<Rightarrow> world \<Rightarrow> world" where
  "push_in st r w = w\<lparr>in_chan := (in_chan w)(ws_stream st := in_chan w (ws_stream st) @ [r])\<rparr>"

text \<open>The arm of \<open>select!\<close> for the result of \<open>read_one\<close>.\<close>

definition read_arm ::
  "wrapped_stream \<Rightarrow> read_result \<Rightarrow> world \<times> 'x relay_net_scheme \<Rightarrow> loop_flow \<times> world \<times> 'x relay_net_scheme" where
  "read_arm st read_res = (\<lambda>(w, n).
     case read_res of
       Inl e \<Rightarrow> (Loop_break, push_in st (Inl e) w, n)
     | Inr bs \<Rightarrow>
         if bs = []
         then (Loop_break, push_in st (Inl (ReadOneError_Io ''stream read len zero'')) w, n)
         else (Loop_continue, w\<lparr>spawned := spawned w @ [T_send_in st (Inr bs)]\<rparr>, n))"

definition start_poll ::
  "ext \<Rightarrow> wrapped_stream \<Rightarrow> poll_event \<Rightarrow> world \<times> 'x relay_net_scheme \<Rightarrow>
     (loop_flow \<times> world \<times> 'x relay_net_scheme) option" where
  "start_poll E st ev = (\<lambda>(w, n).
     let i = ws_stream st;
         dropped = n\<lparr>sub_got := (sub_got n)(i := [])\<rparr> in
     case ev of
       Poll_next write_ok \<Rightarrow>
         (case out_chan w i of
            [] \<Rightarrow> None
          | d # q \<Rightarrow>
              (let w = w\<lparr>out_chan := (out_chan w)(i := q)\<rparr>; n = dropped in
               case d of
                 WrapedData_Close \<Rightarrow>
                   Some (Loop_break, push_in st (Inl (ReadOneError_Io ''active close stream'')) w,
                         n\<lparr>sub_closed := (sub_closed n)(i := True)\<rparr>)
               | WrapedData_Data x \<Rightarrow>
                   if write_ok
                   then Some (Loop_continue, w,
                          n\<lparr>sub_written := (sub_written n)(i := sub_written n i @ [x])\<rparr>)
                   else Some (Loop_panic, w, n)))
     | Poll_byte b \<Rightarrow>
         (let got = sub_got n i @ [b] in
          case read_step E READ_LIMIT got of
            None \<Rightarrow> Some (Loop_continue, w, n\<lparr>sub_got := (sub_got n)(i := got)\<rparr>)
          | Some read_res \<Rightarrow> Some (read_arm st read_res (w, dropped)))
     | Poll_end e \<Rightarrow>
         Some (read_arm st (end_result e) (w, dropped)))"

section \<open>Polling until pending\<close>

function handler_drain :: "relay_handler \<Rightarrow> handler_event list" where
  "handler_drain h =
     (case handler_poll h of None \<Rightarrow> [] | Some (e, h') \<Rightarrow> e # handler_drain h')"
  by pat_completeness auto
termination
  by (relation "measure (\<lambda>h. length (rh_inbound h) + length (rh_outbound h) + length (rh_events h))")
    (auto simp: handler_poll_def pop_front_def split: option.splits list.splits)

declare handler_drain.simps [simp del]

function relay_drain :: "relay_behaviour \<Rightarrow> relay_action list" where
  "relay_drain rb = (case relay_poll rb of None \<Rightarrow> [] | Some (a, rb') \<Rightarrow> a # relay_drain rb')"
  by pat_completeness auto
termination
  by (relation "measure (\<lambda>rb. length (out_events rb) + length (dive_events rb))")
    (auto simp: relay_poll_def pop_front_def pop_back_def
      split: option.splits list.splits if_splits handler_in_event.splits)

declare relay_drain.simps [simp del]

lemma handler_drain_events:
  "handler_drain \<lparr>rh_inbound = [], rh_outbound = [], rh_events = ev\<rparr> =
     replicate (length ev) Handler_OutboundSubstreamRequest"
  by (induction ev) (simp_all add: handler_drain.simps handler_poll_def pop_front_def)

lemma handler_drain_outbound:
  "handler_drain \<lparr>rh_inbound = [], rh_outbound = out, rh_events = ev\<rparr> =
     map (\<lambda>s. Handler_Custom (RelayHandlerOutEvent_RelayOutbound s)) out @
     replicate (length ev) Handler_OutboundSubstreamRequest"
proof (induction out)
  case (Cons s out)
  then show ?case by (subst handler_drain.simps) (simp add: handler_poll_def pop_front_def)
qed (simp add: handler_drain_events)

lemma handler_drain_all:
  "handler_drain \<lparr>rh_inbound = ins, rh_outbound = out, rh_events = ev\<rparr> =
     map (\<lambda>s. Handler_Custom (RelayHandlerOutEvent_RelayInbound s)) ins @
     map (\<lambda>s. Handler_Custom (RelayHandlerOutEvent_RelayOutbound s)) out @
     replicate (length ev) Handler_OutboundSubstreamRequest"
proof (induction ins)
  case (Cons s ins)
  then show ?case by (subst handler_drain.simps) (simp add: handler_poll_def pop_front_def)
qed (simp add: handler_drain_outbound)

fun notify_of :: "handler_in_event \<Rightarrow> relay_action" where
  "notify_of (RelayHandlerInEvent_Dial p) = Action_NotifyHandler p (RelayHandlerInEvent_Dial p)"

lemma relay_drain_dive:
  "relay_drain \<lparr>out_events = [], dive_events = dive, rb_addresses = ad\<rparr> = map notify_of dive"
proof (induction dive)
  case (Cons e dive)
  then show ?case
    by (cases e) (subst relay_drain.simps, simp add: relay_poll_def pop_front_def pop_back_def)
qed (simp add: relay_drain.simps relay_poll_def pop_front_def pop_back_def)

lemma relay_drain_all:
  "relay_drain \<lparr>out_events = out, dive_events = dive, rb_addresses = ad\<rparr> =
     map Action_GenerateEvent (rev out) @ map notify_of dive"
proof (induction out rule: rev_induct)
  case (snoc e out)
  then show ?case by (subst relay_drain.simps) (simp add: relay_poll_def pop_back_def)
qed (simp add: relay_drain_dive)

section \<open>Sequences of operations\<close>

datatype relay_op =
    Op_poll
  | Op_new_stream peer_id
  | Op_inject peer_id handler_out_event
  | Op_disconnected peer_id

fun relay_apply ::
  "ext \<Rightarrow> relay_op \<Rightarrow> world \<times> 'x relay_net_scheme \<Rightarrow> relay_action list \<times> world \<times> 'x relay_net_scheme" where
  "relay_apply E Op_poll (w, n) =
     (case relay_poll n of None \<Rightarrow> ([], w, n) | Some (a, n') \<Rightarrow> ([a], w, n'))"
| "relay_apply E (Op_new_stream p) (w, n) = ([], w, new_stream p n)"
| "relay_apply E (Op_inject p e) s = ([], relay_inject_event E p e s)"
| "relay_apply E (Op_disconnected p) (w, n) = ([], w, inject_disconnected p n)"

text \<open>The actions that a sequence of operations returns, and the state it leaves.\<close>

fun relay_run ::
  "ext \<Rightarrow> relay_op list \<Rightarrow> world \<times> 'x relay_net_scheme \<Rightarrow> relay_action list \<times> world \<times> 'x relay_net_scheme" where
  "relay_run E [] s = ([], s)"
| "relay_run E (op # ops) s =
     (case relay_apply E op s of (as, s') \<Rightarrow> (case relay_run E ops s' of (bs, s'') \<Rightarrow> (as @ bs, s'')))"

text \<open>
  What was put in: the events, where a substream becomes a stream with a new id, \<open>k\<close> being the
  number of random draws so far; and the dials.
\<close>

fun raised :: "ext \<Rightarrow> nat \<Rightarrow> relay_op list \<Rightarrow> relay_event list" where
  "raised E k [] = []"
| "raised E k (Op_inject p (RelayHandlerOutEvent_RelayInbound x) # ops) =
     RelayEvent_RelayInbound \<lparr>ws_stream = x, ws_remote_peer_id = p, ws_stream_id = uuid_v4 E k\<rparr> #
     raised E (Suc k) ops"
| "raised E k (Op_inject p (RelayHandlerOutEvent_RelayOutbound x) # ops) =
     RelayEvent_RelayOutbound \<lparr>ws_stream = x, ws_remote_peer_id = p, ws_stream_id = uuid_v4 E k\<rparr> #
     raised E (Suc k) ops"
| "raised E k (Op_disconnected p # ops) = RelayEvent_Disconnect p # raised E k ops"
| "raised E k (_ # ops) = raised E k ops"

fun dialed :: "relay_op list \<Rightarrow> handler_in_event list" where
  "dialed [] = []"
| "dialed (Op_new_stream p # ops) = RelayHandlerInEvent_Dial p # dialed ops"
| "dialed (_ # ops) = dialed ops"

text \<open>What came out.\<close>

fun generated :: "relay_action list \<Rightarrow> relay_event list" where
  "generated [] = []"
| "generated (Action_GenerateEvent e # as) = e # generated as"
| "generated (Action_NotifyHandler _ _ # as) = generated as"

fun notified :: "relay_action list \<Rightarrow> relay_action list" where
  "notified [] = []"
| "notified (Action_GenerateEvent e # as) = notified as"
| "notified (Action_NotifyHandler p e # as) = Action_NotifyHandler p e # notified as"

lemma out_in_append [simp]:
  "generated (as @ bs) = generated as @ generated bs" "notified (as @ bs) = notified as @ notified bs"
  by (induction as rule: generated.induct) simp_all

lemma relay_poll_cases:
  "relay_poll n = (if out_events n = []
     then (case dive_events n of
             [] \<Rightarrow> None
           | e # q \<Rightarrow> Some (notify_of e, n\<lparr>dive_events := q\<rparr>))
     else Some (Action_GenerateEvent (last (out_events n)), n\<lparr>out_events := butlast (out_events n)\<rparr>))"
proof -
  have "(case e of RelayHandlerInEvent_Dial x \<Rightarrow>
      Some (Action_NotifyHandler x (RelayHandlerInEvent_Dial x), n\<lparr>dive_events := q\<rparr>)) =
      Some (notify_of e, n\<lparr>dive_events := q\<rparr>)" for e q by (cases e) simp
  then show ?thesis
    by (simp add: relay_poll_def pop_back_def pop_front_def split: list.split)
qed

lemma relay_apply_fifo:
  assumes "relay_apply E op (w, n) = (as, w', n')"
  shows "generated as @ rev (out_events n') = rev (out_events n) @ raised E (draws w) [op] \<and>
    notified as @ map notify_of (dive_events n') = map notify_of (dive_events n) @ map notify_of (dialed [op]) \<and>
    (\<forall>ops. raised E (draws w) (op # ops) = raised E (draws w) [op] @ raised E (draws w') ops)"
proof (cases op)
  case Op_poll
  have "notified [notify_of e] = [notify_of e]" "generated [notify_of e] = []" for e by (cases e; simp)+
  moreover have "last xs # rev (butlast xs) = rev xs" if "xs \<noteq> []" for xs :: "relay_event list"
    using that by (induction xs rule: rev_induct) simp_all
  ultimately show ?thesis
    using Op_poll assms by (auto simp: relay_poll_cases split: if_splits list.splits)
next
  case (Op_inject p e)
  with assms show ?thesis
    by (cases e) (auto simp: relay_inject_event_def from_neg_to_wraped_def Let_def front_back.contents_push)
qed (use assms in \<open>auto simp: new_stream_def inject_disconnected_def push_back_def front_back.contents_push\<close>)

lemma relay_run_fifo:
  assumes "relay_run E ops (w, n) = (as, w', n')"
  shows "generated as @ rev (out_events n') = rev (out_events n) @ raised E (draws w) ops \<and>
    notified as @ map notify_of (dive_events n') = map notify_of (dive_events n @ dialed ops)"
  using assms
proof (induction ops arbitrary: w n as)
  case (Cons op ops)
  obtain as1 w1 n1 where 1: "relay_apply E op (w, n) = (as1, w1, n1)" by (metis prod_cases3)
  obtain as2 where 2: "relay_run E ops (w1, n1) = (as2, w', n')" "as = as1 @ as2"
    using Cons.prems 1 by (auto split: prod.splits)
  have "map notify_of (dialed (op # ops)) = map notify_of (dialed [op]) @ map notify_of (dialed ops)"
    by (cases op) simp_all
  with relay_apply_fifo [OF 1] Cons.IH [OF 2(1)] 2(2) show ?case by (metis append.assoc map_append out_in_append)
qed simp

lemma addresses_of_peer_eq: "addresses_of_peer rb p = (case rb_addresses rb p of None \<Rightarrow> [] | Some xs \<Rightarrow> xs)"
proof -
  have "foldl (\<lambda>addresses x. push_back x addresses) acc xs = acc @ xs" for acc xs :: "string list"
    by (induction xs arbitrary: acc) (simp_all add: push_back_def)
  then show ?thesis by (simp add: addresses_of_peer_def split: option.split)
qed

section \<open>What the pump writes\<close>

text \<open>The data queued before the first \<open>Close\<close>.\<close>

fun queued :: "wraped_data list \<Rightarrow> bytes list" where
  "queued (WrapedData_Data x # q) = x # queued q"
| "queued _ = []"

text \<open>
  What happens to one stream: some task queues an entry, or something happens to its pump. The pump
  stops at the first break or panic; a branch that is not ready is skipped.
\<close>

datatype traffic = Tr_queue wraped_data | Tr_round poll_event

fun pump_run ::
  "ext \<Rightarrow> wrapped_stream \<Rightarrow> traffic list \<Rightarrow> bool \<times> world \<times> 'x relay_net_scheme \<Rightarrow> bool \<times> world \<times> 'x relay_net_scheme" where
  "pump_run E st [] c = c"
| "pump_run E st (Tr_queue d # ts) (alive, w, n) = pump_run E st ts (alive, push_out st d w, n)"
| "pump_run E st (Tr_round ev # ts) (alive, w, n) =
     (if \<not> alive then pump_run E st ts (alive, w, n)
      else case start_poll E st ev (w, n) of
             None \<Rightarrow> pump_run E st ts (alive, w, n)
           | Some (flow, w', n') \<Rightarrow> pump_run E st ts (flow = Loop_continue, w', n'))"

fun queued_by :: "traffic list \<Rightarrow> wraped_data list" where
  "queued_by [] = []"
| "queued_by (Tr_queue d # ts) = d # queued_by ts"
| "queued_by (Tr_round ev # ts) = queued_by ts"

lemma queued_append_prefix: "prefix (queued a) (queued (a @ b))"
  by (induction a rule: queued.induct) auto

lemma pump_run_dead:
  "pump_run E st ts (False, w, n) = (alive, w', n') \<Longrightarrow> sub_written n' = sub_written n \<and> \<not> alive"
proof (induction ts arbitrary: w)
  case (Cons t ts)
  then show ?case by (cases t) auto
qed simp

lemma start_poll_written:
  assumes "start_poll E st ev (w, n) = Some (flow, w', n')"
  shows "flow = Loop_continue \<and>
      (\<exists>ys. sub_written n' (ws_stream st) = sub_written n (ws_stream st) @ ys \<and>
         (\<forall>q. queued (out_chan w (ws_stream st) @ q) = ys @ queued (out_chan w' (ws_stream st) @ q)))
    \<or> flow \<noteq> Loop_continue \<and> sub_written n' = sub_written n"
  using assms
  by (auto simp: start_poll_def read_arm_def Let_def push_in_def
      split: poll_event.splits list.splits wraped_data.splits if_splits sum.splits option.splits)

lemma pump_run_written:
  assumes "pump_run E st ts (True, w, n) = (alive, w', n')"
  shows "\<exists>xs. sub_written n' (ws_stream st) = sub_written n (ws_stream st) @ xs \<and>
    prefix xs (queued (out_chan w (ws_stream st) @ queued_by ts)) \<and>
    (alive \<longrightarrow> xs @ queued (out_chan w' (ws_stream st)) = queued (out_chan w (ws_stream st) @ queued_by ts))"
  using assms
proof (induction ts arbitrary: w n)
  case (Cons t ts)
  show ?case
  proof (cases t)
    case (Tr_queue d)
    with Cons.prems have "pump_run E st ts (True, push_out st d w, n) = (alive, w', n')" by simp
    from Cons.IH [OF this] Tr_queue show ?thesis by (simp add: push_out_def)
  next
    case (Tr_round ev)
    show ?thesis
    proof (cases "start_poll E st ev (w, n)")
      case None
      with Cons.prems Tr_round show ?thesis using Cons.IH [of w n] by simp
    next
      case (Some r)
      obtain flow w1 n1 where r: "r = (flow, w1, n1)" by (cases r)
      from start_poll_written [OF Some [unfolded r]] show ?thesis
      proof (elim disjE conjE exE)
        fix ys assume "flow = Loop_continue"
          and ys: "sub_written n1 (ws_stream st) = sub_written n (ws_stream st) @ ys"
            "\<forall>q. queued (out_chan w (ws_stream st) @ q) = ys @ queued (out_chan w1 (ws_stream st) @ q)"
        with Cons.prems Tr_round Some r have "pump_run E st ts (True, w1, n1) = (alive, w', n')" by simp
        from Cons.IH [OF this] ys Tr_round show ?thesis by fastforce
      next
        assume "flow \<noteq> Loop_continue" and *: "sub_written n1 = sub_written n"
        with Cons.prems Tr_round Some r have "pump_run E st ts (False, w1, n1) = (alive, w', n')" by simp
        from pump_run_dead [OF this] * show ?thesis by simp
      qed
    qed
  qed
qed simp

section \<open>What the pump reads\<close>

text \<open>Bytes that come in one after the other, until a round breaks the loop.\<close>

fun feed ::
  "ext \<Rightarrow> wrapped_stream \<Rightarrow> bytes \<Rightarrow> world \<times> 'x relay_net_scheme \<Rightarrow>
     (loop_flow \<times> world \<times> 'x relay_net_scheme) option" where
  "feed E st [] s = Some (Loop_continue, s)"
| "feed E st (b # bs) s =
     (case start_poll E st (Poll_byte b) s of
        None \<Rightarrow> None
      | Some (flow, s') \<Rightarrow> if flow = Loop_continue then feed E st bs s' else Some (flow, s'))"

definition put_got :: "wrapped_stream \<Rightarrow> bytes \<Rightarrow> 'x relay_net_scheme \<Rightarrow> 'x relay_net_scheme" where
  "put_got st bs n = n\<lparr>sub_got := (sub_got n)(ws_stream st := bs)\<rparr>"

lemma put_got_simps [simp]:
  "sub_got (put_got st bs n) (ws_stream st) = bs" "put_got st bs (put_got st cs n) = put_got st bs n"
  "sub_written (put_got st bs n) = sub_written n" "polling (put_got st bs n) = polling n"
  "ws_stream st' \<noteq> ws_stream st \<Longrightarrow> sub_got (put_got st bs n) (ws_stream st') = sub_got n (ws_stream st')"
  by (simp_all add: put_got_def)

lemma put_got_same: "sub_got n (ws_stream st) = bs \<Longrightarrow> put_got st bs n = n"
  by (auto simp: put_got_def)

lemma poll_byte:
  "start_poll E st (Poll_byte b) (w, n) =
     (case read_step E READ_LIMIT (sub_got n (ws_stream st) @ [b]) of
        None \<Rightarrow> Some (Loop_continue, w, put_got st (sub_got n (ws_stream st) @ [b]) n)
      | Some read_res \<Rightarrow> Some (read_arm st read_res (w, put_got st [] n)))"
  by (simp add: start_poll_def put_got_def Let_def split: option.split)

lemma poll_next:
  "start_poll E st (Poll_next True) (w, n) = Some (Loop_continue, w', n') \<longleftrightarrow>
     (\<exists>x q. out_chan w (ws_stream st) = WrapedData_Data x # q \<and>
        w' = w\<lparr>out_chan := (out_chan w)(ws_stream st := q)\<rparr> \<and>
        n' = (put_got st [] n)\<lparr>sub_written := (sub_written n)(ws_stream st := sub_written n (ws_stream st) @ [x])\<rparr>)"
  by (auto simp: start_poll_def put_got_def Let_def split: list.splits wraped_data.splits)

lemma feed_waits:
  assumes "\<And>q. prefix q p \<Longrightarrow> q \<noteq> [] \<Longrightarrow> read_step E READ_LIMIT (sub_got n (ws_stream st) @ q) = None"
  shows "feed E st (p @ rest) (w, n) = feed E st rest (w, put_got st (sub_got n (ws_stream st) @ p) n)"
  using assms
proof (induction p arbitrary: n)
  case Nil
  then show ?case by (simp add: put_got_same)
next
  case (Cons b p)
  let ?n = "put_got st (sub_got n (ws_stream st) @ [b]) n"
  have "read_step E READ_LIMIT (sub_got ?n (ws_stream st) @ q) = None" if "prefix q p" "q \<noteq> []" for q
    using Cons.prems [of "b # q"] that by simp
  moreover have "start_poll E st (Poll_byte b) (w, n) = Some (Loop_continue, w, ?n)"
    using Cons.prems [of "[b]"] by (simp add: poll_byte)
  ultimately show ?case using Cons.IH [of ?n] by simp
qed

text \<open>The last byte of a message, or of the header of one that is too long, ends the round.\<close>

lemma feed_result:
  assumes "sub_got n (ws_stream st) = []" and "p \<noteq> []" and "read_step E READ_LIMIT p = Some r"
    and "\<And>q. strict_prefix q p \<Longrightarrow> read_step E READ_LIMIT q = None"
  shows "feed E st (p @ rest) (w, n) =
    (case read_arm st r (w, n) of (flow, s) \<Rightarrow>
       if flow = Loop_continue then feed E st rest s else Some (flow, s))"
proof -
  obtain a b where p: "p = a @ [b]" using assms(2) by (metis rev_exhaust)
  have a: "read_step E READ_LIMIT (sub_got n (ws_stream st) @ q) = None" if "prefix q a" "q \<noteq> []" for q
  proof -
    have "strict_prefix q p"
      unfolding p by (rule prefix_order.le_less_trans [OF that(1)]) (simp add: strict_prefix_def)
    with assms(1,4) show ?thesis by simp
  qed
  have "feed E st (p @ rest) (w, n) = feed E st (b # rest) (w, put_got st a n)"
    using feed_waits [of a E n st "b # rest" w] a assms(1) by (simp add: p)
  also have "start_poll E st (Poll_byte b) (w, put_got st a n) = Some (read_arm st r (w, n))"
    using assms(1,3) by (simp add: poll_byte p put_got_same)
  ultimately show ?thesis by (simp add: case_prod_unfold)
qed

lemma feed_message:
  assumes "read_one_ok E" and "sub_got n (ws_stream st) = []" and "m \<noteq> []" and "length m \<le> READ_LIMIT"
  shows "feed E st (len_prefixed E m @ rest) (w, n) =
    feed E st rest (w\<lparr>spawned := spawned w @ [T_send_in st (Inr m)]\<rparr>, n)"
  using feed_result [OF assms(2) len_prefixed_not_Nil [OF assms(1)] read_one_okD(2) [OF assms(1,4)]
      read_one_okD(3) [OF assms(1,4)], of rest w] assms(3)
  by (simp add: read_arm_def)

lemma feed_long:
  assumes "read_one_ok E" and "sub_got n (ws_stream st) = []" and "READ_LIMIT < length m"
  shows "feed E st (len_prefixed E m @ rest) (w, n) =
    Some (Loop_break, push_in st (Inl (ReadOneError_TooLarge (length m) READ_LIMIT)) w, n)"
proof -
  obtain p q where p: "len_prefixed E m = p @ q"
    "read_step E READ_LIMIT p = Some (Inl (ReadOneError_TooLarge (length m) READ_LIMIT))"
    "\<And>q. strict_prefix q p \<Longrightarrow> read_step E READ_LIMIT q = None"
    using read_too_large [OF assms(1,3)] by blast
  then have "p \<noteq> []" using read_one_okD(1) [OF assms(1)] by force
  then show ?thesis
    using feed_result [OF assms(2) _ p(2,3), of "q @ rest" w] by (simp add: p(1) read_arm_def)
qed

lemma feed_empty:
  assumes "read_one_ok E" and "sub_got n (ws_stream st) = []"
  shows "feed E st (len_prefixed E []) (w, n) =
    Some (Loop_break, push_in st (Inl (ReadOneError_Io ''stream read len zero'')) w, n)"
proof -
  have l: "length ([] :: bytes) \<le> READ_LIMIT" by simp
  show ?thesis
    using feed_result [OF assms(2) len_prefixed_not_Nil [OF assms(1)] read_one_okD(2) [OF assms(1) l]
        read_one_okD(3) [OF assms(1) l], of "[]" w]
    by (simp add: read_arm_def)
qed

lemma feed_part:
  assumes "read_one_ok E" and "sub_got n (ws_stream st) = []" and "length m \<le> READ_LIMIT"
    and "strict_prefix p (len_prefixed E m)"
  shows "feed E st p (w, n) = Some (Loop_continue, w, put_got st p n)"
proof -
  have "read_step E READ_LIMIT (sub_got n (ws_stream st) @ q) = None" if "prefix q p" for q
    using assms that read_one_okD(3) [OF assms(1,3)] by (simp add: prefix_order.le_less_trans)
  then show ?thesis using feed_waits [of p E n st "[]" w] assms(2) by simp
qed

end
