(* ===== verification/Behaviour.thy ===== *)
theory Behaviour
  imports Relay_Behaviour Node_Ops
begin

text \<open>
  \<open>network/whitenoise_behaviour.rs\<close>: what the swarm hands to the node (streams, requests,
  acknowledgements, gossip) and the event loops that carry out the node's requests. Calls into
  \<open>libp2p\<close> are logged in the record \<open>swarm\<close> in the order in which they are made; the routing table
  of Kademlia is read from there. A panic is \<open>None\<close>.
\<close>

section \<open>The swarm\<close>

datatype run_mode = RunMode_Client | RunMode_Server

record kad_entry =
  ke_peer :: peer_id
  ke_addresses :: "string list"
  ke_connected :: bool

text \<open>The gossip behaviour as the program configures it.\<close>

datatype validation_mode = ValidationMode_Permissive

datatype message_authenticity = MessageAuthenticity_Anonymous

record gossipsub =
  gs_heartbeat_secs :: nat
  gs_validation_mode :: validation_mode
  gs_authenticity :: message_authenticity
  gs_message_id :: "bytes \<Rightarrow> string"
  gs_topics :: "string list"

record swarm = relay_net +
  proxy_sent :: "(peer_id \<times> request) list"
  cmd_sent :: "(peer_id \<times> command) list"
  ack_sent :: "(peer_id \<times> ack) list"
  proxy_add_address :: "(peer_id \<times> string) list"
  ack_add_address :: "(peer_id \<times> string) list"
  kad_add_address :: "(peer_id \<times> string) list"
  kbuckets :: "kad_entry list list"
  kad_closest :: "peer_id list"
  gossip_sub :: gossipsub
  gossip_published :: "bytes list"

section \<open>Events of WhitenoiseBehaviour\<close>

datatype 'r rr_message = RequestResponseMessage_Request 'r | RequestResponseMessage_Response

datatype 'r rr_event =
    RequestResponseEvent_InboundFailure
  | RequestResponseEvent_OutboundFailure
  | RequestResponseEvent_Message peer_id "'r rr_message"
  | RequestResponseEvent_ResponseSent

text \<open>\<open>proxy_request_channel.unbounded_send(..).unwrap()\<close>: a panic once the loop behind it is gone.\<close>

definition push_proxy_request :: "node_proxy_request \<Rightarrow> world \<Rightarrow> world option" where
  "push_proxy_request r w =
     (if proxy_loop_alive w
      then Some (w\<lparr>proxy_request_channel := proxy_request_channel w @ [r]\<rparr>) else None)"

definition push_cmd_request :: "node_cmd_request \<Rightarrow> world \<Rightarrow> world option" where
  "push_cmd_request r w =
     (if cmd_loop_alive w
      then Some (w\<lparr>cmd_request_channel := cmd_request_channel w @ [r]\<rparr>) else None)"

definition inject_relay_event :: "relay_event \<Rightarrow> world \<Rightarrow> world option" where
  "inject_relay_event message w =
     (case message of
        RelayEvent_RelayInbound x \<Rightarrow>
          Some (w\<lparr>relay_in_streams := push_back x (relay_in_streams w)\<rparr>)
      | RelayEvent_RelayOutbound x \<Rightarrow>
          Some (w\<lparr>relay_out_streams := push_back x (relay_out_streams w)\<rparr>)
      | RelayEvent_Disconnect peer_id \<Rightarrow>
          push_proxy_request \<lparr>npr_remote_peer_id = peer_id, npr_proxy_request = None,
            npr_peer_operation = Some PeerOperation_Disconnect\<rparr> w)"

definition inject_proxy_event :: "request rr_event \<Rightarrow> world \<Rightarrow> world option" where
  "inject_proxy_event message w =
     (case message of
        RequestResponseEvent_Message peer (RequestResponseMessage_Request request) \<Rightarrow>
          push_proxy_request \<lparr>npr_remote_peer_id = peer, npr_proxy_request = Some request,
            npr_peer_operation = None\<rparr> w
      | _ \<Rightarrow> Some w)"

definition inject_cmd_event :: "command rr_event \<Rightarrow> world \<Rightarrow> world option" where
  "inject_cmd_event message w =
     (case message of
        RequestResponseEvent_Message peer (RequestResponseMessage_Request request) \<Rightarrow>
          push_cmd_request \<lparr>ncr_remote_peer_id = peer, ncr_cmd_request = Some request\<rparr> w
      | _ \<Rightarrow> Some w)"

text \<open>
  \<open>sender.send(..).unwrap()\<close> on a oneshot channel. Whoever holds a receiver of one awaits it at
  once, so it exists as long as the event loop does.
\<close>

definition oneshot_send :: "nat \<Rightarrow> oneshot_msg \<Rightarrow> world \<Rightarrow> world" where
  "oneshot_send h m w = w\<lparr>oneshots := (oneshots w)(h := Oneshot_Sent m)\<rparr>"

definition inject_ack_event :: "ack rr_event \<Rightarrow> world \<Rightarrow> world option" where
  "inject_ack_event message w =
     (case message of
        RequestResponseEvent_Message _ (RequestResponseMessage_Request data) \<Rightarrow>
          (let sender_option = event_bus w (ack_command_id data);
               w = w\<lparr>event_bus := (event_bus w)(ack_command_id data := None)\<rparr> in
           case sender_option of
             Some sender \<Rightarrow> Some (oneshot_send sender (Oneshot_Ack data) w)
           | None \<Rightarrow> Some w)
      | _ \<Rightarrow> Some w)"

section \<open>Events of the server behaviour\<close>

datatype gossip_event =
    GossipsubEvent_Message bytes
  | GossipsubEvent_Subscribed peer_id
  | GossipsubEvent_other

definition inject_gossip_event :: "gossip_event \<Rightarrow> world \<Rightarrow> world option" where
  "inject_gossip_event event w =
     (case event of
        GossipsubEvent_Message message \<Rightarrow>
          if publish_loop_alive w
          then Some (w\<lparr>publish_channel := publish_channel w @ [message]\<rparr>) else None
      | _ \<Rightarrow> Some w)"

text \<open>What Kademlia reports is logged.\<close>

datatype kad_event =
    KademliaEvent_RoutablePeer peer_id string
  | KademliaEvent_RoutingUpdated peer_id "string list"
  | KademliaEvent_UnroutablePeer peer_id
  | KademliaEvent_QueryResult
  | KademliaEvent_PendingRoutablePeer peer_id string

fun inject_kad_event :: "kad_event \<Rightarrow> 'x swarm_scheme \<Rightarrow> 'x swarm_scheme" where
  "inject_kad_event (KademliaEvent_RoutablePeer peer address) n = n"
| "inject_kad_event (KademliaEvent_RoutingUpdated peer addresses) n = n"
| "inject_kad_event (KademliaEvent_UnroutablePeer peer) n = n"
| "inject_kad_event KademliaEvent_QueryResult n = n"
| "inject_kad_event (KademliaEvent_PendingRoutablePeer peer address) n = n"

text \<open>\<open>str::find(pat).is_some()\<close>.\<close>

fun contains_str :: "string \<Rightarrow> string \<Rightarrow> bool" where
  "contains_str pat [] = (pat = [])"
| "contains_str pat (c # s) = (take (length pat) (c # s) = pat \<or> contains_str pat s)"

definition inject_identify_received ::
  "peer_id \<Rightarrow> string list \<Rightarrow> string list \<Rightarrow> 'x swarm_scheme \<Rightarrow> 'x swarm_scheme" where
  "inject_identify_received peer_id listen_addrs protocols n =
     (let is_server_node = foldl (\<lambda>b x. if contains_str ''meshsub'' x then True else b) False protocols in
      if is_server_node
      then foldl (\<lambda>n addr. n\<lparr>kad_add_address := kad_add_address n @ [(peer_id, addr)]\<rparr>) n listen_addrs
      else n)"

datatype identify_event =
    IdentifyEvent_Received peer_id "string list" "string list"
  | IdentifyEvent_Sent peer_id
  | IdentifyEvent_Error peer_id
  | IdentifyEvent_Pushed peer_id

definition inject_identify_event :: "identify_event \<Rightarrow> 'x swarm_scheme \<Rightarrow> 'x swarm_scheme" where
  "inject_identify_event message n =
     (case message of
        IdentifyEvent_Received peer_id listen_addrs protocols \<Rightarrow>
          inject_identify_received peer_id listen_addrs protocols n
      | IdentifyEvent_Sent peer_id \<Rightarrow> n
      | IdentifyEvent_Error peer_id \<Rightarrow> n
      | IdentifyEvent_Pushed peer_id \<Rightarrow> n)"

text \<open>The client behaviour ignores what it hears by gossip and identification.\<close>

definition inject_client_gossip_event :: "gossip_event \<Rightarrow> world \<Rightarrow> world" where
  "inject_client_gossip_event event w = w"

definition inject_client_identify_event :: "identify_event \<Rightarrow> 'x swarm_scheme \<Rightarrow> 'x swarm_scheme" where
  "inject_client_identify_event message n = n"

section \<open>Known peers\<close>

definition kad_node_info :: "ext \<Rightarrow> kad_entry \<Rightarrow> node_info" where
  "kad_node_info E e =
     \<lparr>ni_id = to_base58 E (ke_peer e),
      ni_addr = foldl (\<lambda>addrs a. if \<not> contains_str ''p2p'' a then push_back a addrs else addrs) []
                  (ke_addresses e)\<rparr>"

definition kad_visit :: "ext \<Rightarrow> i32 \<Rightarrow> i32 \<times> node_info list \<Rightarrow> kad_entry \<Rightarrow> i32 \<times> node_info list" where
  "kad_visit E number = (\<lambda>(cnt, peers) e.
     if sint cnt < sint number
     then (if ke_connected e then (cnt + 1, push_back (kad_node_info E e) peers) else (cnt, peers))
     else (cnt, peers))"

definition get_kad_peers :: "ext \<Rightarrow> 'x swarm_scheme \<Rightarrow> i32 \<Rightarrow> node_info list" where
  "get_kad_peers E n number =
     snd (foldl (\<lambda>acc kbucket. foldl (kad_visit E number) acc kbucket) (0, []) (kbuckets n))"

section \<open>The event loops\<close>

definition add_peer_addresses_request ::
  "add_peer_addresses \<Rightarrow> 'x swarm_scheme \<Rightarrow> 'x swarm_scheme" where
  "add_peer_addresses_request a n =
     (let p = apa_remote_peer_id a;
          n = foldl (\<lambda>n x. n\<lparr>ack_add_address := ack_add_address n @ [(p, x)],
                              proxy_add_address := proxy_add_address n @ [(p, x)]\<rparr>) n (apa_remote_addr a) in
      n\<lparr>rb_addresses := (rb_addresses n)(p \<mapsto> apa_remote_addr a)\<rparr>)"

text \<open>
  The arms of the match. \<open>publish_ok\<close> says whether \<open>gossip_sub.publish\<close> succeeds. The arms for main
  nets and gossip are empty in the client, which drops the sender.
\<close>

definition handle_node_request ::
  "ext \<Rightarrow> run_mode \<Rightarrow> (bytes \<Rightarrow> bool) \<Rightarrow> node_request \<Rightarrow> world \<times> 'x swarm_scheme \<Rightarrow>
   (world \<times> 'x swarm_scheme) option" where
  "handle_node_request E mode publish_ok r = (\<lambda>(w, n).
     case r of
       NodeRequest_ProxyRequest q \<Rightarrow>
         (case npr_proxy_request q of
            None \<Rightarrow> None
          | Some request \<Rightarrow> Some (w, n\<lparr>proxy_sent := proxy_sent n @ [(npr_remote_peer_id q, request)]\<rparr>))
     | NodeRequest_CmdRequest q \<Rightarrow>
         (case ncr_cmd_request q of
            None \<Rightarrow> None
          | Some request \<Rightarrow> Some (w, n\<lparr>cmd_sent := cmd_sent n @ [(ncr_remote_peer_id q, request)]\<rparr>))
     | NodeRequest_AddPeerAddressesRequest a \<Rightarrow> Some (w, add_peer_addresses_request a n)
     | NodeRequest_AckRequest q \<Rightarrow>
         (case nar_ack_request q of
            None \<Rightarrow> None
          | Some request \<Rightarrow> Some (w, n\<lparr>ack_sent := ack_sent n @ [(nar_remote_peer_id q, request)]\<rparr>))
     | NodeRequest_NewStreamRequest p \<Rightarrow> Some (w, new_stream p n)
     | NodeRequest_GetMainNetsRequest g \<Rightarrow>
         (case mode of
            RunMode_Client \<Rightarrow> Some (drop_sender (gmn_sender g) w, n)
          | RunMode_Server \<Rightarrow>
              Some (oneshot_send (gmn_sender g) (Oneshot_Peers (get_kad_peers E n (gmn_num g))) w, n))
     | NodeRequest_PublishData d \<Rightarrow>
         (case mode of
            RunMode_Client \<Rightarrow> Some (drop_sender (pdr_sender d) w, n)
          | RunMode_Server \<Rightarrow>
              if publish_ok (pdr_data d)
              then Some (oneshot_send (pdr_sender d) (Oneshot_Bool True) w,
                         n\<lparr>gossip_published := gossip_published n @ [pdr_data d]\<rparr>)
              else None))"

text \<open>
  A panic ends the loop: the receiver and the swarm are dropped, with every sender that waits in
  the queue.
\<close>

fun request_sender :: "node_request \<Rightarrow> nat option" where
  "request_sender (NodeRequest_GetMainNetsRequest g) = Some (gmn_sender g)"
| "request_sender (NodeRequest_PublishData d) = Some (pdr_sender d)"
| "request_sender _ = None"

definition drop_request :: "node_request \<Rightarrow> world \<Rightarrow> world" where
  "drop_request r w = (case request_sender r of None \<Rightarrow> w | Some h \<Rightarrow> drop_sender h w)"

definition end_event_loop :: "world \<Rightarrow> world" where
  "end_event_loop w =
     (fold drop_request (node_request_sender w) w)\<lparr>request_loop_alive := False, node_request_sender := []\<rparr>"

text \<open>
  One round of the loop that takes a request from the queue.
\<close>

definition event_loop_request ::
  "ext \<Rightarrow> run_mode \<Rightarrow> (bytes \<Rightarrow> bool) \<Rightarrow> world \<times> 'x swarm_scheme \<Rightarrow> (world \<times> 'x swarm_scheme) option" where
  "event_loop_request E mode publish_ok = (\<lambda>(w, n).
     if \<not> request_loop_alive w then None
     else case pop_front (node_request_sender w) of
            None \<Rightarrow> None
          | Some (r, q) \<Rightarrow>
              (case handle_node_request E mode publish_ok r (w\<lparr>node_request_sender := q\<rparr>, n) of
                 Some s \<Rightarrow> Some s
               | None \<Rightarrow> Some (end_event_loop w, n)))"

section \<open>Lemmas\<close>

lemma contains_str_iff: "contains_str pat s \<longleftrightarrow> (\<exists>a b. s = a @ pat @ b)"
proof (induction s)
  case (Cons c s)
  have "take (length pat) (c # s) = pat \<longleftrightarrow> (\<exists>b. c # s = pat @ b)"
    by (metis append_eq_conv_conj)
  moreover have "(\<exists>a b. c # s = a @ pat @ b) \<longleftrightarrow> (\<exists>b. c # s = pat @ b) \<or> (\<exists>a b. s = a @ pat @ b)"
    by (metis Cons_eq_append_conv append_Cons append_Nil)
  ultimately show ?case using Cons.IH by simp
qed simp

lemma foldl_filter_push:
  "foldl (\<lambda>acc x. if P x then push_back x acc else acc) acc xs = acc @ filter P xs"
  by (induction xs arbitrary: acc) (simp_all add: push_back_def)

lemma kad_node_info_eq:
  "kad_node_info E e = \<lparr>ni_id = to_base58 E (ke_peer e),
     ni_addr = filter (\<lambda>a. \<not> contains_str ''p2p'' a) (ke_addresses e)\<rparr>"
  using foldl_filter_push [of "\<lambda>a. \<not> contains_str ''p2p'' a" "[]" "ke_addresses e"]
  by (simp add: kad_node_info_def)

lemma foldl_any: "foldl (\<lambda>b x. if P x then True else b) acc xs \<longleftrightarrow> acc \<or> (\<exists>x \<in> set xs. P x)"
  by (induction xs arbitrary: acc) auto

lemma foldl_kad_add: "foldl (\<lambda>n addr. n\<lparr>kad_add_address := kad_add_address n @ [(p, addr)]\<rparr>) n xs =
    n\<lparr>kad_add_address := kad_add_address n @ map (Pair p) xs\<rparr>"
  by (induction xs arbitrary: n) simp_all

lemma foldl_concat: "foldl (\<lambda>acc ys. foldl f acc ys) acc xss = foldl f acc (concat xss)"
  by (induction xss arbitrary: acc) simp_all

lemma sint_succ:
  assumes "sint (i :: i32) < sint (j :: i32)"
  shows "sint (i + 1) = sint i + 1"
proof -
  have "sint j < 2 ^ 31" and "- (2 ^ 31) \<le> sint i"
    using sint_lt [of j] sint_ge [of i] by simp_all
  with assms have "signed_take_bit 31 (sint i + 1) = sint i + 1"
    by (intro signed_take_bit_int_eq_self) simp_all
  then show ?thesis by (simp add: sint_word_ariths)
qed

lemma foldl_kad_visit:
  assumes "0 \<le> sint cnt"
  shows "snd (foldl (kad_visit E number) (cnt, acc) es) =
    acc @ map (kad_node_info E) (take (nat (sint number - sint cnt)) (filter ke_connected es))"
  using assms
proof (induction es arbitrary: cnt acc)
  case (Cons e es)
  show ?case
  proof (cases "sint cnt < sint number \<and> ke_connected e")
    case True
    then have s: "sint (cnt + 1) = sint cnt + 1" using sint_succ [of cnt number] by simp
    with True have "nat (sint number - sint cnt) = Suc (nat (sint number - sint (cnt + 1)))" by linarith
    with True Cons.IH [of "cnt + 1"] Cons.prems s show ?thesis
      by (simp add: kad_visit_def push_back_def)
  next
    case False
    with Cons.IH [of cnt acc] Cons.prems show ?thesis by (auto simp: kad_visit_def)
  qed
qed simp

lemma get_kad_peers_eq:
  "get_kad_peers E n number =
     map (kad_node_info E) (take (nat (sint number)) (filter ke_connected (concat (kbuckets n))))"
  by (simp add: get_kad_peers_def foldl_concat foldl_kad_visit)

end
