(* ===== verification/System.thy ===== *)
theory System
  imports Node_Inv Behaviour
begin

text \<open>
  A running node: the shared state, the swarm and the tasks in flight. One step is one atomic
  section of one task, the start, end or panic of a task, a call of the client, a round of the
  event loop, an event that the swarm delivers, or a round of a stream's pump. Steps of different
  tasks interleave in any order, and a spawned task starts at any time.

  The locale \<open>scheduler\<close> states when such a system keeps an invariant; the node is its instance,
  with the invariants of \<open>Node_Inv\<close>.
\<close>

section \<open>Tasks\<close>

text \<open>
  The program of a task; the loops over streams and requests return the task of the next round.
  The stream request of \<open>new_relay_stream\<close> is sent without \<open>unwrap\<close>. \<open>T_process_new_stream\<close> is the
  loop of \<open>start_server\<close> and of \<open>process_new_stream\<close>.
\<close>

definition process_new_stream :: "task option async" where
  "process_new_stream =
     bind wait_for_relay_stream (\<lambda>stream.
     bind (spawn (T_relay_event_handler stream None)) (\<lambda>_.
     Ret (Some T_process_new_stream)))"

fun body :: "ext \<Rightarrow> task \<Rightarrow> task option async" where
  "body E (T_relay_event_handler st sid) = relay_event_handler E st sid"
| "body E (T_write_relay_arc st r) = andthen (write_relay_arc E st r) (Ret None)"
| "body E (T_process_handshake cc i sid) = andthen (process_handshake E cc i sid) (Ret None)"
| "body E (T_send_node_request r) =
     andthen (modify (\<lambda>w. if request_loop_alive w
                          then w\<lparr>node_request_sender := node_request_sender w @ [r]\<rparr> else w)) (Ret None)"
| "body E (T_send_in st r) = andthen (modify (push_in st r)) (Ret None)"
| "body E T_process_proxy_request = process_proxy_request E"
| "body E T_process_cmd_request = process_cmd_request E"
| "body E T_process_publish_request = process_publish_request E"
| "body E T_process_new_stream = process_new_stream"

text \<open>What a client may call at any time.\<close>

datatype api_call =
    Api_get_main_nets peer_id string
  | Api_register peer_id
  | Api_dial string
  | Api_send_message string bytes
  | Api_read circuit_conn bytes
  | Api_disconnect_circuit string

fun api_body :: "ext \<Rightarrow> api_call \<Rightarrow> task option async" where
  "api_body E (Api_get_main_nets p addr) = andthen (get_main_nets E 10 p addr) (Ret None)"
| "api_body E (Api_register p) = andthen (register_proxy E p) (Ret None)"
| "api_body E (Api_dial wid) = andthen (dial E wid) (Ret None)"
| "api_body E (Api_send_message sid m) = andthen (send_message E sid m) (Ret None)"
| "api_body E (Api_read cc buf) = andthen (circuit_conn_read E cc buf) (Ret None)"
| "api_body E (Api_disconnect_circuit sid) = andthen (handle_close_session sid) (Ret None)"

text \<open>A loop that ends, by itself or by a panic, drops its receiver and what is queued there.\<close>

fun task_end :: "task option \<Rightarrow> world \<Rightarrow> world" where
  "task_end (Some T_process_proxy_request) w = w\<lparr>proxy_loop_alive := False, proxy_request_channel := []\<rparr>"
| "task_end (Some T_process_cmd_request) w = w\<lparr>cmd_loop_alive := False, cmd_request_channel := []\<rparr>"
| "task_end (Some T_process_publish_request) w = w\<lparr>publish_loop_alive := False, publish_channel := []\<rparr>"
| "task_end _ w = w"

section \<open>Events of the swarm\<close>

datatype swarm_event =
    Ev_relay_poll
  | Ev_handler peer_id handler_out_event
  | Ev_disconnected peer_id
  | Ev_proxy "request rr_event"
  | Ev_cmd "command rr_event"
  | Ev_ack "ack rr_event"
  | Ev_connected peer_id
  | Ev_gossip gossip_event
  | Ev_identify identify_event
  | Ev_kad kad_event

text \<open>
  What the swarm does with an event; \<open>None\<close> is a panic. Only the server runs Kademlia.
\<close>

definition swarm_inject ::
  "ext \<Rightarrow> run_mode \<Rightarrow> swarm_event \<Rightarrow> world \<times> swarm \<Rightarrow> (world \<times> swarm) option" where
  "swarm_inject E mode ev = (\<lambda>(w, n).
     case ev of
       Ev_relay_poll \<Rightarrow>
         (case relay_poll n of
            Some (Action_GenerateEvent e, n') \<Rightarrow> map_option (\<lambda>w'. (w', n')) (inject_relay_event e w)
          | Some (Action_NotifyHandler _ _, n') \<Rightarrow> Some (w, n')
          | None \<Rightarrow> Some (w, n))
     | Ev_handler p e \<Rightarrow> Some (relay_inject_event E p e (w, n))
     | Ev_connected p \<Rightarrow> Some (w, inject_connected p n)
     | Ev_disconnected p \<Rightarrow> Some (w, inject_disconnected p n)
     | Ev_proxy m \<Rightarrow> map_option (\<lambda>w'. (w', n)) (inject_proxy_event m w)
     | Ev_cmd m \<Rightarrow> map_option (\<lambda>w'. (w', n)) (inject_cmd_event m w)
     | Ev_ack m \<Rightarrow> map_option (\<lambda>w'. (w', n)) (inject_ack_event m w)
     | Ev_gossip m \<Rightarrow>
         (case mode of
            RunMode_Server \<Rightarrow> map_option (\<lambda>w'. (w', n)) (inject_gossip_event m w)
          | RunMode_Client \<Rightarrow> Some (inject_client_gossip_event m w, n))
     | Ev_identify m \<Rightarrow>
         (case mode of
            RunMode_Server \<Rightarrow> Some (w, inject_identify_event m n)
          | RunMode_Client \<Rightarrow> Some (w, inject_client_identify_event m n))
     | Ev_kad m \<Rightarrow>
         (case mode of
            RunMode_Server \<Rightarrow> Some (w, inject_kad_event m n)
          | RunMode_Client \<Rightarrow> Some (w, n)))"

text \<open>A panic while the event loop polls the swarm ends the loop.\<close>

definition swarm_event ::
  "ext \<Rightarrow> run_mode \<Rightarrow> swarm_event \<Rightarrow> world \<times> swarm \<Rightarrow> world \<times> swarm" where
  "swarm_event E mode ev s =
     (case swarm_inject E mode ev s of Some s' \<Rightarrow> s' | None \<Rightarrow> (end_event_loop (fst s), snd s))"

section \<open>Steps\<close>

type_synonym thread = "task option \<times> task option async"
type_synonym config = "world \<times> swarm \<times> thread list"

inductive sys_step :: "ext \<Rightarrow> run_mode \<Rightarrow> config \<Rightarrow> config \<Rightarrow> bool" for E mode where
  step_act: "g w \<Longrightarrow>
    sys_step E mode (w, n, a @ (t, Act g u k) # b) (u w, n, a @ (t, k w) # b)"
| step_loop: "sys_step E mode (w, n, a @ (t, Ret (Some t')) # b) (w, n, a @ (Some t', body E t') # b)"
| step_end: "sys_step E mode (w, n, a @ (t, Ret None) # b) (task_end t w, n, a @ b)"
| step_panic: "sys_step E mode (w, n, a @ (t, Panic) # b) (task_end t w, n, a @ b)"
| step_spawn: "spawned w = ts @ t # us \<Longrightarrow>
    sys_step E mode (w, n, ths) (w\<lparr>spawned := ts @ us\<rparr>, n, ths @ [(Some t, body E t)])"
| step_api: "sys_step E mode (w, n, ths) (w, n, ths @ [(None, api_body E c)])"
| step_request: "event_loop_request E mode publish_ok (w, n) = Some (w', n') \<Longrightarrow>
    sys_step E mode (w, n, ths) (w', n', ths)"
| step_event: "request_loop_alive w \<Longrightarrow> swarm_event E mode ev (w, n) = (w', n') \<Longrightarrow>
    sys_step E mode (w, n, ths) (w', n', ths)"
| step_pump: "st \<in> set (polling n) \<Longrightarrow> start_poll E st ev (w, n) = Some (flow, w', n') \<Longrightarrow>
    sys_step E mode (w, n, ths)
      (w', if flow = Loop_continue then n' else n'\<lparr>polling := remove1 st (polling n')\<rparr>, ths)"

inductive reachable :: "ext \<Rightarrow> run_mode \<Rightarrow> config \<Rightarrow> config \<Rightarrow> bool" for E mode where
  reach_refl: "reachable E mode c c"
| reach_step: "reachable E mode c d \<Longrightarrow> sys_step E mode d e \<Longrightarrow> reachable E mode c e"

inductive_cases sys_stepE: "sys_step E mode (w, n, ths) d"

lemma reach_trans: "reachable E mode d e \<Longrightarrow> reachable E mode c d \<Longrightarrow> reachable E mode c e"
  by (induction rule: reachable.induct) (auto intro: reach_step)

text \<open>What a task does without interference is one of the interleavings.\<close>

lemma reach_bind:
  "run p w = Done x w' \<Longrightarrow>
   reachable E mode (w, n, a @ (t, bind p q) # b) (w', n, a @ (t, q x) # b)"
proof (induction p arbitrary: w)
  case (Act g u k)
  then have g: "g w" and r: "run (k w) (u w) = Done x w'" by (auto split: if_splits)
  have "reachable E mode (u w, n, a @ (t, bind (k w) q) # b) (w', n, a @ (t, q x) # b)"
    using r by (rule Act.IH [OF rangeI])
  moreover have "sys_step E mode (w, n, a @ (t, bind (Act g u k) q) # b) (u w, n, a @ (t, bind (k w) q) # b)"
    using g step_act [where g = g and u = u and k = "\<lambda>s. bind (k s) q"] by simp
  ultimately show ?case by (blast intro: reach_trans reach_step reach_refl)
qed (auto intro: reach_refl)

lemma reach_blocked:
  "run p w = Blocked q w' \<Longrightarrow> reachable E mode (w, n, a @ (t, p) # b) (w', n, a @ (t, q) # b)"
proof (induction p arbitrary: w)
  case (Act g u k)
  show ?case
  proof (cases "g w")
    case True
    with Act have "reachable E mode (u w, n, a @ (t, k w) # b) (w', n, a @ (t, q) # b)" by simp
    with step_act [of g w E mode n a t u k b] True show ?thesis
      by (blast intro: reach_trans reach_step reach_refl)
  qed (use Act.prems in \<open>auto intro: reach_refl\<close>)
qed simp_all

text \<open>Bytes that come in on a stream, and the task that hands over a message.\<close>

lemma reach_feed:
  assumes "st \<in> set (polling n)" and "feed E st bs (w, n) = Some (Loop_continue, w', n')"
  shows "reachable E mode (w, n, ths) (w', n', ths)"
  using assms
proof (induction bs arbitrary: w n)
  case (Cons b bs)
  then obtain w1 n1 where 1: "start_poll E st (Poll_byte b) (w, n) = Some (Loop_continue, w1, n1)"
    "feed E st bs (w1, n1) = Some (Loop_continue, w', n')"
    by (auto split: option.splits if_splits)
  have "polling n1 = polling n"
    using 1(1) by (auto simp: poll_byte read_arm_def split: option.splits sum.splits if_splits)
  then have "reachable E mode (w1, n1, ths) (w', n', ths)" using Cons 1(2) by simp
  moreover have "sys_step E mode (w, n, ths) (w1, n1, ths)" using step_pump [OF Cons.prems(1) 1(1)] by simp
  ultimately show ?case by (blast intro: reach_trans reach_step reach_refl)
qed (simp add: reach_refl)

lemma reach_send_in:
  assumes "spawned w = ts @ T_send_in st r # us"
  shows "reachable E mode (w, n, ths) (push_in st r (w\<lparr>spawned := ts @ us\<rparr>), n, ths)"
proof -
  let ?w = "w\<lparr>spawned := ts @ us\<rparr>" and ?t = "Some (T_send_in st r)"
  have "sys_step E mode (w, n, ths) (?w, n, ths @ [(?t, body E (T_send_in st r))])"
    using assms by (rule step_spawn)
  moreover have "run (modify (push_in st r)) ?w = Done () (push_in st r ?w)" by (simp add: run_simps)
  from reach_bind [OF this, of E mode n ths ?t "\<lambda>_. Ret None" "[]"]
  have "reachable E mode (?w, n, ths @ [(?t, body E (T_send_in st r))]) (push_in st r ?w, n, ths @ [(?t, Ret None)])"
    by (simp add: andthen_def)
  moreover have "sys_step E mode (push_in st r ?w, n, ths @ [(?t, Ret None)]) (push_in st r ?w, n, ths)"
    using step_end [of E mode "push_in st r ?w" n ths ?t "[]"] by simp
  ultimately show ?thesis by (blast intro: reach_trans reach_step reach_refl)
qed

text \<open>Two messages that come in one after the other reach the handler in either order.\<close>

lemma reach_two_messages:
  assumes "read_one_ok E" and "st \<in> set (polling n)" and "sub_got n (ws_stream st) = []"
    and "x \<noteq> []" "length x \<le> READ_LIMIT" and "y \<noteq> []" "length y \<le> READ_LIMIT"
  obtains w1 w2 where "reachable E mode (w, n, ths) (w1, n, ths)" "reachable E mode (w, n, ths) (w2, n, ths)"
    "in_chan w1 (ws_stream st) = in_chan w (ws_stream st) @ [Inr x, Inr y]"
    "in_chan w2 (ws_stream st) = in_chan w (ws_stream st) @ [Inr y, Inr x]"
proof -
  let ?w = "w\<lparr>spawned := spawned w @ [T_send_in st (Inr x), T_send_in st (Inr y)]\<rparr>"
  have "feed E st (len_prefixed E x @ len_prefixed E y @ []) (w, n) = Some (Loop_continue, ?w, n)"
    unfolding feed_message [OF assms(1,3-5)] feed_message [OF assms(1,3,6,7)] by simp
  note 0 = reach_feed [OF assms(2) this, of mode ths]
  let ?x = "push_in st (Inr x) (w\<lparr>spawned := spawned w @ [T_send_in st (Inr y)]\<rparr>)"
  let ?y = "push_in st (Inr y) (w\<lparr>spawned := spawned w @ [T_send_in st (Inr x)]\<rparr>)"
  let ?xy = "push_in st (Inr y) (?x\<lparr>spawned := spawned w\<rparr>)" and ?yx = "push_in st (Inr x) (?y\<lparr>spawned := spawned w\<rparr>)"
  have "reachable E mode (?w, n, ths) (?x, n, ths)" "reachable E mode (?w, n, ths) (?y, n, ths)"
    using reach_send_in [of ?w "spawned w" st "Inr x" "[T_send_in st (Inr y)]" E mode n ths]
      reach_send_in [of ?w "spawned w @ [T_send_in st (Inr x)]" st "Inr y" "[]" E mode n ths] by simp_all
  moreover have "reachable E mode (?x, n, ths) (?xy, n, ths)" "reachable E mode (?y, n, ths) (?yx, n, ths)"
    using reach_send_in [of ?x "spawned w" st "Inr y" "[]" E mode n ths]
      reach_send_in [of ?y "spawned w" st "Inr x" "[]" E mode n ths] by (simp_all add: push_in_def)
  ultimately have "reachable E mode (w, n, ths) (?xy, n, ths)" "reachable E mode (w, n, ths) (?yx, n, ths)"
    using 0 by (blast intro: reach_trans)+
  then show ?thesis by (rule that) (simp_all add: push_in_def)
qed

section \<open>Invariants of a running node\<close>

text \<open>
  What has to be shown of an invariant of the shared state: each task and each call of the client
  keeps it in every interleaving and goes on only as well-formed tasks; spawned tasks are
  well-formed; the steps outside the tasks keep it.
\<close>

locale scheduler =
  fixes I :: "world \<Rightarrow> bool"
    and wf :: "task \<Rightarrow> bool"
    and E :: ext
    and mode :: run_mode
  assumes body_keeps: "wf t \<Longrightarrow> keeps I (\<lambda>r. \<forall>t'. r = Some t' \<longrightarrow> wf t') (body E t)"
    and api_keeps: "keeps I (\<lambda>r. \<forall>t'. r = Some t' \<longrightarrow> wf t') (api_body E c)"
    and spawned_wf: "I w \<Longrightarrow> t \<in> set (spawned w) \<Longrightarrow> wf t"
    and start_keeps: "I w \<Longrightarrow> spawned w = ts @ t # us \<Longrightarrow> I (w\<lparr>spawned := ts @ us\<rparr>)"
    and end_keeps: "I w \<Longrightarrow> I (task_end th w)"
    and request_keeps: "I w \<Longrightarrow> event_loop_request E mode pok (w, n) = Some (w', n') \<Longrightarrow> I w'"
    and event_keeps: "I w \<Longrightarrow> swarm_event E mode ev (w, n) = (w', n') \<Longrightarrow> I w'"
    and pump_keeps: "I w \<Longrightarrow> start_poll E st pe (w, n) = Some (flow, w', n') \<Longrightarrow> I w'"
begin

lemma step_keeps:
  assumes "sys_step E mode (w, n, ths) (w', n', ths')" and "I w"
    and "\<forall>(t, p) \<in> set ths. keeps I (\<lambda>r. \<forall>t'. r = Some t' \<longrightarrow> wf t') p"
  shows "I w' \<and> (\<forall>(t, p) \<in> set ths'. keeps I (\<lambda>r. \<forall>t'. r = Some t' \<longrightarrow> wf t') p)"
  using assms(1)
proof cases
  case (step_loop a t t' b)
  with assms have "wf t'" by auto
  with step_loop assms show ?thesis by (auto intro: body_keeps)
next
  case (step_spawn ts t us)
  with assms have "wf t" by (auto intro: spawned_wf)
  with step_spawn assms show ?thesis by (auto intro: body_keeps start_keeps)
qed (use assms in \<open>auto simp: steps_in_Act intro: end_keeps api_keeps request_keeps event_keeps pump_keeps\<close>)

lemma reachable_keeps:
  assumes "reachable E mode c d" and "I (fst c)"
    and "\<forall>(t, p) \<in> set (snd (snd c)). keeps I (\<lambda>r. \<forall>t'. r = Some t' \<longrightarrow> wf t') p"
  shows "I (fst d) \<and> (\<forall>(t, p) \<in> set (snd (snd d)). keeps I (\<lambda>r. \<forall>t'. r = Some t' \<longrightarrow> wf t') p)"
  using assms
proof (induction rule: reachable.induct)
  case (reach_step c d e)
  then have "I (fst d) \<and> (\<forall>(t, p) \<in> set (snd (snd d)). keeps I (\<lambda>r. \<forall>t'. r = Some t' \<longrightarrow> wf t') p)"
    by blast
  with reach_step.hyps(2) show ?case by (cases d; cases e) (auto dest: step_keeps)
qed simp

end

section \<open>The tables and the queues of a running node\<close>

lemma quiet_refl [simp]: "quiet w w"
  by (simp add: quiet_defs)

lemma quiet_trans: "quiet u v \<Longrightarrow> quiet v w \<Longrightarrow> quiet u w"
  by (auto simp: quiet_defs)

lemma quiet_drop_sender: "quiet w (drop_sender h w)"
  by (simp add: quiet_defs drop_sender_def)

lemma quiet_drop_requests: "quiet w (fold drop_request rs w)"
proof (induction rs arbitrary: w)
  case (Cons r rs)
  have "quiet w (drop_request r w)"
    by (simp add: drop_request_def quiet_drop_sender split: option.split)
  with Cons.IH show ?case by (auto intro: quiet_trans)
qed simp

lemma quiet_end_event_loop: "quiet w (end_event_loop w)"
  using quiet_drop_requests [of w "node_request_sender w"]
  by (simp add: end_event_loop_def quiet_defs)

lemma quiet_task_end: "quiet w (task_end t w)"
  by (cases "(t, w)" rule: task_end.cases) (simp_all add: quiet_defs)

lemma quiet_handle_node_request:
  "handle_node_request E mode pok r (w, n) = Some (w', n') \<Longrightarrow> quiet w w'"
  by (auto simp: handle_node_request_def quiet_defs drop_sender_def oneshot_send_def
      split: node_request.splits option.splits run_mode.splits if_splits)

lemma quiet_event_loop_request:
  "event_loop_request E mode pok (w, n) = Some (w', n') \<Longrightarrow> quiet w w'"
  by (auto simp: event_loop_request_def quiet_end_event_loop
      dest!: quiet_handle_node_request elim: quiet_trans [rotated]
      split: option.splits if_splits) (simp add: quiet_defs)

lemma quiet_inject:
  "inject_relay_event re w = Some w' \<Longrightarrow> quiet w w'"
  "inject_proxy_event pe w = Some w' \<Longrightarrow> quiet w w'"
  "inject_cmd_event ce w = Some w' \<Longrightarrow> quiet w w'"
  "inject_ack_event ae w = Some w' \<Longrightarrow> quiet w w'"
  "inject_gossip_event m w = Some w' \<Longrightarrow> quiet w w'"
  by (auto simp: inject_relay_event_def inject_proxy_event_def inject_cmd_event_def
      inject_ack_event_def inject_gossip_event_def push_proxy_request_def push_cmd_request_def
      oneshot_send_def quiet_defs Let_def
      split: relay_event.splits rr_event.splits rr_message.splits gossip_event.splits option.splits if_splits)

lemma quiet_relay_inject: "relay_inject_event E p e (w, n) = (w', n') \<Longrightarrow> quiet w w'"
  by (auto simp: relay_inject_event_def from_neg_to_wraped_def quiet_defs Let_def
      split: handler_out_event.splits if_splits)

lemma quiet_swarm_event: "swarm_event E mode ev (w, n) = (w', n') \<Longrightarrow> quiet w w'"
  by (auto simp: swarm_event_def swarm_inject_def quiet_end_event_loop inject_client_gossip_event_def
      split: swarm_event.splits option.splits relay_action.splits run_mode.splits prod.splits
      dest: quiet_inject quiet_relay_inject)

lemma start_poll_world:
  "start_poll E st ev (w, n) = Some (flow, w', n') \<Longrightarrow>
   quiet w w' \<or> (\<exists>r. w' = w\<lparr>spawned := spawned w @ [T_send_in st r]\<rparr>)"
  by (cases ev) (auto simp: start_poll_def read_arm_def Let_def push_in_def quiet_defs
      split: list.splits wraped_data.splits if_splits sum.splits option.splits)

lemma start_poll_wire_inv:
  "wire_inv E w \<Longrightarrow> start_poll E st ev (w, n) = Some (flow, w', n') \<Longrightarrow> wire_inv E w'"
  by (auto dest!: start_poll_world intro: wire_inv_same wire.I_spawn)

lemma wf_next_eq: "wf_next ok = (\<lambda>r. \<forall>t'. r = Some t' \<longrightarrow> wf_task ok t')"
  by (rule ext) (simp add: wf_next_def split: option.split)

lemma body_wire_inv:
  "wf_task (typed_relay E) t \<Longrightarrow> keeps (wire_inv E) (wf_next (typed_relay E)) (body E t)"
proof (cases t)
  case T_process_new_stream
  then show ?thesis
    by (auto simp: process_new_stream_def
        intro!: wire.k_wait_for_relay_stream [THEN steps_bind] wire.k_bind)
next
  case (T_send_node_request r)
  then show ?thesis by (auto intro!: steps_andthen steps_modify elim: wire.I_same)
next
  case (T_send_in st r)
  then show ?thesis by (auto simp: push_in_def intro!: steps_andthen steps_modify elim: wire.I_same)
qed (auto intro!: steps_andthen wire.k_relay_event_handler wire.k_write_relay_arc wire.k_handshake
    wire.k_process_proxy wire.k_process_cmd wire.k_process_publish)

lemma api_wire_inv: "keeps (wire_inv E) (wf_next (typed_relay E)) (api_body E c)"
  by (cases c) (auto intro!: steps_andthen wire.k_get_main_nets wire.k_register_proxy wire.k_dial
      wire.k_send_message wire.k_circuit_conn_read wire.k_close)

interpretation sched: scheduler "wire_inv E" "wf_task (typed_relay E)" E mode for E mode
proof unfold_locales
  show "wf_task (typed_relay E) t \<Longrightarrow>
      keeps (wire_inv E) (\<lambda>r. \<forall>t'. r = Some t' \<longrightarrow> wf_task (typed_relay E) t') (body E t)" for t
    using body_wire_inv [of E t] by (simp only: wf_next_eq)
  show "keeps (wire_inv E) (\<lambda>r. \<forall>t'. r = Some t' \<longrightarrow> wf_task (typed_relay E) t') (api_body E c)" for c
    using api_wire_inv [of E c] by (simp only: wf_next_eq)
  show "wire_inv E w \<Longrightarrow> t \<in> set (spawned w) \<Longrightarrow> wf_task (typed_relay E) t" for w t
    by (simp add: wire_inv_def)
  show "wire_inv E w \<Longrightarrow> spawned w = ts @ t # us \<Longrightarrow> wire_inv E (w\<lparr>spawned := ts @ us\<rparr>)" for w ts t us
    by (simp add: wire_inv_def node_inv_def)
qed (blast intro: wire_inv_same quiet_task_end quiet_event_loop_request quiet_swarm_event
    start_poll_wire_inv)+

end
