(* ===== verification/Sockets.thy ===== *)
theory Sockets
  imports Node_State
begin

text \<open>
  A socket that code reads and writes directly: a \<open>NegotiatedSubstream\<close>, or the \<open>io\<close> of a request
  codec. It is the bytes that are still to come in, what reading returns after them, the bytes
  written to it, and whether writing fails. A \<open>&mut\<close> argument is passed in and returned.
\<close>

datatype io_error = ErrorKind_InvalidData | ErrorKind_Other

type_synonym 'a io_result = "io_error + 'a"

text \<open>\<open>ns_end\<close> is \<open>None\<close> while the socket is open: a reader that lacks bytes then waits.\<close>

record substream =
  ns_incoming :: bytes
  ns_end :: "read_one_error option option"
  ns_written :: bytes
  ns_broken :: bool

definition pending :: "'a async" where
  "pending = Act (\<lambda>_. False) (\<lambda>w. w) (\<lambda>_. Panic)"

text \<open>\<open>read_one(io, lim)\<close>, awaited without interruption.\<close>

definition ns_read :: "ext \<Rightarrow> nat \<Rightarrow> substream \<Rightarrow> (read_result \<times> substream) async" where
  "ns_read E lim s =
     (case read_one E lim (ns_incoming s) of
        Some (res, rest) \<Rightarrow> Ret (res, s\<lparr>ns_incoming := rest\<rparr>)
      | None \<Rightarrow>
          (case ns_end s of
             None \<Rightarrow> pending
           | Some e \<Rightarrow> Ret (end_result e, s\<lparr>ns_incoming := []\<rparr>)))"

text \<open>\<open>write_with_len_prefix(io, ..)\<close>, and with \<open>unwrap\<close>: a panic when the socket fails.\<close>

definition ns_send :: "ext \<Rightarrow> substream \<Rightarrow> bytes \<Rightarrow> unit io_result \<times> substream" where
  "ns_send E s bs =
     (if ns_broken s then (Inl ErrorKind_Other, s)
      else (Inr (), s\<lparr>ns_written := ns_written s @ len_prefixed E bs\<rparr>))"

definition ns_write :: "ext \<Rightarrow> substream \<Rightarrow> bytes \<Rightarrow> substream async" where
  "ns_write E s bs = (case ns_send E s bs of (Inl e, s) \<Rightarrow> Panic | (Inr _, s) \<Rightarrow> Ret s)"

lemma ns_read_message [simp]:
  assumes "read_one_ok E" and "length m \<le> lim"
  shows "ns_read E lim (s\<lparr>ns_incoming := len_prefixed E m @ rest\<rparr>) = Ret (Inr m, s\<lparr>ns_incoming := rest\<rparr>)"
  using read_one_message [OF assms] by (simp add: ns_read_def)

lemma ns_read_long:
  assumes "read_one_ok E" and "lim < length m"
  shows "\<exists>rest'. ns_read E lim (s\<lparr>ns_incoming := len_prefixed E m @ rest\<rparr>) =
    Ret (Inl (ReadOneError_TooLarge (length m) lim), s\<lparr>ns_incoming := rest'\<rparr>)"
  using read_one_long [OF assms, of rest] by (auto simp: ns_read_def)

end
