(* ===== verification/Protocols.thy ===== *)
theory Protocols
  imports Sockets
begin

text \<open>
  The request codecs of \<open>network/protocols/proxy_protocol.rs\<close>, \<open>cmd_protocol.rs\<close> and
  \<open>ack_protocol.rs\<close>: each reads one message of at most 8 MiB off its socket, and writes one with its
  length. A message that does not decode is a panic. The three keep the same contract, which the
  locale \<open>request_codec\<close> states.
\<close>

definition MAX_SIZE :: nat where "MAX_SIZE = 8 * 1024 * 1024"

section \<open>Proxy\<close>

definition proxy_protocol_name :: string where "proxy_protocol_name = ''/proxy''"

definition proxy_read_request :: "ext \<Rightarrow> substream \<Rightarrow> (request io_result \<times> substream) async" where
  "proxy_read_request E io =
     bind (ns_read E (8 * 1024 * 1024) io) (\<lambda>(res, io).
     case res of
       Inl e \<Rightarrow> Ret (Inl ErrorKind_InvalidData, io)
     | Inr vec \<Rightarrow>
         if vec = [] then Ret (Inl ErrorKind_InvalidData, io)
         else bind (unwrap (dec (c_request E) vec)) (\<lambda>m. Ret (Inr m, io)))"

definition proxy_read_response :: "ext \<Rightarrow> substream \<Rightarrow> (bytes io_result \<times> substream) async" where
  "proxy_read_response E io =
     bind (ns_read E (8 * 1024 * 1024) io) (\<lambda>(res, io).
     case res of
       Inl e \<Rightarrow> Ret (Inl ErrorKind_InvalidData, io)
     | Inr vec \<Rightarrow> if vec = [] then Ret (Inr [], io) else Ret (Inr vec, io))"

definition proxy_write_request :: "ext \<Rightarrow> substream \<Rightarrow> request \<Rightarrow> unit io_result \<times> substream" where
  "proxy_write_request E io request = ns_send E io (enc (c_request E) request)"

definition proxy_write_response :: "ext \<Rightarrow> substream \<Rightarrow> bytes \<Rightarrow> unit io_result \<times> substream" where
  "proxy_write_response E io data = ns_send E io data"

section \<open>Command\<close>

definition cmd_protocol_name :: string where "cmd_protocol_name = ''/cmd''"

definition cmd_read_request :: "ext \<Rightarrow> substream \<Rightarrow> (command io_result \<times> substream) async" where
  "cmd_read_request E io =
     bind (ns_read E MAX_SIZE io) (\<lambda>(res, io).
     case res of
       Inl e \<Rightarrow> Ret (Inl ErrorKind_InvalidData, io)
     | Inr vec \<Rightarrow>
         if vec = [] then Ret (Inl ErrorKind_InvalidData, io)
         else bind (unwrap (dec (c_command E) vec)) (\<lambda>m. Ret (Inr m, io)))"

definition cmd_read_response :: "ext \<Rightarrow> substream \<Rightarrow> (bytes io_result \<times> substream) async" where
  "cmd_read_response E io =
     bind (ns_read E MAX_SIZE io) (\<lambda>(res, io).
     case res of
       Inl e \<Rightarrow> Ret (Inl ErrorKind_InvalidData, io)
     | Inr vec \<Rightarrow> if vec = [] then Ret (Inr [], io) else Ret (Inr vec, io))"

definition cmd_write_request :: "ext \<Rightarrow> substream \<Rightarrow> command \<Rightarrow> unit io_result \<times> substream" where
  "cmd_write_request E io request = ns_send E io (enc (c_command E) request)"

definition cmd_write_response :: "ext \<Rightarrow> substream \<Rightarrow> bytes \<Rightarrow> unit io_result \<times> substream" where
  "cmd_write_response E io data = ns_send E io data"

section \<open>Acknowledgement\<close>

definition ack_protocol_name :: string where "ack_protocol_name = ''/ack''"

definition ack_read_request :: "ext \<Rightarrow> substream \<Rightarrow> (ack io_result \<times> substream) async" where
  "ack_read_request E io =
     bind (ns_read E MAX_SIZE io) (\<lambda>(res, io).
     case res of
       Inl e \<Rightarrow> Ret (Inl ErrorKind_InvalidData, io)
     | Inr vec \<Rightarrow>
         if vec = [] then Ret (Inl ErrorKind_InvalidData, io)
         else bind (unwrap (dec (c_ack E) vec)) (\<lambda>m. Ret (Inr m, io)))"

definition ack_read_response :: "ext \<Rightarrow> substream \<Rightarrow> (bytes io_result \<times> substream) async" where
  "ack_read_response E io =
     bind (ns_read E MAX_SIZE io) (\<lambda>(res, io).
     case res of
       Inl e \<Rightarrow> Ret (Inl ErrorKind_InvalidData, io)
     | Inr vec \<Rightarrow> if vec = [] then Ret (Inr [], io) else Ret (Inr vec, io))"

definition ack_write_request :: "ext \<Rightarrow> substream \<Rightarrow> ack \<Rightarrow> unit io_result \<times> substream" where
  "ack_write_request E io request = ns_send E io (enc (c_ack E) request)"

definition ack_write_response :: "ext \<Rightarrow> substream \<Rightarrow> bytes \<Rightarrow> unit io_result \<times> substream" where
  "ack_write_response E io data = ns_send E io data"

section \<open>The contract\<close>

text \<open>
  A request goes out as its encoding behind its length. Read off a socket, an encoding that is not
  empty and within the limit gives the request; an empty or longer one is an error.
\<close>

locale request_codec =
  fixes read_request :: "ext \<Rightarrow> substream \<Rightarrow> ('m io_result \<times> substream) async"
    and write_request :: "ext \<Rightarrow> substream \<Rightarrow> 'm \<Rightarrow> unit io_result \<times> substream"
    and encoded :: "ext \<Rightarrow> 'm \<Rightarrow> bytes"
  assumes writes: "write_request E s m = ns_send E s (encoded E m)"
    and reads: "ns_read E MAX_SIZE s = Ret (Inr (encoded E m), s') \<Longrightarrow> protos_ok E \<Longrightarrow> encoded E m \<noteq> [] \<Longrightarrow>
      run (read_request E s) w = Done (Inr m, s') w"
    and reads_error: "ns_read E MAX_SIZE s = Ret (res, s') \<Longrightarrow> res = Inl e \<or> res = Inr [] \<Longrightarrow>
      run (read_request E s) w = Done (Inl ErrorKind_InvalidData, s') w"
begin

lemma delivered:
  assumes "protos_ok E" and "read_one_ok E" and "\<not> ns_broken s" and "ns_written s = []"
  shows "\<exists>s' t'. write_request E s m = (Inr (), s') \<and>
    run (read_request E (t\<lparr>ns_incoming := ns_written s' @ rest\<rparr>)) w =
      Done (if encoded E m = [] \<or> MAX_SIZE < length (encoded E m) then Inl ErrorKind_InvalidData else Inr m, t') w"
proof -
  let ?t = "t\<lparr>ns_incoming := len_prefixed E (encoded E m) @ rest\<rparr>"
  consider "MAX_SIZE < length (encoded E m)" | "encoded E m = []" | "encoded E m \<noteq> []" "length (encoded E m) \<le> MAX_SIZE"
    by linarith
  then have "\<exists>t'. run (read_request E ?t) w =
      Done (if encoded E m = [] \<or> MAX_SIZE < length (encoded E m) then Inl ErrorKind_InvalidData else Inr m, t') w"
  proof cases
    case 1
    then obtain t' e where "ns_read E MAX_SIZE ?t = Ret (Inl e, t')"
      using ns_read_long [OF assms(2)] by blast
    with reads_error [OF this] 1 show ?thesis by auto
  next
    case 2
    then have "ns_read E MAX_SIZE ?t = Ret (Inr [], t\<lparr>ns_incoming := rest\<rparr>)"
      using ns_read_message [OF assms(2), where m = "[]" and lim = MAX_SIZE and s = t] by simp
    with reads_error [OF this] 2 show ?thesis by auto
  next
    case 3
    then have "ns_read E MAX_SIZE ?t = Ret (Inr (encoded E m), t\<lparr>ns_incoming := rest\<rparr>)"
      using assms(2) by simp
    with reads [OF this assms(1)] 3 show ?thesis by auto
  qed
  with assms(3,4) show ?thesis by (simp add: writes ns_send_def)
qed

end

interpretation proxy: request_codec proxy_read_request proxy_write_request "\<lambda>E. enc (c_request E)"
  by unfold_locales (auto simp: proxy_read_request_def proxy_write_request_def MAX_SIZE_def)

interpretation cmd: request_codec cmd_read_request cmd_write_request "\<lambda>E. enc (c_command E)"
  by unfold_locales (auto simp: cmd_read_request_def cmd_write_request_def)

interpretation ackc: request_codec ack_read_request ack_write_request "\<lambda>E. enc (c_ack E)"
  by unfold_locales (auto simp: ack_read_request_def ack_write_request_def)

end
