(* ===== verification/Host.thy ===== *)
theory Host
  imports System Protocols
begin

text \<open>
  \<open>sdk/host.rs\<close>: how a node starts. The transport, the behaviours of \<open>libp2p\<close> and the configuration
  of gossip are built by calls into packages; what remains is the key pair, the bootstrap address,
  the empty tables and the tasks that are spawned. A panic is \<open>None\<close>.
\<close>

section \<open>The bootstrap address\<close>

text \<open>\<open>str::split('/')\<close> and \<open>str::find(pat)\<close>.\<close>

fun split_slash :: "string \<Rightarrow> string list" where
  "split_slash [] = [[]]"
| "split_slash (c # s) =
     (if c = CHR ''/'' then [] # split_slash s
      else case split_slash s of [] \<Rightarrow> [[c]] | p # ps \<Rightarrow> (c # p) # ps)"

fun find_str :: "string \<Rightarrow> string \<Rightarrow> nat option" where
  "find_str pat [] = (if pat = [] then Some 0 else None)"
| "find_str pat (c # s) =
     (if take (length pat) (c # s) = pat then Some 0 else map_option Suc (find_str pat s))"

text \<open>\<open>str::split_at\<close>: a panic past the end or inside a character.\<close>

definition split_at :: "string \<Rightarrow> nat \<Rightarrow> (string \<times> string) option" where
  "split_at s i =
     (if i \<le> length s \<and> (i < length s \<longrightarrow> \<not> is_continuation (s ! i))
      then Some (take i s, drop i s) else None)"

definition bootstrap_id :: "ext \<Rightarrow> string \<Rightarrow> peer_id option" where
  "bootstrap_id E bootstrap_addr = peer_of_base58 E (last (split_slash bootstrap_addr))"

text \<open>\<open>index - 1\<close> underflows at 0: a panic there, or in \<open>split_at\<close> when it wraps.\<close>

definition bootstrap_multiaddr :: "ext \<Rightarrow> string \<Rightarrow> string option" where
  "bootstrap_multiaddr E bootstrap_addr =
     (case parse_multiaddr E bootstrap_addr of
        None \<Rightarrow> None
      | Some addr \<Rightarrow>
          (case find_str ''p2p'' bootstrap_addr of
             None \<Rightarrow> Some addr
           | Some index \<Rightarrow>
               if index = 0 then None
               else case split_at bootstrap_addr (index - 1) of
                      None \<Rightarrow> None
                    | Some (front, _) \<Rightarrow> parse_multiaddr E front))"

section \<open>Behaviours\<close>

text \<open>
  The names that the code gives to protocols: those of its own behaviours, the version that it
  announces by identification, and the name of its Kademlia network.
\<close>

definition supported_protocols :: "string list" where
  "supported_protocols =
     [proxy_protocol_name, cmd_protocol_name, ack_protocol_name, ''/ipfs/id/1.0.0'',
      ''/whitenoise_dht/kad/1.0.0''] @ relay_protocol_info"

text \<open>Messages are known by the hash of their data, printed in decimal.\<close>

definition new_gossipsub :: "ext \<Rightarrow> gossipsub" where
  "new_gossipsub E =
     \<lparr>gs_heartbeat_secs = 10, gs_validation_mode = ValidationMode_Permissive,
      gs_authenticity = MessageAuthenticity_Anonymous,
      gs_message_id = (\<lambda>data. nat_to_string (unat (default_hash E data))),
      gs_topics = [''noise_topic'']\<rparr>"

section \<open>Starting\<close>

definition load_keypair :: "ext \<Rightarrow> keypair option \<Rightarrow> key_type \<Rightarrow> db \<Rightarrow> (keypair \<times> db) option" where
  "load_keypair E key_pair key_type db =
     (case key_pair of
        None \<Rightarrow> get_default_account_keypair E 0 db key_type
      | Some x \<Rightarrow> Some (x, db))"

text \<open>The bootstrap node, and what is added to Kademlia for it.\<close>

definition add_bootstrap ::
  "ext \<Rightarrow> string option \<Rightarrow> (peer_id option \<times> (peer_id \<times> string) list) option" where
  "add_bootstrap E bootstrap_addr_option =
     (case bootstrap_addr_option of
        None \<Rightarrow> Some (None, [])
      | Some bootstrap_addr \<Rightarrow>
          (case (bootstrap_id E bootstrap_addr, bootstrap_multiaddr E bootstrap_addr) of
             (Some p, Some m) \<Rightarrow> Some (Some p, [(p, m)])
           | _ \<Rightarrow> None))"

definition initial_world :: "run_mode \<Rightarrow> keypair \<Rightarrow> peer_id option \<Rightarrow> nat \<Rightarrow> world" where
  "initial_world mode id_keys bootstrap_peer_id n =
     \<lparr>node_request_sender = [], event_bus = Map.empty, node_keypair = id_keys, proxy_id = None,
      relay_in_streams = [], relay_out_streams = [], circuit_task = Map.empty,
      client_wn_map = Map.empty, client_peer_map = Map.empty, session_map = Map.empty,
      circuit_map = Map.empty, probe_map = Map.empty, boot_peer_id = bootstrap_peer_id,
      request_loop_alive = True, proxy_loop_alive = True, cmd_loop_alive = True,
      publish_loop_alive = (mode = RunMode_Server),
      oneshots = (\<lambda>_. Oneshot_Canceled), out_chan = (\<lambda>_. []), in_chan = (\<lambda>_. []),
      conn_chan = (\<lambda>_. []), transports = Map.empty, next_handle = 0, draws = n,
      proxy_request_channel = [], cmd_request_channel = [], publish_channel = [],
      spawned = (case mode of RunMode_Server \<Rightarrow> [T_process_publish_request] | RunMode_Client \<Rightarrow> []) @
        [T_process_proxy_request, T_process_cmd_request],
      poisoned = (\<lambda>_. False)\<rparr>"

definition initial_swarm :: "ext \<Rightarrow> (peer_id \<times> string) list \<Rightarrow> swarm" where
  "initial_swarm E kad =
     \<lparr>out_events = [], dive_events = [], rb_addresses = Map.empty, sub_written = (\<lambda>_. []),
      sub_closed = (\<lambda>_. False), sub_got = (\<lambda>_. []), polling = [], proxy_sent = [], cmd_sent = [], ack_sent = [],
      proxy_add_address = [], ack_add_address = [], kad_add_address = kad, kbuckets = [],
      kad_closest = [], gossip_sub = new_gossipsub E, gossip_published = []\<rparr>"

text \<open>\<open>listen_ok\<close> says whether \<open>Swarm::listen_on\<close> succeeds on an address.\<close>

definition listen :: "ext \<Rightarrow> (string \<Rightarrow> bool) \<Rightarrow> string option \<Rightarrow> bool" where
  "listen E listen_ok port_option =
     (case port_option of
        None \<Rightarrow> True
      | Some port \<Rightarrow>
          (case parse_multiaddr E (''/ip4/0.0.0.0/tcp/'' @ port) of
             None \<Rightarrow> False | Some addr \<Rightarrow> listen_ok addr))"

text \<open>The two arms of \<open>match run_mode\<close>. The server also looks for the peers next to a random key.\<close>

definition start_client_mode ::
  "ext \<Rightarrow> (string \<Rightarrow> bool) \<Rightarrow> string option \<Rightarrow> (peer_id \<times> string) list \<Rightarrow> swarm option" where
  "start_client_mode E listen_ok port_option kad =
     (if listen E listen_ok port_option then Some (initial_swarm E kad) else None)"

definition start_server_mode ::
  "ext \<Rightarrow> (string \<Rightarrow> bool) \<Rightarrow> string option \<Rightarrow> (peer_id \<times> string) list \<Rightarrow> swarm option" where
  "start_server_mode E listen_ok port_option kad =
     (let to_search = into_peer_id E (KeySecp256k1 (secp_generate E 1));
          swarm1 = (initial_swarm E kad)\<lparr>kad_closest := [to_search]\<rparr> in
      if listen E listen_ok port_option then Some swarm1 else None)"

definition start ::
  "ext \<Rightarrow> (string \<Rightarrow> bool) \<Rightarrow> string option \<Rightarrow> string option \<Rightarrow> run_mode \<Rightarrow> keypair option \<Rightarrow> key_type \<Rightarrow> db \<Rightarrow>
   (world \<times> swarm \<times> db) option" where
  "start E listen_ok port_option bootstrap_addr_option mode key_pair key_type db =
     (case load_keypair E key_pair key_type db of
        None \<Rightarrow> None
      | Some (id_keys, db') \<Rightarrow>
          (case add_bootstrap E bootstrap_addr_option of
             None \<Rightarrow> None
           | Some (boot, kad) \<Rightarrow>
               (case (case mode of
                        RunMode_Client \<Rightarrow> start_client_mode E listen_ok port_option kad
                      | RunMode_Server \<Rightarrow> start_server_mode E listen_ok port_option kad) of
                  None \<Rightarrow> None
                | Some n \<Rightarrow> Some (initial_world mode id_keys boot 2, n, db'))))"

definition start_server ::
  "ext \<Rightarrow> (string \<Rightarrow> bool) \<Rightarrow> string option \<Rightarrow> string option \<Rightarrow> string \<Rightarrow> keypair option \<Rightarrow> db \<Rightarrow>
   (world \<times> swarm \<times> db) option" where
  "start_server E listen_ok bootstrap_addr_option port_option key_type key_pair db =
     (case start E listen_ok port_option bootstrap_addr_option RunMode_Server key_pair
             (key_type_from_text_str key_type) db of
        None \<Rightarrow> None
      | Some (w, n, db') \<Rightarrow> Some (w\<lparr>spawned := spawned w @ [T_process_new_stream]\<rparr>, n, db'))"

section \<open>Lemmas\<close>

lemma wire_inv_initial: "wire_inv E (initial_world mode k boot n)"
  by (cases mode) (auto simp: wire_inv_def node_inv_def initial_world_def)

lemma start_world:
  "start E ok port boot mode kp kt db = Some (w, n, db') \<Longrightarrow> \<exists>k b. w = initial_world mode k b 2"
  by (auto simp: start_def split: option.splits prod.splits)

lemma start_server_wire_inv:
  "start_server E ok boot port kt kp db = Some (w, n, db') \<Longrightarrow> wire_inv E w"
  using wire_inv_initial [of E]
  by (fastforce simp: start_server_def wire_inv_def node_inv_def split: option.splits prod.splits dest: start_world)

lemma split_slash_not_Nil [simp]: "split_slash s \<noteq> []"
  by (induction s) (auto split: list.splits)

lemma split_slash_app:
  "split_slash (a @ CHR ''/'' # b) = split_slash a @ split_slash b"
  by (induction a) (auto split: list.splits)

lemma split_slash_no_slash: "CHR ''/'' \<notin> set s \<Longrightarrow> split_slash s = [s]"
  by (induction s) auto

lemma last_split_slash: "CHR ''/'' \<notin> set b \<Longrightarrow> last (split_slash (a @ CHR ''/'' # b)) = b"
  by (simp add: split_slash_app split_slash_no_slash)

lemma find_str_Some: "find_str pat s = Some i \<Longrightarrow> \<exists>b. s = take i s @ pat @ b \<and> i + length pat \<le> length s"
proof (induction s arbitrary: i)
  case (Cons c s)
  show ?case
  proof (cases "take (length pat) (c # s) = pat")
    case True
    with Cons.prems have "i = 0" by simp
    moreover from True have "length pat \<le> length (c # s)" by (metis length_take min.cobounded1)
    ultimately show ?thesis using True by (metis append_take_drop_id add_0 append_Nil take0)
  next
    case False
    with Cons.prems obtain j where "find_str pat s = Some j" "i = Suc j" by auto
    with Cons.IH show ?thesis by fastforce
  qed
qed (auto split: if_splits)

end
