(* ===== verification/Client.thy ===== *)
theory Client
  imports Host
begin

text \<open>
  \<open>sdk/client.rs\<close>, the client library, and \<open>whitenoise-client/src/main.rs\<close>, the chat program built
  on it.
\<close>

section \<open>The client\<close>

record client =
  cl_bootstrap_addr_str :: string
  cl_bootstrap_peer_id :: peer_id
  new_connected_session :: "string list"
  exist_session :: "string \<Rightarrow> bool option"

definition client_init ::
  "ext \<Rightarrow> string \<Rightarrow> key_type \<Rightarrow> keypair option \<Rightarrow> db \<Rightarrow> (client \<times> world \<times> swarm \<times> db) option" where
  "client_init E bootstrap_addr_str key_type keypair db =
     (case start E (\<lambda>_. True) None (Some bootstrap_addr_str) RunMode_Client keypair key_type db of
        None \<Rightarrow> None
      | Some (w, n, db') \<Rightarrow>
          (case bootstrap_id E bootstrap_addr_str of
             None \<Rightarrow> None
           | Some bootstrap_peer_id \<Rightarrow>
               Some (\<lparr>cl_bootstrap_addr_str = bootstrap_addr_str,
                      cl_bootstrap_peer_id = bootstrap_peer_id,
                      new_connected_session = [], exist_session = Map.empty\<rparr>,
                     w\<lparr>spawned := spawned w @ [T_process_new_stream]\<rparr>, n, db')))"

section \<open>Operations\<close>

text \<open>The number of peers asked for is always 10: the argument is not used.\<close>

definition get_main_net_peers :: "ext \<Rightarrow> client \<Rightarrow> i32 \<Rightarrow> peer_id list async" where
  "get_main_net_peers E cl cnt =
     bind (unwrap (parse_multiaddr E (cl_bootstrap_addr_str cl))) (\<lambda>bootstrap_addr.
     bind (get_main_nets E 10 (cl_bootstrap_peer_id cl) bootstrap_addr) (\<lambda>peer_list.
     unwrap (those (map (\<lambda>x. peer_of_base58 E (ni_id x)) (pl_peers peer_list)))))"

definition register :: "ext \<Rightarrow> peer_id \<Rightarrow> bool async" where
  "register E peer_id = register_proxy E peer_id"

definition client_dial :: "ext \<Rightarrow> string \<Rightarrow> string async" where
  "client_dial E remote_id = dial E remote_id"

definition client_send_message :: "ext \<Rightarrow> string \<Rightarrow> bytes \<Rightarrow> unit async" where
  "client_send_message E session_id data = send_message E session_id data"

definition get_circuit :: "string \<Rightarrow> circuit_conn option async" where
  "get_circuit session_id = gets (\<lambda>w. circuit_map w session_id)"

definition disconnect_circuit :: "string \<Rightarrow> unit async" where
  "disconnect_circuit session_id = handle_close_session session_id"

definition get_whitenoise_id :: "ext \<Rightarrow> string async" where
  "get_whitenoise_id E =
     bind (gets node_keypair) (\<lambda>k. unwrap (from_keypair_to_whitenoise_id E k))"

text \<open>The receiver waits while the queue is empty: \<open>None\<close> here.\<close>

definition notify_next_session :: "client \<Rightarrow> (string \<times> client) option" where
  "notify_next_session cl =
     (case new_connected_session cl of
        [] \<Rightarrow> None
      | sid # q \<Rightarrow> Some (sid, cl\<lparr>new_connected_session := q\<rparr>))"

section \<open>New sessions\<close>

text \<open>
  One round of \<open>process_new_session\<close>: \<open>len\<close> is the size of the map when it is first read, \<open>order\<close>
  the order in which the hash map is iterated. The last connection not reported before is the one
  considered.
\<close>

definition scan_new_sessions ::
  "string list \<Rightarrow> (string \<Rightarrow> circuit_conn option) \<Rightarrow> (string \<Rightarrow> bool option) \<Rightarrow>
   (string \<times> circuit_conn) option" where
  "scan_new_sessions order circuits exist =
     foldl (\<lambda>found sid.
       case circuits sid of
         None \<Rightarrow> found
       | Some cc \<Rightarrow> if exist sid = None then Some (sid, cc) else found) None order"

definition process_new_session ::
  "nat \<Rightarrow> string list \<Rightarrow> (string \<Rightarrow> circuit_conn option) \<Rightarrow> client \<Rightarrow> client" where
  "process_new_session len order circuits cl =
     (if len > 0
      then case scan_new_sessions order circuits (exist_session cl) of
             None \<Rightarrow> cl
           | Some (session_id, cc) \<Rightarrow>
               if cc_transport_state cc \<noteq> None
               then cl\<lparr>new_connected_session := new_connected_session cl @ [session_id],
                       exist_session := (exist_session cl)(session_id \<mapsto> True)\<rparr>
               else cl
      else cl)"

section \<open>The chat program\<close>

text \<open>\<open>index %= peer_list.len()\<close>: a panic when no peer is known.\<close>

definition choose_proxy :: "ext \<Rightarrow> nat \<Rightarrow> peer_id list \<Rightarrow> peer_id option" where
  "choose_proxy E n peer_list =
     (if peer_list = [] then None
      else index_opt peer_list (unat (random_usize E n mod of_nat (length peer_list))))"

text \<open>The caller polls every 20 ms until the handshake is done; it panics when the circuit is gone.\<close>

definition caller_wait :: "string \<Rightarrow> circuit_conn async" where
  "caller_wait session_id =
     bind (await (\<lambda>w. case circuit_map w session_id of
                    None \<Rightarrow> True | Some cc \<Rightarrow> cc_transport_state cc \<noteq> None)
             (\<lambda>w. circuit_map w session_id) (\<lambda>w. w)) unwrap"

definition chat_payload :: "ext \<Rightarrow> chat_message \<Rightarrow> bytes option" where
  "chat_payload E chat_message =
     (let e = enc (c_chat E) chat_message in
      if length e = chunk_mut_len E 4 (length e) then Some (put_u32 (length e) @ e) else None)"

definition chat_send :: "ext \<Rightarrow> string \<Rightarrow> string \<Rightarrow> bytes \<Rightarrow> unit async" where
  "chat_send E session_id nick_name line =
     bind (unwrap (chat_payload E \<lparr>cm_peer_id = nick_name, cm_data = line\<rparr>)) (\<lambda>payload.
     client_send_message E session_id payload)"

definition chat_receive :: "ext \<Rightarrow> circuit_conn \<Rightarrow> bytes \<Rightarrow> (chat_message \<times> bytes) async" where
  "chat_receive E circuit_conn buf =
     bind (circuit_conn_read E circuit_conn buf) (\<lambda>(data, buf).
     bind (unwrap (dec (c_chat E) data)) (\<lambda>chat_message. Ret (chat_message, buf)))"

text \<open>
  The loop of both sides. In each round \<open>select!\<close> takes the branch that is ready: a line that was
  typed, or a message of the connection. A \<open>read\<close> that loses is dropped; it has one \<open>await\<close>, on the
  channel, and took nothing from there. The messages shown are collected, and the loop is followed
  for as many rounds as the list of events has.
\<close>

datatype chat_event = Chat_line bytes | Chat_data

fun chat_loop ::
  "ext \<Rightarrow> string \<Rightarrow> string \<Rightarrow> circuit_conn \<Rightarrow> bytes \<Rightarrow> chat_event list \<Rightarrow> chat_message list async" where
  "chat_loop E session_id nick_name circuit_conn buf [] = Ret []"
| "chat_loop E session_id nick_name circuit_conn buf (Chat_line line # evs) =
     bind (chat_send E session_id nick_name line) (\<lambda>_.
     chat_loop E session_id nick_name circuit_conn buf evs)"
| "chat_loop E session_id nick_name circuit_conn buf (Chat_data # evs) =
     bind (chat_receive E circuit_conn buf) (\<lambda>(chat_message, buf).
     bind (chat_loop E session_id nick_name circuit_conn buf evs) (\<lambda>shown.
     Ret (chat_message # shown)))"

text \<open>The two ways into a chat.\<close>

definition caller :: "ext \<Rightarrow> string \<Rightarrow> string \<Rightarrow> chat_event list \<Rightarrow> chat_message list async" where
  "caller E remote_whitenoise_id nick_name evs =
     bind (client_dial E remote_whitenoise_id) (\<lambda>session_id.
     bind (caller_wait session_id) (\<lambda>circuit_conn.
     chat_loop E session_id nick_name circuit_conn (replicate BUF_LEN 0) evs))"

definition answer :: "ext \<Rightarrow> string \<Rightarrow> string \<Rightarrow> chat_event list \<Rightarrow> chat_message list async" where
  "answer E session_id nick_name evs =
     bind (get_circuit session_id) (\<lambda>cc_opt.
     bind (unwrap cc_opt) (\<lambda>circuit_conn.
     chat_loop E session_id nick_name circuit_conn (replicate BUF_LEN 0) evs))"

text \<open>
  The answerer takes its session from the queue that \<open>process_new_session\<close> fills; \<open>next_session\<close> is
  what it gets there.
\<close>

definition start_client ::
  "ext \<Rightarrow> client \<Rightarrow> string \<Rightarrow> string option \<Rightarrow> string \<Rightarrow> chat_event list \<Rightarrow> chat_message list async" where
  "start_client E cl nick_name remote_whitenoise_id_option next_session evs =
     bind (get_main_net_peers E cl 10) (\<lambda>peer_list.
     bind draw (\<lambda>n.
     bind (unwrap (choose_proxy E n peer_list)) (\<lambda>proxy_remote_id.
     bind (register E proxy_remote_id) (\<lambda>_.
     case remote_whitenoise_id_option of
       Some remote_whitenoise_id \<Rightarrow> caller E remote_whitenoise_id nick_name evs
     | None \<Rightarrow> answer E next_session nick_name evs))))"

section \<open>The programs\<close>

text \<open>
  What \<open>clap\<close> makes of the command lines: the values of the arguments that were given, and of the
  sub-command if it was given.
\<close>

record start_matches =
  sm_port :: "string option"
  sm_bootstrap :: "string option"
  sm_ktype :: "string option"

record chat_matches =
  ch_bootstrap :: "string option"
  ch_id :: "string option"
  ch_nick :: "string option"
  ch_ktype :: "string option"

definition unwrap_or :: "'a option \<Rightarrow> 'a \<Rightarrow> 'a" where
  "unwrap_or x d = (case x of None \<Rightarrow> d | Some v \<Rightarrow> v)"

datatype node_run = Main_exits | Main_panics | Main_serves world swarm db

text \<open>
  \<open>main\<close> of the node, built with the feature \<open>prod\<close> or without. It holds the sender of the channel
  that it waits on, so a node that started serves until the process is killed.
\<close>

definition node_main ::
  "ext \<Rightarrow> (string \<Rightarrow> bool) \<Rightarrow> bool \<Rightarrow> start_matches option \<Rightarrow> db \<Rightarrow> node_run" where
  "node_main E listen_ok is_prod start_args db =
     (if is_prod
      then case start_args of
             None \<Rightarrow> Main_exits
           | Some x \<Rightarrow>
               (case start_server E listen_ok (sm_bootstrap x) (sm_port x)
                       (unwrap_or (sm_ktype x) ''ed25519'') None db of
                  None \<Rightarrow> Main_panics
                | Some (w, n, db') \<Rightarrow> Main_serves w n db')
      else Main_exits)"

text \<open>
  \<open>main\<close> of the chat program up to the start of its client: \<open>None\<close> when there is no sub-command, a
  panic (\<open>Some None\<close>) without a bootstrap address or when the client does not start.
\<close>

definition chat_main ::
  "ext \<Rightarrow> chat_matches option \<Rightarrow> db \<Rightarrow> (client \<times> string \<times> string option \<times> world \<times> swarm \<times> db) option option" where
  "chat_main E chat_args db =
     map_option (\<lambda>x.
       case ch_bootstrap x of
         None \<Rightarrow> None
       | Some bootstrap_addr_str \<Rightarrow>
           map_option (\<lambda>(cl, w, n, db'). (cl, unwrap_or (ch_nick x) ''Alice'', ch_id x, w, n, db'))
             (client_init E bootstrap_addr_str
                (key_type_from_text_str (unwrap_or (ch_ktype x) ''ed25519'')) None db)) chat_args"

section \<open>Lemmas\<close>

lemma client_init_wire_inv: "client_init E addr kt kp db = Some (cl, w, n, db') \<Longrightarrow> wire_inv E w"
proof -
  assume "client_init E addr kt kp db = Some (cl, w, n, db')"
  then obtain v m d where
    s: "start E (\<lambda>_. True) None (Some addr) RunMode_Client kp kt db = Some (v, m, d)"
    and w: "w = v\<lparr>spawned := spawned v @ [T_process_new_stream]\<rparr>"
    by (auto simp: client_init_def split: option.split_asm prod.split_asm)
  from start_world [OF s] wire_inv_initial have "wire_inv E v" by auto
  with w show ?thesis by (simp add: wire_inv_def node_inv_def)
qed

text \<open>The rounds of the loop, each with what it saw.\<close>

fun new_session_rounds ::
  "(nat \<times> string list \<times> (string \<Rightarrow> circuit_conn option)) list \<Rightarrow> client \<Rightarrow> client" where
  "new_session_rounds [] cl = cl"
| "new_session_rounds ((len, order, cm) # obs) cl =
     new_session_rounds obs (process_new_session len order cm cl)"

lemma scan_foldl:
  "foldl (\<lambda>found sid. case cm sid of None \<Rightarrow> found
      | Some cc \<Rightarrow> if exist sid = None then Some (sid, cc) else found) found order = Some (sid, cc) \<Longrightarrow>
   found = Some (sid, cc) \<or> sid \<in> set order \<and> cm sid = Some cc \<and> exist sid = None"
proof (induction order arbitrary: found)
  case (Cons s order)
  then show ?case by (auto split: option.splits if_splits dest!: Cons.IH)
qed simp

lemma scan_Some:
  "scan_new_sessions order cm exist = Some (sid, cc) \<Longrightarrow>
   sid \<in> set order \<and> cm sid = Some cc \<and> exist sid = None"
  unfolding scan_new_sessions_def by (drule scan_foldl) simp

lemma scan_foldl_None:
  "foldl (\<lambda>found sid. case cm sid of None \<Rightarrow> found
      | Some cc \<Rightarrow> if exist sid = None then Some (sid, cc) else found) found order = None \<longleftrightarrow>
   found = None \<and> (\<forall>sid \<in> set order. cm sid = None \<or> exist sid \<noteq> None)"
  by (induction order arbitrary: found) (auto split: option.splits)

lemma scan_None:
  "scan_new_sessions order cm exist = None \<longleftrightarrow> (\<forall>sid \<in> set order. cm sid = None \<or> exist sid \<noteq> None)"
  unfolding scan_new_sessions_def by (simp add: scan_foldl_None)

lemma process_new_session_cases:
  obtains "process_new_session len order cm cl = cl"
  | sid cc where "cm sid = Some cc" "cc_transport_state cc \<noteq> None" "exist_session cl sid = None"
      "process_new_session len order cm cl =
         cl\<lparr>new_connected_session := new_connected_session cl @ [sid],
            exist_session := (exist_session cl)(sid \<mapsto> True)\<rparr>"
proof (cases "scan_new_sessions order cm (exist_session cl)")
  case None
  then have "process_new_session len order cm cl = cl" by (simp add: process_new_session_def)
  then show ?thesis by (rule that(1))
next
  case (Some r)
  obtain sid cc where r: "r = (sid, cc)" by (cases r)
  show ?thesis
  proof (cases "len > 0 \<and> cc_transport_state cc \<noteq> None")
    case True
    then show ?thesis
      using Some r scan_Some [of order cm "exist_session cl" sid cc]
      by (intro that(2) [of sid cc]) (auto simp: process_new_session_def)
  next
    case False
    then have "process_new_session len order cm cl = cl"
      using Some r by (auto simp: process_new_session_def)
    then show ?thesis by (rule that(1))
  qed
qed

text \<open>What the loop reports: the ids it adds to the queue were ready when it saw them, and new.\<close>

definition seen_ready ::
  "(nat \<times> string list \<times> (string \<Rightarrow> circuit_conn option)) list \<Rightarrow> string \<Rightarrow> bool" where
  "seen_ready obs sid =
     (\<exists>(len, order, cm) \<in> set obs. \<exists>cc. cm sid = Some cc \<and> cc_transport_state cc \<noteq> None)"

definition reports ::
  "(nat \<times> string list \<times> (string \<Rightarrow> circuit_conn option)) list \<Rightarrow> client \<Rightarrow> client \<Rightarrow> string list \<Rightarrow> bool" where
  "reports obs cl cl' ids \<longleftrightarrow>
     new_connected_session cl' = new_connected_session cl @ ids \<and> distinct ids \<and>
     dom (exist_session cl') = dom (exist_session cl) \<union> set ids \<and>
     (\<forall>sid \<in> set ids. sid \<notin> dom (exist_session cl) \<and> seen_ready obs sid)"

lemma reports_step: "\<exists>ids. reports [(len, order, cm)] cl (process_new_session len order cm cl) ids"
proof (rule process_new_session_cases [of len order cm cl])
  assume "process_new_session len order cm cl = cl"
  then have "reports [(len, order, cm)] cl (process_new_session len order cm cl) []"
    by (simp add: reports_def)
  then show ?thesis by blast
next
  fix sid cc
  assume new: "cm sid = Some cc" "cc_transport_state cc \<noteq> None" "exist_session cl sid = None"
    and step: "process_new_session len order cm cl =
        cl\<lparr>new_connected_session := new_connected_session cl @ [sid],
           exist_session := (exist_session cl)(sid \<mapsto> True)\<rparr>"
  then have "reports [(len, order, cm)] cl (process_new_session len order cm cl) [sid]"
    by (auto simp: reports_def seen_ready_def)
  then show ?thesis by blast
qed

lemma seen_ready_append: "seen_ready (a @ b) sid \<longleftrightarrow> seen_ready a sid \<or> seen_ready b sid"
  by (simp add: seen_ready_def bex_Un)

lemma reports_compose:
  "reports obs1 a b ids1 \<Longrightarrow> reports obs2 b c ids2 \<Longrightarrow> reports (obs1 @ obs2) a c (ids1 @ ids2)"
  by (auto simp: reports_def seen_ready_append)

lemma new_session_rounds_report: "\<exists>ids. reports obs cl (new_session_rounds obs cl) ids"
proof (induction obs arbitrary: cl)
  case Nil
  have "reports [] cl cl []" by (simp add: reports_def)
  then show ?case by auto
next
  case (Cons ob obs)
  obtain len order cm where ob: "ob = (len, order, cm)" by (cases ob)
  obtain ids1 where "reports [ob] cl (process_new_session len order cm cl) ids1"
    using reports_step ob by blast
  moreover obtain ids2 where "reports obs (process_new_session len order cm cl)
      (new_session_rounds obs (process_new_session len order cm cl)) ids2"
    using Cons.IH by blast
  ultimately have "reports ([ob] @ obs) cl
      (new_session_rounds obs (process_new_session len order cm cl)) (ids1 @ ids2)"
    by (rule reports_compose)
  then show ?case unfolding ob by auto
qed

lemma process_new_session_progress:
  assumes "order \<noteq> []" and "0 < len"
    and ready: "\<forall>sid \<in> set order. \<exists>cc. cm sid = Some cc \<and> cc_transport_state cc \<noteq> None"
    and some: "\<exists>sid \<in> set order. exist_session cl sid = None"
  shows "\<exists>sid \<in> set order. exist_session cl sid = None \<and>
    exist_session (process_new_session len order cm cl) = (exist_session cl)(sid \<mapsto> True)"
proof -
  from some ready have "\<not> (\<forall>sid \<in> set order. cm sid = None \<or> exist_session cl sid \<noteq> None)"
    by (metis option.discI)
  then have "scan_new_sessions order cm (exist_session cl) \<noteq> None" by (simp only: scan_None) simp
  then obtain sid cc where s: "scan_new_sessions order cm (exist_session cl) = Some (sid, cc)" by auto
  from scan_Some [OF s] ready have "sid \<in> set order" "exist_session cl sid = None"
    "cc_transport_state cc \<noteq> None" by force+
  with s assms(2) show ?thesis by (auto simp: process_new_session_def)
qed

lemma new_session_rounds_all:
  assumes "0 < len"
    and ready: "\<forall>sid \<in> set order. \<exists>cc. cm sid = Some cc \<and> cc_transport_state cc \<noteq> None"
    and "card {sid \<in> set order. exist_session cl sid = None} \<le> k"
  shows "\<forall>sid \<in> set order. exist_session (new_session_rounds (replicate k (len, order, cm)) cl) sid \<noteq> None"
  using assms(3)
proof (induction k arbitrary: cl)
  case (Suc k)
  let ?cl = "process_new_session len order cm cl"
  have "card {sid \<in> set order. exist_session ?cl sid = None} \<le> k"
  proof (cases "\<exists>sid \<in> set order. exist_session cl sid = None")
    case True
    with process_new_session_progress [of order len cm cl] assms(1) ready obtain sid
      where sid: "sid \<in> set order" "exist_session cl sid = None"
        "exist_session ?cl = (exist_session cl)(sid \<mapsto> True)" by force
    then have "{s \<in> set order. exist_session ?cl s = None} =
        {s \<in> set order. exist_session cl s = None} - {sid}" by auto
    with sid Suc.prems show ?thesis by simp
  next
    case False
    then have "?cl = cl" by (simp add: process_new_session_def scan_None [THEN iffD2])
    moreover from False have "{sid \<in> set order. exist_session cl sid = None} = {}" by auto
    ultimately show ?thesis by (simp only: card.empty)
  qed
  from Suc.IH [OF this] show ?case by simp
qed auto

end
