(* ===== verification/Concrete.thy ===== *)
theory Concrete
  imports Externals
begin

text \<open>
  A concrete instance \<open>E0\<close> of the packages, for evaluating the development on concrete inputs and
  for showing that what it relies on can hold together. Messages are encoded by self-delimiting
  serialisers, put together field by field; hashes are the identity behind the two-byte multihash
  header, base58 is base 16, a Noise message is its plaintext behind a tag byte.
\<close>

section \<open>Serialisers\<close>

type_synonym 'a ser = "('a \<Rightarrow> bytes) \<times> (bytes \<Rightarrow> ('a \<times> bytes) option)"

definition ser_ok :: "'a ser \<Rightarrow> bool" where
  "ser_ok s \<longleftrightarrow> (\<forall>x r. snd s (fst s x @ r) = Some (x, r))"

definition s_byte :: "byte ser" where
  "s_byte = (\<lambda>b. [b], \<lambda>bs. case bs of [] \<Rightarrow> None | b # r \<Rightarrow> Some (b, r))"

definition s_iso :: "('b \<Rightarrow> 'a) \<Rightarrow> ('a \<Rightarrow> 'b) \<Rightarrow> 'a ser \<Rightarrow> 'b ser" where
  "s_iso f g s = (\<lambda>x. fst s (f x), \<lambda>bs. map_option (apfst g) (snd s bs))"

definition s_pair :: "'a ser \<Rightarrow> 'b ser \<Rightarrow> ('a \<times> 'b) ser" where
  "s_pair s t = (\<lambda>(x, y). fst s x @ fst t y,
     \<lambda>bs. case snd s bs of
            None \<Rightarrow> None
          | Some (x, r) \<Rightarrow> (case snd t r of None \<Rightarrow> None | Some (y, q) \<Rightarrow> Some ((x, y), q)))"

fun read_n :: "'a ser \<Rightarrow> nat \<Rightarrow> bytes \<Rightarrow> ('a list \<times> bytes) option" where
  "read_n s 0 bs = Some ([], bs)"
| "read_n s (Suc n) bs =
     (case snd s bs of
        None \<Rightarrow> None
      | Some (x, r) \<Rightarrow> (case read_n s n r of None \<Rightarrow> None | Some (xs, q) \<Rightarrow> Some (x # xs, q)))"

text \<open>A list: as many ones as it has elements, a zero, the elements.\<close>

definition s_list :: "'a ser \<Rightarrow> 'a list ser" where
  "s_list s = (\<lambda>xs. replicate (length xs) 1 @ [0] @ concat (map (fst s) xs),
     \<lambda>bs. let n = length (takeWhile (\<lambda>b. b = 1) bs) in
          if length bs \<le> n then None else read_n s n (drop (Suc n) bs))"

lemma ser_okD: "ser_ok s \<Longrightarrow> snd s (fst s x @ r) = Some (x, r)"
  by (simp add: ser_ok_def)

lemma ser_ok_byte [simp]: "ser_ok s_byte"
  by (simp add: ser_ok_def s_byte_def)

lemma ser_ok_iso: "ser_ok s \<Longrightarrow> (\<And>x. g (f x) = x) \<Longrightarrow> ser_ok (s_iso f g s)"
  by (simp add: ser_ok_def s_iso_def)

lemma ser_ok_pair [simp]: "ser_ok s \<Longrightarrow> ser_ok t \<Longrightarrow> ser_ok (s_pair s t)"
  by (auto simp: ser_ok_def s_pair_def)

lemma read_n_concat: "ser_ok s \<Longrightarrow> read_n s (length xs) (concat (map (fst s) xs) @ r) = Some (xs, r)"
  by (induction xs) (simp_all add: ser_okD)

lemma takeWhile_ones: "takeWhile (\<lambda>b. b = 1) (replicate n 1 @ 0 # r) = replicate n (1 :: byte)"
  by (induction n) simp_all

lemma ser_ok_list [simp]: "ser_ok s \<Longrightarrow> ser_ok (s_list s)"
  by (simp add: ser_ok_def s_list_def takeWhile_ones Let_def read_n_concat [unfolded ser_ok_def])

section \<open>Fields\<close>

definition s_bool :: "bool ser" where
  "s_bool = s_iso (\<lambda>b. if b then 1 else 0) (\<lambda>x. x = 1) s_byte"

definition s_string :: "string ser" where
  "s_string = s_list (s_iso of_char (\<lambda>b. char_of (unat b)) s_byte)"

definition s_i32 :: "i32 ser" where
  "s_i32 = s_iso (\<lambda>i. be_enc 4 (unat i)) (\<lambda>bs. of_nat (be_dec bs)) (s_list s_byte)"

abbreviation s_bytes :: "bytes ser" where
  "s_bytes \<equiv> s_list s_byte"

lemma char_of_unat_of_char [simp]: "char_of (unat (of_char c :: byte)) = c"
proof -
  have "(of_char c :: byte) = of_nat (of_char c :: nat)" by (simp add: of_nat_of_char)
  then have "unat (of_char c :: byte) = (of_char c :: nat)"
    by (simp only: unat_of_nat_byte) (simp add: of_char_mod_256)
  then show ?thesis by simp
qed

lemma ser_ok_fields [simp]: "ser_ok s_bool" "ser_ok s_string" "ser_ok s_i32"
proof -
  show "ser_ok s_bool" unfolding s_bool_def by (rule ser_ok_iso) simp_all
  show "ser_ok s_string" unfolding s_string_def by (intro ser_ok_list ser_ok_iso) simp_all
  have "unat i < 256 ^ 4" for i :: i32 using unsigned_less [of i] by simp
  then show "ser_ok s_i32" unfolding s_i32_def
    by (intro ser_ok_iso ser_ok_list ser_ok_byte) (simp del: power_numeral)
qed

section \<open>Messages\<close>

definition codec_of :: "'m ser \<Rightarrow> 'm codec" where
  "codec_of s = \<lparr>enc = fst s, dec = \<lambda>bs. case snd s bs of Some (m, []) \<Rightarrow> Some m | _ \<Rightarrow> None\<rparr>"

lemma codec_of_law [simp]: "ser_ok s \<Longrightarrow> codec_law (codec_of s)"
  using ser_okD [of s _ "[]"] by (simp add: codec_law_def codec_of_def)

definition s_relay :: "relay ser" where
  "s_relay = s_iso (\<lambda>m. (relay_id m, relay_type m, relay_data m, relay_confusion m))
     (\<lambda>(a, b, c, d). \<lparr>relay_id = a, relay_type = b, relay_data = c, relay_confusion = d\<rparr>)
     (s_pair s_string (s_pair s_i32 (s_pair s_bytes s_bytes)))"

definition s_set_session :: "set_session_id_msg ser" where
  "s_set_session = s_iso (\<lambda>m. (ssm_session_id m, ssm_role m))
     (\<lambda>(a, b). \<lparr>ssm_session_id = a, ssm_role = b\<rparr>) (s_pair s_string s_i32)"

definition s_relay_msg :: "relay_msg ser" where
  "s_relay_msg = s_iso (\<lambda>m. (rm_session_id m, rm_data m))
     (\<lambda>(a, b). \<lparr>rm_session_id = a, rm_data = b\<rparr>) (s_pair s_string s_bytes)"

definition s_probe :: "probe_signal ser" where
  "s_probe = s_iso (\<lambda>m. (ps_session_id m, ps_data m))
     (\<lambda>(a, b). \<lparr>ps_session_id = a, ps_data = b\<rparr>) (s_pair s_string s_bytes)"

definition s_disconnect :: "disconnect ser" where
  "s_disconnect = s_iso (\<lambda>m. (dc_session_id m, dc_err_code m))
     (\<lambda>(a, b). \<lparr>dc_session_id = a, dc_err_code = b\<rparr>) (s_pair s_string s_i32)"

definition s_success :: "circuit_success ser" where
  "s_success = s_iso cs_session_id (\<lambda>a. \<lparr>cs_session_id = a\<rparr>) s_string"

definition s_request :: "request ser" where
  "s_request = s_iso (\<lambda>m. (rq_req_id m, rq_from m, rq_reqtype m, rq_data m))
     (\<lambda>(a, b, c, d). \<lparr>rq_req_id = a, rq_from = b, rq_reqtype = c, rq_data = d\<rparr>)
     (s_pair s_string (s_pair s_string (s_pair s_i32 s_bytes)))"

definition s_new_circuit :: "new_circuit ser" where
  "s_new_circuit = s_iso (\<lambda>m. (nc_from m, nc_to m, nc_session_id m))
     (\<lambda>(a, b, c). \<lparr>nc_from = a, nc_to = b, nc_session_id = c\<rparr>)
     (s_pair s_string (s_pair s_string s_string))"

definition s_new_proxy :: "new_proxy ser" where
  "s_new_proxy = s_iso (\<lambda>m. (np_time m, np_white_noise_id m))
     (\<lambda>(a, b). \<lparr>np_time = a, np_white_noise_id = b\<rparr>) (s_pair s_string s_string)"

definition s_decrypt :: "decrypt ser" where
  "s_decrypt = s_iso (\<lambda>m. (de_destination m, de_cypher m))
     (\<lambda>(a, b). \<lparr>de_destination = a, de_cypher = b\<rparr>) (s_pair s_string s_bytes)"

definition s_neg_plaintext :: "neg_plaintext ser" where
  "s_neg_plaintext = s_iso (\<lambda>m. (npl_session_id m, npl_neg m))
     (\<lambda>(a, b). \<lparr>npl_session_id = a, npl_neg = b\<rparr>) (s_pair s_string s_bytes)"

definition s_main_net_peers :: "main_net_peers ser" where
  "s_main_net_peers = s_iso mnp_max (\<lambda>a. \<lparr>mnp_max = a\<rparr>) s_i32"

definition s_node_info :: "node_info ser" where
  "s_node_info = s_iso (\<lambda>m. (ni_id m, ni_addr m))
     (\<lambda>(a, b). \<lparr>ni_id = a, ni_addr = b\<rparr>) (s_pair s_string (s_list s_string))"

definition s_peers_list :: "peers_list ser" where
  "s_peers_list = s_iso pl_peers (\<lambda>a. \<lparr>pl_peers = a\<rparr>) (s_list s_node_info)"

definition s_command :: "command ser" where
  "s_command = s_iso (\<lambda>m. (cmd_command_id m, cmd_type m, cmd_from m, cmd_data m))
     (\<lambda>(a, b, c, d). \<lparr>cmd_command_id = a, cmd_type = b, cmd_from = c, cmd_data = d\<rparr>)
     (s_pair s_string (s_pair s_i32 (s_pair s_string s_bytes)))"

definition s_session_expend :: "session_expend ser" where
  "s_session_expend = s_iso (\<lambda>m. (se_session_id m, se_peer_id m))
     (\<lambda>(a, b). \<lparr>se_session_id = a, se_peer_id = b\<rparr>) (s_pair s_string s_string)"

definition s_ack :: "ack ser" where
  "s_ack = s_iso (\<lambda>m. (ack_command_id m, ack_result m, ack_data m))
     (\<lambda>(a, b, c). \<lparr>ack_command_id = a, ack_result = b, ack_data = c\<rparr>)
     (s_pair s_string (s_pair s_bool s_bytes))"

definition s_negotiate :: "negotiate ser" where
  "s_negotiate = s_iso (\<lambda>m. (ng_join m, ng_session_id m, ng_destination m, ng_sig m))
     (\<lambda>(a, b, c, d). \<lparr>ng_join = a, ng_session_id = b, ng_destination = c, ng_sig = d\<rparr>)
     (s_pair s_string (s_pair s_string (s_pair s_string s_bytes)))"

definition s_encrypted_neg :: "encrypted_neg ser" where
  "s_encrypted_neg = s_iso (\<lambda>m. (en_des m, en_cypher m))
     (\<lambda>(a, b). \<lparr>en_des = a, en_cypher = b\<rparr>) (s_pair s_string s_bytes)"

definition s_handshake :: "noise_handshake_payload ser" where
  "s_handshake = s_iso (\<lambda>m. (nh_identity_key m, nh_identity_sig m, nh_data m))
     (\<lambda>(a, b, c). \<lparr>nh_identity_key = a, nh_identity_sig = b, nh_data = c\<rparr>)
     (s_pair s_bytes (s_pair s_bytes s_bytes))"

definition s_chat :: "chat_message ser" where
  "s_chat = s_iso (\<lambda>m. (cm_peer_id m, cm_data m))
     (\<lambda>(a, b). \<lparr>cm_peer_id = a, cm_data = b\<rparr>) (s_pair s_string s_bytes)"

lemmas message_sers = s_relay_def s_set_session_def s_relay_msg_def s_probe_def s_disconnect_def
  s_success_def s_request_def s_new_circuit_def s_new_proxy_def s_decrypt_def s_neg_plaintext_def
  s_main_net_peers_def s_node_info_def s_peers_list_def s_command_def s_session_expend_def s_ack_def
  s_negotiate_def s_encrypted_neg_def s_handshake_def s_chat_def

lemma ser_ok_node_info [simp]: "ser_ok s_node_info"
  unfolding s_node_info_def by (rule ser_ok_iso) simp_all

lemma ser_ok_messages [simp]:
  "ser_ok s_relay" "ser_ok s_set_session" "ser_ok s_relay_msg" "ser_ok s_probe" "ser_ok s_disconnect"
  "ser_ok s_success" "ser_ok s_request" "ser_ok s_new_circuit" "ser_ok s_new_proxy" "ser_ok s_decrypt"
  "ser_ok s_neg_plaintext" "ser_ok s_main_net_peers" "ser_ok s_peers_list" "ser_ok s_command"
  "ser_ok s_session_expend" "ser_ok s_ack" "ser_ok s_negotiate" "ser_ok s_encrypted_neg"
  "ser_ok s_handshake" "ser_ok s_chat"
  unfolding s_relay_def s_set_session_def s_relay_msg_def s_probe_def s_disconnect_def s_success_def
    s_request_def s_new_circuit_def s_new_proxy_def s_decrypt_def s_neg_plaintext_def
    s_main_net_peers_def s_peers_list_def s_command_def s_session_expend_def s_ack_def
    s_negotiate_def s_encrypted_neg_def s_handshake_def s_chat_def
  by (rule ser_ok_iso; simp)+

section \<open>Base 16\<close>

text \<open>The letters \<open>A\<close> to \<open>P\<close> for the values 0 to 15.\<close>

definition hex_enc :: "bytes \<Rightarrow> string" where
  "hex_enc bs = concat (map (\<lambda>b. [char_of (65 + unat b div 16), char_of (65 + unat b mod 16)]) bs)"

fun hex_dec :: "string \<Rightarrow> bytes option" where
  "hex_dec [] = Some []"
| "hex_dec [c] = None"
| "hex_dec (c # d # s) =
     map_option ((#) (of_nat ((of_char c - 65) * 16 + (of_char d - 65)))) (hex_dec s)"

lemma of_char_hex: "v < 16 \<Longrightarrow> of_char (char_of (65 + v)) = (65 + v :: nat)"
  by (simp add: of_char_of)

lemma hex_dec_enc [simp]: "hex_dec (hex_enc bs) = Some bs"
proof (induction bs)
  case (Cons b bs)
  have "unat b < 256" using unsigned_less [of b] by simp
  then have "unat b div 16 < 16" by auto
  moreover have "of_nat (unat b div 16 * 16 + unat b mod 16) = b"
    unfolding div_mult_mod_eq by simp
  ultimately show ?case using Cons.IH by (simp add: hex_enc_def of_char_hex del: of_nat_add of_nat_mult)
qed (simp add: hex_enc_def)

lemma hex_digit_ascii: "(v :: nat) < 16 \<Longrightarrow> \<not> is_continuation (char_of (65 + v))"
  by (simp add: is_continuation_def of_char_hex)

lemma hex_enc_ascii: "c \<in> set (hex_enc bs) \<Longrightarrow> \<not> is_continuation c"
proof -
  have "unat b div 16 < 16" for b :: byte
  proof -
    have "unat b < 256" using unsigned_less [of b] by simp
    then show ?thesis by auto
  qed
  then have "\<forall>c \<in> set (hex_enc bs). \<not> is_continuation c"
    by (auto simp: hex_enc_def simp del: of_char_of intro!: hex_digit_ascii)
  then show "c \<in> set (hex_enc bs) \<Longrightarrow> \<not> is_continuation c" by blast
qed

section \<open>The instance\<close>

fun noise_write0 :: "noise \<Rightarrow> bytes \<Rightarrow> (noise \<times> bytes) option" where
  "noise_write0 (Noise k) p = (if length p < 65535 then Some (Noise k, 7 # p) else None)"

fun noise_read0 :: "noise \<Rightarrow> bytes \<Rightarrow> (noise \<times> bytes) option" where
  "noise_read0 (Noise k) m = (case m of [] \<Rightarrow> None | t # p \<Rightarrow> if t = 7 then Some (Noise k, p) else None)"

text \<open>The digest has 32 bytes, as that of SHA2-256.\<close>

definition pad32 :: "bytes \<Rightarrow> bytes" where
  "pad32 b = take 32 (b @ replicate 32 0)"

lemma length_pad32 [simp]: "length (pad32 b) = 32"
  by (simp add: pad32_def)

text \<open>A message on a stream: as many ones as it is long, a zero, the message.\<close>

definition len_prefixed0 :: "bytes \<Rightarrow> bytes" where
  "len_prefixed0 m = replicate (length m) 1 @ 0 # m"

definition read_step0 :: "nat \<Rightarrow> bytes \<Rightarrow> read_result option" where
  "read_step0 lim got =
     (let n = length (takeWhile (\<lambda>b. b = 1) got) in
      if length got \<le> n then None
      else if lim < n then Some (Inl (ReadOneError_TooLarge n lim))
      else if length got \<le> 2 * n then None
      else Some (Inr (drop (Suc n) got)))"

lemma read_step0_header [simp]: "read_step0 lim (replicate k 1) = None"
  by (simp add: read_step0_def takeWhile_replicate)

lemma read_step0_body:
  "read_step0 lim (replicate n 1 @ 0 # m) =
     (if lim < n then Some (Inl (ReadOneError_TooLarge n lim))
      else if length m < n then None else Some (Inr m))"
  by (simp add: read_step0_def takeWhile_ones Let_def)

lemma strict_prefix_frame:
  "strict_prefix q (replicate n 1 @ 0 # m) \<Longrightarrow>
   (\<exists>k. q = replicate k 1) \<or> (\<exists>m'. q = replicate n 1 @ 0 # m' \<and> strict_prefix m' m)" for q :: bytes
proof (induction n arbitrary: q)
  case 0
  then show ?case by (cases q) (auto intro: exI [of _ 0])
next
  case (Suc n)
  show ?case
  proof (cases q)
    case Nil
    then show ?thesis by (auto intro: exI [of _ 0])
  next
    case (Cons b p)
    with Suc.prems have "b = 1" "strict_prefix p (replicate n 1 @ 0 # m)" by auto
    with Suc.IH [of p] Cons show ?thesis by (auto simp flip: replicate_Suc)
  qed
qed

definition E0 :: ext where
  "E0 = \<lparr>c_relay = codec_of s_relay, c_set_session = codec_of s_set_session,
     c_relay_msg = codec_of s_relay_msg, c_probe = codec_of s_probe,
     c_disconnect = codec_of s_disconnect, c_success = codec_of s_success,
     c_request = codec_of s_request, c_new_circuit = codec_of s_new_circuit,
     c_new_proxy = codec_of s_new_proxy, c_decrypt = codec_of s_decrypt,
     c_neg_plaintext = codec_of s_neg_plaintext, c_main_net_peers = codec_of s_main_net_peers,
     c_peers_list = codec_of s_peers_list, c_command = codec_of s_command,
     c_session_expend = codec_of s_session_expend, c_ack = codec_of s_ack,
     c_negotiate = codec_of s_negotiate, c_encrypted_neg = codec_of s_encrypted_neg,
     c_handshake = codec_of s_handshake, c_chat = codec_of s_chat,
     multihash_sha2_256 = (\<lambda>b. 18 # 32 # pad32 b),
     sha512 = (\<lambda>b. take 64 (b @ replicate 64 0)),
     bs58_encode = hex_enc, bs58_decode = hex_dec,
     ed25519_generate = (\<lambda>n. [1, of_nat n]), ed25519_encode = (\<lambda>k. k),
     ed25519_decode = Some, ed25519_secret = (\<lambda>k. k),
     secp_generate = (\<lambda>n. [2, of_nat n]), secp_secret_bytes = (\<lambda>k. k), secp_from_secret = Some,
     secp_uncompressed = (\<lambda>b. Some (4 # take 64 (b @ replicate 64 0))),
     public_encode = (\<lambda>k. case k of KeyEd25519 b \<Rightarrow> 1 # b | KeySecp256k1 b \<Rightarrow> 2 # b | KeyOther b \<Rightarrow> b),
     into_peer_id = (\<lambda>k. case k of KeyEd25519 b \<Rightarrow> PeerId b | KeySecp256k1 b \<Rightarrow> PeerId b | KeyOther b \<Rightarrow> PeerId b),
     ecies_ed25519_enc = (\<lambda>n k p. Some (9 # p)),
     ecies_ed25519_dec = (\<lambda>k c. case c of [] \<Rightarrow> None | t # p \<Rightarrow> if t = 9 then Some p else None),
     ecies_secp_enc = (\<lambda>n k p. Some (8 # p)),
     ecies_secp_dec = (\<lambda>k c. case c of [] \<Rightarrow> None | t # p \<Rightarrow> if t = 8 then Some p else None),
     noise_initiator = (\<lambda>n k. Noise [0]), noise_responder = (\<lambda>n k. Noise [1]),
     noise_identity_key = (\<lambda>n k. [of_nat n]), noise_identity_sig = (\<lambda>n k. [5]),
     noise_write_message = noise_write0, noise_read_message = noise_read0,
     noise_remote_static = (\<lambda>s. Some [3]), noise_into_transport = Some,
     verify_signature = (\<lambda>k m s. Some (s = [5])),
     to_base58 = (\<lambda>p. hex_enc (peer_bytes p)), peer_from_bytes = (\<lambda>b. Some (PeerId b)),
     peer_random = (\<lambda>n. PeerId [200, of_nat n]), parse_multiaddr = Some,
     gen_range = (\<lambda>n hi. n mod hi), fill_bytes = (\<lambda>n k. replicate k (of_nat n)),
     random_usize = of_nat, uuid_v4 = (\<lambda>n. CHR ''u'' # nat_to_string n),
     now_micros = (\<lambda>n. n), chunk_mut_len = (\<lambda>h n. n),
     default_hash = (\<lambda>b. of_nat (length b)),
     len_prefixed = len_prefixed0, read_step = read_step0\<rparr>"

lemma E0_protos [simp]: "protos_ok E0"
  by (simp add: protos_ok_def E0_def)

lemma E0_rand [simp]: "rand_ok E0"
  by (simp add: rand_ok_def E0_def)

lemma E0_base58 [simp]: "base58_ok E0"
  by (auto simp: base58_ok_def E0_def hex_enc_ascii)

lemma E0_peer [simp]: "peer_ok E0"
  by (auto simp: peer_ok_def E0_def)

lemma E0_alloc [simp]: "alloc_exact E0"
  by (simp add: alloc_exact_def E0_def)

lemma E0_read_one [simp]: "read_one_ok E0"
proof -
  have "read_step0 lim (len_prefixed0 m) = Some (Inr m)" if "length m \<le> lim" for lim m
    using that by (simp add: len_prefixed0_def read_step0_body)
  moreover have "read_step0 lim p = None" if "length m \<le> lim" "strict_prefix p (len_prefixed0 m)" for lim m p
    using strict_prefix_frame [OF that(2) [unfolded len_prefixed0_def]] that(1)
    by (auto simp: read_step0_body dest: prefix_length_less)
  moreover have "prefix (replicate (length m) 1 @ [0]) (len_prefixed0 m) \<and>
      read_step0 lim (replicate (length m) 1 @ [0]) = Some (Inl (ReadOneError_TooLarge (length m) lim)) \<and>
      (\<forall>q. strict_prefix q (replicate (length m) 1 @ [0]) \<longrightarrow> read_step0 lim q = None)"
    if "lim < length m" for lim m
    using that by (auto simp: len_prefixed0_def read_step0_body dest: strict_prefix_frame)
  moreover have "read_step0 lim [] = None" for lim by (simp add: read_step0_def)
  ultimately show ?thesis unfolding read_one_ok_def by (simp add: E0_def) blast
qed

end
