(* ===== verification/Data_Path.thy ===== *)
theory Data_Path
  imports Client Concrete
begin

text \<open>
  The path of application data: a chat line is framed, encrypted and sent by one client, forwarded
  by the nodes of the circuit, and delivered, decrypted and decoded by the other client. The
  theorems run each party's own code on its own node and hand the bytes from one to the next.
\<close>

section \<open>Forwarding nodes\<close>

text \<open>
  A node that forwards the session \<open>sid\<close> between two streams: its session is ready with these two
  streams, in either order, and it is not an end of the circuit.
\<close>

definition forwards :: "string \<Rightarrow> wrapped_stream \<Rightarrow> wrapped_stream \<Rightarrow> world \<Rightarrow> bool" where
  "forwards sid st other w \<longleftrightarrow>
     \<not> poisoned w Lock_session_map \<and> ws_stream_id st \<noteq> ws_stream_id other \<and>
     (case session_map w sid of
        None \<Rightarrow> False
      | Some s \<Rightarrow>
          ses_role s \<noteq> session_role_i32 AnswerRole \<and> ses_role s \<noteq> session_role_i32 CallerRole \<and>
          (early_stream (ses_pair s), later_stream (ses_pair s))
            \<in> {(Some st, Some other), (Some other, Some st)})"

text \<open>A node at an end of the circuit: data of the session goes to the connection \<open>cc\<close>.\<close>

definition delivers :: "string \<Rightarrow> circuit_conn \<Rightarrow> world \<Rightarrow> bool" where
  "delivers sid cc w \<longleftrightarrow>
     \<not> poisoned w Lock_session_map \<and> circuit_map w sid = Some cc \<and>
     (case session_map w sid of
        None \<Rightarrow> False
      | Some s \<Rightarrow> ses_role s = session_role_i32 AnswerRole \<or> ses_role s = session_role_i32 CallerRole)"

definition receive :: "wrapped_stream \<Rightarrow> bytes \<Rightarrow> world \<Rightarrow> world" where
  "receive st bs w = w\<lparr>in_chan := (in_chan w)(ws_stream st := [Inr bs])\<rparr>"

definition data_relay :: "ext \<Rightarrow> string \<Rightarrow> bytes \<Rightarrow> relay \<Rightarrow> bool" where
  "data_relay E sid d r \<longleftrightarrow> relay_type r = relaytype_i32 Relaytype_Data \<and>
     dec (c_relay_msg E) (relay_data r) = Some \<lparr>rm_session_id = sid, rm_data = d\<rparr>"

lemma forward_relay_forwards:
  assumes "forwards sid st other w" and "session_map w sid = Some s"
  shows "ready s" and "run (forward_relay E s (ws_stream_id st) r) v = Done () (sent_relay E other r v)"
  using assms by (auto simp: forwards_def ready_def run_forward_relay)

text \<open>One round of the handler on the next message of its stream, and on the only one.\<close>

lemma forwarder_round:
  assumes "dec (c_relay E) bs = Some r" and "data_relay E sid d r" and f: "forwards sid st other w"
    and "in_chan w (ws_stream st) = Inr bs # q"
  shows "run (relay_event_handler E st sid_opt) w =
    Done (Some (T_relay_event_handler st sid_opt))
      (sent_relay E other r (w\<lparr>in_chan := (in_chan w)(ws_stream st := q)\<rparr>))"
proof -
  obtain s where s: "session_map w sid = Some s" "\<not> poisoned w Lock_session_map"
    "ses_role s \<noteq> session_role_i32 AnswerRole" "ses_role s \<noteq> session_role_i32 CallerRole"
    using f by (auto simp: forwards_def split: option.splits)
  then show ?thesis
    using assms forward_relay_forwards [OF f s(1)]
    by (simp add: relay_event_handler_def read_from_negotiated_arc_def run_simps Let_def
        handle_relay_msg_def data_relay_def)
qed

lemma endpoint_round:
  assumes "dec (c_relay E) bs = Some r" and "data_relay E sid d r" and "delivers sid cc w"
    and "in_chan w (ws_stream st) = Inr bs # q"
  shows "run (relay_event_handler E st sid_opt) w =
    Done (Some (T_relay_event_handler st sid_opt))
      (conn_push (cc_in_channel cc) d (w\<lparr>in_chan := (in_chan w)(ws_stream st := q)\<rparr>))"
  using assms
  by (auto simp: relay_event_handler_def read_from_negotiated_arc_def run_simps Let_def
      handle_relay_msg_def data_relay_def delivers_def split: option.splits)

lemma run_forwarder:
  assumes "protos_ok E" and "data_relay E sid d r" and "forwards sid st other w"
  shows "run (relay_event_handler E st sid_opt) (receive st (enc (c_relay E) r) w) =
    Done (Some (T_relay_event_handler st sid_opt))
      (sent_relay E other r (w\<lparr>in_chan := (in_chan w)(ws_stream st := [])\<rparr>))"
  using assms forwarder_round [of E "enc (c_relay E) r" r sid d st other "receive st (enc (c_relay E) r) w" "[]"]
  by (simp add: receive_def forwards_def)

lemma run_endpoint:
  assumes "protos_ok E" and "data_relay E sid d r" and "delivers sid cc w"
  shows "run (relay_event_handler E st sid_opt) (receive st (enc (c_relay E) r) w) =
    Done (Some (T_relay_event_handler st sid_opt))
      (conn_push (cc_in_channel cc) d (w\<lparr>in_chan := (in_chan w)(ws_stream st := [])\<rparr>))"
  using assms endpoint_round [of E "enc (c_relay E) r" r sid d cc "receive st (enc (c_relay E) r) w" st "[]"]
  by (simp add: receive_def delivers_def)

section \<open>A chain of nodes\<close>

text \<open>
  The bytes that leave a chain of nodes, each with the stream it reads and the stream it writes.
  Every node runs its handler on what the one before it sent; \<open>None\<close> when some node does not queue
  just one message on its other stream.
\<close>

fun relay_chain ::
  "ext \<Rightarrow> string \<Rightarrow> (world \<times> wrapped_stream \<times> wrapped_stream) list \<Rightarrow> bytes \<Rightarrow> bytes option" where
  "relay_chain E sid [] bs = Some bs"
| "relay_chain E sid ((w, st, other) # hops) bs =
     (case run (relay_event_handler E st (Some sid)) (receive st bs w) of
        Done _ w' \<Rightarrow>
          (case drop (length (out_chan w (ws_stream other))) (out_chan w' (ws_stream other)) of
             [WrapedData_Data bs'] \<Rightarrow> relay_chain E sid hops bs'
           | _ \<Rightarrow> None)
      | _ \<Rightarrow> None)"

lemma relay_chain_data:
  assumes "protos_ok E" and "\<forall>(w, st, other) \<in> set hops. forwards sid st other w"
    and "data_relay E sid d r"
  shows "\<exists>r'. relay_chain E sid hops (enc (c_relay E) r) = Some (enc (c_relay E) r') \<and>
    relay_type r' = relay_type r \<and> relay_data r' = relay_data r"
  using assms(2,3)
proof (induction hops arbitrary: r)
  case (Cons hop hops)
  obtain w st other where hop: "hop = (w, st, other)" by (cases hop)
  with Cons.prems have f: "forwards sid st other w" by simp
  have "data_relay E sid d (on_wire E (draws w) r)"
    using Cons.prems(2) by (simp add: data_relay_def)
  from Cons.IH [OF _ this] Cons.prems(1) show ?case
    by (simp add: hop run_forwarder [OF assms(1) Cons.prems(2) f] out_chan_sent_relay)
qed auto

section \<open>A path of streams\<close>

text \<open>
  Data that every node can pass on: whatever confusion and id a node adds, the message is not empty
  and is within the limit of \<open>read_one\<close>.
\<close>

definition carries_data :: "ext \<Rightarrow> string \<Rightarrow> bytes \<Rightarrow> relay \<Rightarrow> bool" where
  "carries_data E sid d r \<longleftrightarrow> relay_type r = relaytype_i32 Relaytype_Data \<and>
     relay_data r = enc (c_relay_msg E) \<lparr>rm_session_id = sid, rm_data = d\<rparr>"

definition fits :: "ext \<Rightarrow> string \<Rightarrow> bytes \<Rightarrow> bool" where
  "fits E sid d \<longleftrightarrow> (\<forall>n r. carries_data E sid d r \<longrightarrow>
     enc (c_relay E) (on_wire E n r) \<noteq> [] \<and> length (enc (c_relay E) (on_wire E n r)) \<le> READ_LIMIT)"

lemma carries_data_relay: "protos_ok E \<Longrightarrow> carries_data E sid d r \<Longrightarrow> data_relay E sid d r"
  by (simp add: carries_data_def data_relay_def)

lemma carries_data_on_wire [simp]: "carries_data E sid d (on_wire E n r) = carries_data E sid d r"
  by (simp add: carries_data_def)

lemma fitsD:
  assumes "fits E sid d" and "carries_data E sid d r"
  shows "enc (c_relay E) (on_wire E n r) \<noteq> []" and "length (enc (c_relay E) (on_wire E n r)) \<le> READ_LIMIT"
  using assms by (auto simp: fits_def)

text \<open>
  A message comes in on a stream: its bytes reach the pump one after the other, and the task that
  the pump spawns runs. A message goes out: the pump takes the next entry of the queue.
\<close>

definition pump_in ::
  "ext \<Rightarrow> wrapped_stream \<Rightarrow> bytes \<Rightarrow> world \<times> relay_net \<Rightarrow> (world \<times> relay_net) option" where
  "pump_in E st bs s =
     (case feed E st (len_prefixed E bs) s of
        Some (Loop_continue, w, n) \<Rightarrow>
          if spawned w = [] then None
          else (case run (body E (last (spawned w))) (w\<lparr>spawned := butlast (spawned w)\<rparr>) of
                  Done _ w' \<Rightarrow> Some (w', n)
                | _ \<Rightarrow> None)
      | _ \<Rightarrow> None)"

definition pump_out ::
  "ext \<Rightarrow> wrapped_stream \<Rightarrow> world \<times> relay_net \<Rightarrow> (bytes \<times> world \<times> relay_net) option" where
  "pump_out E st s =
     (case start_poll E st (Poll_next True) s of
        Some (Loop_continue, w, n) \<Rightarrow> Some (last (sub_written n (ws_stream st)), w, n)
      | _ \<Rightarrow> None)"

text \<open>
  The message that leaves a row of nodes: each takes it off the stream it reads, runs its handler and
  writes to its other stream. \<open>None\<close> when some node does not.
\<close>

fun relay_path ::
  "ext \<Rightarrow> string \<Rightarrow> ((world \<times> relay_net) \<times> wrapped_stream \<times> wrapped_stream) list \<Rightarrow> bytes \<Rightarrow> bytes option" where
  "relay_path E sid [] bs = Some bs"
| "relay_path E sid ((s, st, other) # hops) bs =
     (case pump_in E st bs s of
        None \<Rightarrow> None
      | Some (w, n) \<Rightarrow>
          (case run (relay_event_handler E st (Some sid)) w of
             Done _ w' \<Rightarrow>
               (case pump_out E other (w', n) of
                  None \<Rightarrow> None
                | Some (bs', _) \<Rightarrow> relay_path E sid hops bs')
           | _ \<Rightarrow> None))"

text \<open>A stream with nothing half read and nothing waiting to be handled.\<close>

definition idle_in :: "wrapped_stream \<Rightarrow> world \<times> relay_net \<Rightarrow> bool" where
  "idle_in st = (\<lambda>(w, n). in_chan w (ws_stream st) = [] \<and> sub_got n (ws_stream st) = [])"

definition idle_out :: "wrapped_stream \<Rightarrow> world \<Rightarrow> bool" where
  "idle_out st w \<longleftrightarrow> out_chan w (ws_stream st) = []"

lemma pump_in_message:
  assumes "read_one_ok E" and "sub_got n (ws_stream st) = []" and "bs \<noteq> []" and "length bs \<le> READ_LIMIT"
  shows "pump_in E st bs (w, n) = Some (push_in st (Inr bs) w, n)"
proof -
  have "w\<lparr>spawned := spawned w\<rparr> = w" by simp
  then show ?thesis
    using feed_message [OF assms, of "[]" w] by (simp add: pump_in_def run_simps push_in_def)
qed

lemma pump_out_first:
  assumes "out_chan w (ws_stream st) = WrapedData_Data x # q"
  shows "\<exists>s. pump_out E st (w, n) = Some (x, s)"
  using assms by (simp add: pump_out_def start_poll_def Let_def)

lemma relay_path_data:
  assumes "protos_ok E" and "read_one_ok E" and "fits E sid d"
    and "\<forall>((w, n), st, other) \<in> set hops. forwards sid st other w \<and> idle_in st (w, n) \<and> idle_out other w"
    and "carries_data E sid d r" and "enc (c_relay E) r \<noteq> []" and "length (enc (c_relay E) r) \<le> READ_LIMIT"
  shows "\<exists>r'. relay_path E sid hops (enc (c_relay E) r) = Some (enc (c_relay E) r') \<and> carries_data E sid d r' \<and>
    enc (c_relay E) r' \<noteq> [] \<and> length (enc (c_relay E) r') \<le> READ_LIMIT"
  using assms(4-)
proof (induction hops arbitrary: r)
  case (Cons hop hops)
  obtain w n st other where hop: "hop = ((w, n), st, other)" by (cases hop) auto
  with Cons.prems(1) have f: "forwards sid st other w" "idle_in st (w, n)" "idle_out other w" by auto
  let ?w = "push_in st (Inr (enc (c_relay E) r)) w"
  let ?r = "on_wire E (draws w) r"
  have "sub_got n (ws_stream st) = []" using f(2) by (simp add: idle_in_def)
  note p = pump_in_message [OF assms(2) this Cons.prems(3,4), of w]
  have "run (relay_event_handler E st (Some sid)) ?w = Done (Some (T_relay_event_handler st (Some sid)))
      (sent_relay E other r (?w\<lparr>in_chan := (in_chan ?w)(ws_stream st := [])\<rparr>))"
    using f assms(1) carries_data_relay [OF assms(1) Cons.prems(2)]
    by (intro forwarder_round) (auto simp: push_in_def idle_in_def forwards_def)
  moreover have "\<exists>s. pump_out E other (sent_relay E other r (?w\<lparr>in_chan := (in_chan ?w)(ws_stream st := [])\<rparr>), n) =
      Some (enc (c_relay E) ?r, s)"
    using f(3) by (intro pump_out_first) (simp add: out_chan_sent_relay push_in_def idle_out_def)
  moreover have "carries_data E sid d ?r" using Cons.prems(2) by simp
  ultimately show ?case
    using Cons.IH [of ?r] Cons.prems(1) fitsD [OF assms(3) Cons.prems(2)] by (auto simp: hop p)
qed auto

section \<open>From line to line\<close>

lemma chat_payload_exact:
  assumes "alloc_exact E" and "enc (c_chat E) m \<noteq> []"
  shows "chat_payload E m = Some (frame32 (enc (c_chat E) m))"
  using assms by (simp add: chat_payload_def alloc_exact_def frame32_def Let_def)

lemma run_send_message:
  assumes "circuit_map w sid = Some cc" and "cc_transport_state cc = Some h" and "cc_id cc = sid"
    and "transports w h = Some a" and "noise_write_message E a p = Some (a', c)"
    and "c \<noteq> []" and "length c < 65536" and "alloc_exact E"
  shows "run (send_message E sid p) w =
    Done () (sent_relay E (cc_out_stream cc) (relay_of Relaytype_Data
       (enc (c_relay_msg E) \<lparr>rm_session_id = sid, rm_data = frame16 c\<rparr>))
       (w\<lparr>transports := (transports w)(h \<mapsto> a')\<rparr>))"
  using assms
  by (simp add: send_message_def circuit_conn_write_def run_simps noise_write_into_def BUF_LEN_def
      run_write_payload_arc)

lemma data_relay_sent:
  assumes "protos_ok E"
  shows "data_relay E sid d (on_wire E n (relay_of Relaytype_Data
    (enc (c_relay_msg E) \<lparr>rm_session_id = sid, rm_data = d\<rparr>)))"
  using assms by (simp add: data_relay_def relay_of_def)

lemma run_chat_receive:
  assumes "protos_ok E" and "cc_transport_state cc = Some h" and "transports w h = Some b"
    and "conn_chan w (cc_in_channel cc) = [frame16 c]" and "length c < 65536"
    and "noise_read_message E b c = Some (b', frame32 (enc (c_chat E) m))"
    and "length (enc (c_chat E) m) + 4 \<le> length buf" and "length buf \<le> 65536"
  shows "\<exists>buf' w'. run (chat_receive E cc buf) w = Done (m, buf') w'"
proof -
  have l: "length (frame32 (enc (c_chat E) m)) \<le> length buf" "length (enc (c_chat E) m) < 4294967296"
    using assms(7,8) by (simp_all add: frame32_def put_u32_def)
  show ?thesis
    using assms(1) circuit_conn_read_frame [OF assms(2-6) l]
    by (simp add: chat_receive_def run_simps)
qed

section \<open>A concrete circuit\<close>

text \<open>A caller, one forwarding node and an answerer, each with the session \<open>s1\<close>.\<close>

definition scene_stream :: "nat \<Rightarrow> string \<Rightarrow> wrapped_stream" where
  "scene_stream i sid = \<lparr>ws_stream = i, ws_remote_peer_id = PeerId [of_nat i], ws_stream_id = sid\<rparr>"

definition scene_world :: world where
  "scene_world = initial_world RunMode_Server (KeyEd25519 [42]) None 0"

definition scene_session :: "session_role \<Rightarrow> session" where
  "scene_session role = set_later (scene_stream 4 ''b'')
     (new_session ''s1'' (session_role_i32 role) (scene_stream 3 ''a''))"

definition scene_conn :: circuit_conn where
  "scene_conn = \<lparr>cc_id = ''s1'', cc_out_stream = scene_stream 3 ''a'', cc_in_channel = 5,
     cc_transport_state = Some 7\<rparr>"

definition scene_node :: "session_role \<Rightarrow> world" where
  "scene_node role = (put_circuit ''s1'' scene_conn (put_session ''s1'' (scene_session role) scene_world))
     \<lparr>transports := [7 \<mapsto> Noise [0]]\<rparr>"

lemmas scene_defs = scene_stream_def scene_session_def scene_conn_def scene_node_def scene_world_def
  initial_world_def map_update_defs new_session_def set_later_def

definition scene_net :: relay_net where
  "scene_net = \<lparr>out_events = [], dive_events = [], rb_addresses = Map.empty, sub_written = (\<lambda>_. []),
     sub_closed = (\<lambda>_. False), sub_got = (\<lambda>_. []), polling = []\<rparr>"

lemma scene_idle:
  "idle_in (scene_stream i sid) (scene_node role, scene_net)" "idle_out (scene_stream i sid) (scene_node role)"
  by (simp_all add: idle_in_def idle_out_def scene_net_def scene_defs)

lemma scene_forwards: "forwards ''s1'' (scene_stream 3 ''a'') (scene_stream 4 ''b'') (scene_node RelayRole)"
  by (simp add: forwards_def scene_defs)

lemma scene_delivers: "delivers ''s1'' scene_conn (scene_node AnswerRole)"
  by (simp add: delivers_def scene_defs)

lemma E0_noise_paired: "noise_paired E0 (\<lambda>_ _. True)"
proof -
  have "c \<noteq> [] \<and> length c < 65536 \<and> (\<exists>b'. noise_read_message E0 b c = Some (b', p))"
    if "noise_write_message E0 a p = Some (a', c)" for a b p a' c
    using that by (cases a; cases b) (auto simp: E0_def split: if_splits)
  then show ?thesis by (simp add: noise_paired_def)
qed

lemma E0_chat_enc: "enc (c_chat E0) m = fst s_chat m"
  by (simp add: E0_def codec_of_def)

lemma E0_chat_hi: "enc (c_chat E0) \<lparr>cm_peer_id = ''Al'', cm_data = [104, 105]\<rparr> =
    [1, 1, 0, 65, 108, 1, 1, 0, 104, 105]"
  unfolding E0_chat_enc by code_simp

text \<open>In the concrete codecs an id has 64 characters, so short data fits.\<close>

lemma s_list_length: "(\<And>x. length (fst s x) = k) \<Longrightarrow> length (fst (s_list s) xs) = Suc k * length xs + 1"
  by (induction xs) (simp_all add: s_list_def)

lemma E0_field_lengths:
  "length (fst s_bytes b) = 2 * length b + 1" "length (fst s_string t) = 2 * length t + 1"
  by (simp_all add: s_list_length [where k = 1] s_string_def s_byte_def s_iso_def)

lemma E0_relay_length:
  "length (enc (c_relay E0) m) =
     2 * length (relay_id m) + 2 * length (relay_data m) + 2 * length (relay_confusion m) + 12"
proof -
  have "length (fst s_i32 i) = 9" for i by (simp add: s_i32_def s_iso_def E0_field_lengths)
  then show ?thesis
    by (simp add: E0_def codec_of_def s_relay_def s_iso_def s_pair_def E0_field_lengths)
qed

lemma hex_enc_length: "length (hex_enc b) = 2 * length b"
  by (induction b) (simp_all add: hex_enc_def)

lemma E0_id_length: "length (from_bytes_get_id E0 b) = 64"
  by (simp add: from_bytes_get_id_def E0_def hex_enc_length)

lemma confusion_length:
  assumes "rand_ok E"
  shows "length (relay_confusion (on_wire E n r)) < length (relay_data r) div 10 + 10"
proof -
  have "length (relay_data r) * 10 div 100 = length (relay_data r) div 10" by simp
  moreover have "gen_range E n (length (relay_data r) div 10 + 10) < length (relay_data r) div 10 + 10"
    using assms by (simp add: rand_ok_def)
  ultimately show ?thesis
    using assms by (simp add: on_wire_def confused_def rand_ok_def CONFUSION_MAX_PROPORTION_def
        CONFUSION_PAD_LEN_def)
qed

lemma E0_fits:
  assumes "length sid + length d \<le> 200"
  shows "fits E0 sid d"
proof -
  have d: "length (enc (c_relay_msg E0) \<lparr>rm_session_id = sid, rm_data = d\<rparr>) = 2 * (length sid + length d) + 2"
    by (simp add: E0_def codec_of_def s_relay_msg_def s_iso_def s_pair_def E0_field_lengths)
  have i: "length (relay_id (on_wire E0 n r)) = 64" for n r by (simp add: on_wire_def E0_id_length)
  have "length (enc (c_relay E0) (on_wire E0 n r)) \<le> 4096" if "carries_data E0 sid d r" for n r
    using that assms d confusion_length [OF E0_rand, of n r]
    by (simp add: carries_data_def E0_relay_length i)
  moreover have "enc (c_relay E0) m \<noteq> []" for m using E0_relay_length [of m] by auto
  ultimately show ?thesis by (simp add: fits_def READ_LIMIT_def)
qed

section \<open>Properties\<close>

text \<open>
  C1: a chat line sent by one end of a circuit arrives at the other end, through any number of
  forwarding nodes. The sender queues one relay message and its pump writes it; on every node on the
  way the pump takes the message off the stream, byte after byte, the handler forwards it and the
  other pump writes it; the receiver's pump and handler hand the payload to the connection, and its
  reader returns the chat message that was sent. The two ends hold paired Noise states, the framed
  message fits the reader's buffer, the relay message with any padding fits the 4096 bytes that a
  pump reads, and nothing else is under way on these streams, so that no read is cut short.
\<close>

theorem chat_line_delivered:
  assumes "protos_ok E" and "alloc_exact E" and "noise_paired E R" and "read_one_ok E"
    and sender: "circuit_map wa sid = Some cca" "cc_id cca = sid" "cc_transport_state cca = Some ha"
      "transports wa ha = Some a" "idle_out (cc_out_stream cca) wa"
    and hops: "\<forall>((w, n), st, other) \<in> set hops.
      forwards sid st other w \<and> idle_in st (w, n) \<and> idle_out other w"
    and receiver: "delivers sid ccb wb" "cc_transport_state ccb = Some hb" "transports wb hb = Some b"
      "conn_chan wb (cc_in_channel ccb) = []" "R a b" "idle_in st (wb, nb)"
    and line: "enc (c_chat E) \<lparr>cm_peer_id = nick, cm_data = line\<rparr> \<noteq> []"
      "length (enc (c_chat E) \<lparr>cm_peer_id = nick, cm_data = line\<rparr>) + 4 \<le> BUF_LEN"
      "noise_write_message E a (frame32 (enc (c_chat E) \<lparr>cm_peer_id = nick, cm_data = line\<rparr>)) = Some (a', c)"
      "fits E sid (frame16 c)"
  shows "\<exists>wa' bs sa bs' wb1 nb1 next wb2 buf' wb3.
    run (chat_send E sid nick line) wa = Done () wa' \<and>
    pump_out E (cc_out_stream cca) (wa', na) = Some (bs, sa) \<and>
    relay_path E sid hops bs = Some bs' \<and>
    pump_in E st bs' (wb, nb) = Some (wb1, nb1) \<and>
    run (relay_event_handler E st (Some sid)) wb1 = Done next wb2 \<and>
    run (chat_receive E ccb (replicate BUF_LEN 0)) wb2 =
      Done (\<lparr>cm_peer_id = nick, cm_data = line\<rparr>, buf') wb3"
proof -
  let ?m = "\<lparr>cm_peer_id = nick, cm_data = line\<rparr>"
  let ?p = "frame32 (enc (c_chat E) ?m)"
  obtain b' where c: "c \<noteq> []" "length c < 65536" "noise_read_message E b c = Some (b', ?p)"
    using noise_pairedD [OF assms(3) receiver(5) line(3)] by metis
  let ?r = "relay_of Relaytype_Data (enc (c_relay_msg E) \<lparr>rm_session_id = sid, rm_data = frame16 c\<rparr>)"
  let ?s = "on_wire E (draws wa) ?r"
  let ?wa = "sent_relay E (cc_out_stream cca) ?r (wa\<lparr>transports := (transports wa)(ha \<mapsto> a')\<rparr>)"
  have send: "run (chat_send E sid nick line) wa = Done () ?wa"
    using run_send_message [OF sender(1,3,2,4) line(3) c(1,2) assms(2)]
    by (simp add: chat_send_def client_send_message_def chat_payload_exact [OF assms(2) line(1)])
  obtain sa where out: "pump_out E (cc_out_stream cca) (?wa, na) = Some (enc (c_relay E) ?s, sa)"
    using pump_out_first [of ?wa "cc_out_stream cca" "enc (c_relay E) ?s" "[]" E na] sender(5)
    by (auto simp: out_chan_sent_relay idle_out_def)
  have d: "carries_data E sid (frame16 c) ?r" by (simp add: carries_data_def relay_of_def)
  obtain r' where r': "relay_path E sid hops (enc (c_relay E) ?s) = Some (enc (c_relay E) r')"
    "carries_data E sid (frame16 c) r'" "enc (c_relay E) r' \<noteq> []" "length (enc (c_relay E) r') \<le> READ_LIMIT"
    using relay_path_data [OF assms(1,4) line(4) hops, of ?s] d fitsD [OF line(4) d] by auto
  let ?wb1 = "push_in st (Inr (enc (c_relay E) r')) wb"
  let ?wb = "conn_push (cc_in_channel ccb) (frame16 c) (?wb1\<lparr>in_chan := (in_chan ?wb1)(ws_stream st := [])\<rparr>)"
  have pin: "pump_in E st (enc (c_relay E) r') (wb, nb) = Some (?wb1, nb)"
    using receiver(6) by (intro pump_in_message [OF assms(4) _ r'(3,4)]) (simp add: idle_in_def)
  have "run (relay_event_handler E st (Some sid)) ?wb1 = Done (Some (T_relay_event_handler st (Some sid))) ?wb"
    using receiver(1,6) assms(1) carries_data_relay [OF assms(1) r'(2)]
    by (intro endpoint_round) (auto simp: push_in_def idle_in_def delivers_def)
  moreover have "\<exists>buf' w'. run (chat_receive E ccb (replicate BUF_LEN 0)) ?wb = Done (?m, buf') w'"
    using receiver line(2) c
    by (intro run_chat_receive [OF assms(1) receiver(2), of _ b c b'])
      (simp_all add: conn_push_def push_in_def BUF_LEN_def)
  ultimately show ?thesis using send out r'(1) pin by blast
qed

theorem chat_line_delivered_witness:
  "\<exists>wa' bs sa bs' wb1 nb1 next wb2 buf' wb3.
    run (chat_send E0 ''s1'' ''Al'' [104, 105]) (scene_node CallerRole) = Done () wa' \<and>
    pump_out E0 (cc_out_stream scene_conn) (wa', scene_net) = Some (bs, sa) \<and>
    relay_path E0 ''s1'' [((scene_node RelayRole, scene_net), scene_stream 3 ''a'', scene_stream 4 ''b'')] bs = Some bs' \<and>
    pump_in E0 (scene_stream 3 ''a'') bs' (scene_node AnswerRole, scene_net) = Some (wb1, nb1) \<and>
    run (relay_event_handler E0 (scene_stream 3 ''a'') (Some ''s1'')) wb1 = Done next wb2 \<and>
    run (chat_receive E0 scene_conn (replicate BUF_LEN 0)) wb2 =
      Done (\<lparr>cm_peer_id = ''Al'', cm_data = [104, 105]\<rparr>, buf') wb3"
proof (rule chat_line_delivered [where R = "\<lambda>_ _. True" and ha = 7 and hb = 7])
  show "\<forall>((w, n), st, other) \<in> set [((scene_node RelayRole, scene_net), scene_stream 3 ''a'', scene_stream 4 ''b'')].
      forwards ''s1'' st other w \<and> idle_in st (w, n) \<and> idle_out other w"
    by (simp add: scene_forwards scene_idle)
  show "noise_write_message E0 (Noise [0])
      (frame32 (enc (c_chat E0) \<lparr>cm_peer_id = ''Al'', cm_data = [104, 105]\<rparr>)) =
      Some (Noise [0], 7 # frame32 [1, 1, 0, 65, 108, 1, 1, 0, 104, 105])"
    unfolding E0_chat_hi by (simp add: E0_def frame32_def put_u32_def)
  show "fits E0 ''s1'' (frame16 (7 # frame32 [1, 1, 0, 65, 108, 1, 1, 0, 104, 105]))"
    by (rule E0_fits) (simp add: frame16_def put_u16_def frame32_def put_u32_def)
qed (simp_all add: scene_delivers scene_idle E0_noise_paired E0_chat_hi BUF_LEN_def, simp_all add: scene_defs idle_out_def)

end
