(* ===== verification/Relay_Props.thy ===== *)
theory Relay_Props
  imports Data_Path
begin

text \<open>
  What the relay handlers guarantee: forwarding, setting up and closing sessions, matching probes,
  the error path of a stream, and which of them cannot panic.
\<close>

section \<open>Runs of the handlers\<close>

definition streams_of :: "session option \<Rightarrow> wrapped_stream list" where
  "streams_of o_s = (case o_s of None \<Rightarrow> []
     | Some s \<Rightarrow> List.map_filter id [early_stream (ses_pair s), later_stream (ses_pair s)])"

definition closed_session :: "string \<Rightarrow> world \<Rightarrow> world" where
  "closed_session sid w = del_probe sid (del_circuit sid
     (fold (\<lambda>st. push_out st WrapedData_Close) (streams_of (session_map w sid)) (del_session sid w)))"

lemma run_close_stream_opt [run_simps]:
  "run (close_stream_opt o_st) w =
     Done () (case o_st of None \<Rightarrow> w | Some st \<Rightarrow> push_out st WrapedData_Close w)"
  by (simp add: close_stream_opt_def run_simps split: option.split)

lemma run_handle_close_session [run_simps]:
  "\<not> poisoned w Lock_session_map \<Longrightarrow> run (handle_close_session sid) w = Done () (closed_session sid w)"
  by (auto simp: handle_close_session_def run_simps closed_session_def streams_of_def map_filter_simps
      split: option.splits)

lemma push_out_frame [simp]:
  "session_map (push_out st d w) = session_map w" "circuit_map (push_out st d w) = circuit_map w"
  "probe_map (push_out st d w) = probe_map w" "poisoned (push_out st d w) = poisoned w"
  "spawned (push_out st d w) = spawned w" "node_request_sender (push_out st d w) = node_request_sender w"
  "request_loop_alive (push_out st d w) = request_loop_alive w" "draws (push_out st d w) = draws w"
  by (simp_all add: push_out_def)

lemma fold_push_out_frame [simp]:
  "session_map (fold (\<lambda>st. push_out st d) sts w) = session_map w"
  "circuit_map (fold (\<lambda>st. push_out st d) sts w) = circuit_map w"
  "probe_map (fold (\<lambda>st. push_out st d) sts w) = probe_map w"
  "poisoned (fold (\<lambda>st. push_out st d) sts w) = poisoned w"
  "spawned (fold (\<lambda>st. push_out st d) sts w) = spawned w"
  "node_request_sender (fold (\<lambda>st. push_out st d) sts w) = node_request_sender w"
  by (induction sts arbitrary: w) simp_all

lemma out_chan_fold_push_out:
  "out_chan (fold (\<lambda>st. push_out st d) sts w) i =
     out_chan w i @ replicate (length (filter (\<lambda>st. ws_stream st = i) sts)) d"
  by (induction sts arbitrary: w) (auto simp: push_out_def replicate_app_Cons_same)

lemma closed_session_maps [simp]:
  "session_map (closed_session sid w) = (session_map w)(sid := None)"
  "circuit_map (closed_session sid w) = (circuit_map w)(sid := None)"
  "probe_map (closed_session sid w) = (probe_map w)(sid := None)"
  "poisoned (closed_session sid w) = poisoned w"
  "spawned (closed_session sid w) = spawned w"
  by (simp_all add: closed_session_def map_update_defs)

lemma out_chan_closed_session:
  "out_chan (closed_session sid w) i = out_chan w i @
     replicate (length (filter (\<lambda>st. ws_stream st = i) (streams_of (session_map w sid)))) WrapedData_Close"
  by (simp add: closed_session_def map_update_defs out_chan_fold_push_out)

lemma run_write_disconnect_arc [run_simps]:
  "run (write_disconnect_arc E st sid) w = Done () (sent_relay E st
     (relay_of Relaytype_Disconnect (enc (c_disconnect E) \<lparr>dc_session_id = sid, dc_err_code = 0\<rparr>)) w)"
  by (simp add: write_disconnect_arc_def run_simps Let_def)

lemma run_send_ack [run_simps]:
  "run (send_ack r) w =
     (if request_loop_alive w
      then Done () (w\<lparr>node_request_sender := node_request_sender w @ [r]\<rparr>) else Panicked w)"
  by (simp add: send_ack_def run_simps)

section \<open>Forwarding\<close>

text \<open>
  C10: forwarding sends one message, on the other stream of the session and on no other, and nothing
  when the message came on neither of its streams. What is sent decodes to a message with the same
  type and data, padded with fewer than a tenth of the data's length plus ten bytes; the tables of
  the node and its other tasks are left alone.
\<close>

theorem forward_relay_one_message:
  assumes "protos_ok E" and "rand_ok E"
    and "early_stream (ses_pair s) = Some e" and "later_stream (ses_pair s) = Some l"
    and "target = (if ws_stream_id e = i then Some l else if ws_stream_id l = i then Some e else None)"
  shows "\<exists>w'. run (forward_relay E s i r) w = Done () w' \<and> same_tables w w' \<and>
    (case target of
       None \<Rightarrow> out_chan w' = out_chan w
     | Some t \<Rightarrow> \<exists>bs r'. out_chan w' = (out_chan w)(ws_stream t := out_chan w (ws_stream t) @ [WrapedData_Data bs]) \<and>
         dec (c_relay E) bs = Some r' \<and> relay_type r' = relay_type r \<and> relay_data r' = relay_data r \<and>
         length (relay_confusion r') < length (relay_data r) div 10 + 10)"
  using assms(1,5) confusion_length [OF assms(2), of "draws w" r]
  by (auto simp: run_forward_relay [OF assms(3,4)] same_tables_def out_chan_sent_relay fun_eq_iff)

theorem forward_relay_one_message_witness:
  "\<exists>w'. run (forward_relay E0 (scene_session RelayRole) ''a'' (relay_of Relaytype_Data [1, 2])) scene_world
      = Done () w' \<and> same_tables scene_world w' \<and>
    (case Some (scene_stream 4 ''b'') of
       None \<Rightarrow> out_chan w' = out_chan scene_world
     | Some t \<Rightarrow> \<exists>bs r'. out_chan w' =
           (out_chan scene_world)(ws_stream t := out_chan scene_world (ws_stream t) @ [WrapedData_Data bs]) \<and>
         dec (c_relay E0) bs = Some r' \<and> relay_type r' = relay_type (relay_of Relaytype_Data [1, 2]) \<and>
         relay_data r' = relay_data (relay_of Relaytype_Data [1, 2]) \<and>
         length (relay_confusion r') < length (relay_data (relay_of Relaytype_Data [1, 2])) div 10 + 10)"
  by (rule forward_relay_one_message [where e = "scene_stream 3 ''a''" and l = "scene_stream 4 ''b''"])
    (simp_all add: scene_defs)

section \<open>Closing\<close>

lemma fold_push_out:
  "fold (\<lambda>st. push_out st d) sts w = w\<lparr>out_chan := \<lambda>i. out_chan w i @
     replicate (length (filter (\<lambda>st. ws_stream st = i) sts)) d\<rparr>"
proof (induction sts arbitrary: w)
  case (Cons st sts)
  then show ?case by (simp add: push_out_def fun_eq_iff replicate_app_Cons_same)
qed simp

lemma closed_session_eq:
  "closed_session sid w = w\<lparr>session_map := (session_map w)(sid := None),
     circuit_map := (circuit_map w)(sid := None), probe_map := (probe_map w)(sid := None),
     out_chan := \<lambda>i. out_chan w i @
       replicate (length (filter (\<lambda>st. ws_stream st = i) (streams_of (session_map w sid)))) WrapedData_Close\<rparr>"
  by (simp add: closed_session_def map_update_defs fold_push_out)

text \<open>
  C11: closing a session removes its id from the session, circuit and probe tables, leaves every
  other id as it was, and queues one \<open>Close\<close> for each of the session's streams behind what is
  queued already; no other stream and no other part of the node's state is touched. Closing it again
  changes nothing.
\<close>

theorem close_session_effect:
  assumes "\<not> poisoned w Lock_session_map"
  shows "\<exists>w'. run (handle_close_session sid) w = Done () w' \<and>
    w' = w\<lparr>session_map := (session_map w)(sid := None),
      circuit_map := (circuit_map w)(sid := None), probe_map := (probe_map w)(sid := None),
      out_chan := \<lambda>i. out_chan w i @ replicate
        (length (filter (\<lambda>st. ws_stream st = i) (streams_of (session_map w sid)))) WrapedData_Close\<rparr> \<and>
    run (handle_close_session sid) w' = Done () w'"
proof -
  have "closed_session sid (closed_session sid w) = closed_session sid w"
    by (simp add: closed_session_def [of sid "closed_session sid w"] streams_of_def map_update_defs)
  with assms show ?thesis unfolding closed_session_eq [symmetric] by (simp add: run_simps)
qed

theorem close_session_effect_witness:
  "\<exists>w'. run (handle_close_session ''s1'') (scene_node CallerRole) = Done () w' \<and>
    w' = (scene_node CallerRole)\<lparr>session_map := (session_map (scene_node CallerRole))(''s1'' := None),
      circuit_map := (circuit_map (scene_node CallerRole))(''s1'' := None), probe_map := (probe_map (scene_node CallerRole))(''s1'' := None),
      out_chan := \<lambda>i. out_chan (scene_node CallerRole) i @ replicate
        (length (filter (\<lambda>st. ws_stream st = i) (streams_of (session_map (scene_node CallerRole) ''s1'')))) WrapedData_Close\<rparr> \<and>
    run (handle_close_session ''s1'') w' = Done () w'"
  by (rule close_session_effect) (simp add: scene_defs)

section \<open>Setting a session\<close>

lemmas set_session_simps = handle_set_session_def Let_def run_simps put_session_def

lemma set_session_new:
  assumes "\<not> poisoned w Lock_session_map" and "request_loop_alive w"
    and "session_map w (ssm_session_id msg) = None"
  shows "run (handle_set_session E msg st rid) w = Done ()
    (w\<lparr>session_map := (session_map w)(ssm_session_id msg \<mapsto> new_session (ssm_session_id msg) (ssm_role msg) st),
       node_request_sender := node_request_sender w @ [ack_to (ws_remote_peer_id st) rid True []]\<rparr>)"
  using assms by (simp add: set_session_simps)

lemma set_session_later:
  assumes "\<not> poisoned w Lock_session_map" and "request_loop_alive w"
    and "session_map w (ssm_session_id msg) = Some s"
    and "\<not> (ses_role s = session_role_i32 EntryRole \<and> ssm_role msg = session_role_i32 RelayRole)"
  shows "run (handle_set_session E msg st rid) w = Done ()
    (w\<lparr>session_map := (session_map w)(ssm_session_id msg \<mapsto> set_later st s),
       node_request_sender := node_request_sender w @ [ack_to (ws_remote_peer_id st) rid True []]\<rparr>)"
  using assms by (auto simp: set_session_simps)

text \<open>The bytes of a message that tells the other end to close the session.\<close>

definition disconnects :: "ext \<Rightarrow> string \<Rightarrow> bytes \<Rightarrow> bool" where
  "disconnects E sid bs \<longleftrightarrow> (\<exists>r. dec (c_relay E) bs = Some r \<and>
     relay_type r = relaytype_i32 Relaytype_Disconnect \<and>
     dec (c_disconnect E) (relay_data r) = Some \<lparr>dc_session_id = sid, dc_err_code = 0\<rparr>)"

lemma set_session_swap:
  assumes "protos_ok E" and "\<not> poisoned w Lock_session_map" and "request_loop_alive w"
    and "session_map w (ssm_session_id msg) = Some s" and "wf_session (ssm_session_id msg) s"
    and "ses_role s = session_role_i32 EntryRole" "ssm_role msg = session_role_i32 RelayRole"
    and "later_stream (ses_pair s) = Some old"
  shows "\<exists>bs w'. run (handle_set_session E msg st rid) w = Done () w' \<and>
    session_map w' = (session_map w)(ssm_session_id msg \<mapsto> set_later st s) \<and>
    circuit_map w' = circuit_map w \<and> probe_map w' = probe_map w \<and>
    node_request_sender w' = node_request_sender w @ [ack_to (ws_remote_peer_id st) rid True []] \<and>
    disconnects E (ssm_session_id msg) bs \<and>
    out_chan w' = (out_chan w)(ws_stream old := out_chan w (ws_stream old) @ [WrapedData_Data bs, WrapedData_Close])"
proof -
  have "ready s" using assms(5,8) by (simp add: ready_def wf_session_def)
  moreover have "disconnects E sid (enc (c_relay E) (on_wire E n
      (relay_of Relaytype_Disconnect (enc (c_disconnect E) \<lparr>dc_session_id = sid, dc_err_code = 0\<rparr>))))" for n sid
    using assms(1) by (simp add: disconnects_def relay_of_def)
  ultimately show ?thesis using assms by (auto simp: set_session_simps push_out_def sent_relay_def)
qed

lemma set_session_close:
  assumes "\<not> poisoned w Lock_session_map" and "session_map w (ssm_session_id msg) = Some s"
    and "ses_role s = session_role_i32 EntryRole" "ssm_role msg = session_role_i32 RelayRole"
    and "later_stream (ses_pair s) = None"
  shows "run (handle_set_session E msg st rid) w = Done () (closed_session (ssm_session_id msg) w)"
  using assms by (simp add: set_session_simps ready_def)

lemma closed_session_early:
  assumes "session_map w sid = Some s" and "early_stream (ses_pair s) = Some e" and "later_stream (ses_pair s) = None"
  shows "closed_session sid w = w\<lparr>session_map := (session_map w)(sid := None),
     circuit_map := (circuit_map w)(sid := None), probe_map := (probe_map w)(sid := None),
     out_chan := (out_chan w)(ws_stream e := out_chan w (ws_stream e) @ [WrapedData_Close])\<rparr>"
  using assms by (simp add: closed_session_def map_update_defs streams_of_def map_filter_simps push_out_def)

text \<open>
  C12: what a \<open>SetSessionId\<close> message does to the tables, the streams and the acknowledgements, on
  every branch. For an unknown session the stream becomes its early stream, with the role the message
  names. For a known one the stream becomes its later stream and the session is ready. An entry node
  that is told of a relay node swaps its later stream for the new one, and sends the old one a
  \<open>Disconnect\<close> message for the session and closes it; when it has no later stream yet it closes the
  session instead, which removes it from the three tables and closes its early stream. In every
  branch but the last the sender gets one positive acknowledgement of the message, and the circuit and
  probe tables stay as they were.
\<close>

theorem set_session_branches:
  assumes "protos_ok E" and "node_inv w" and "\<not> poisoned w Lock_session_map" and "request_loop_alive w"
  shows "\<exists>w'. run (handle_set_session E msg st rid) w = Done () w' \<and>
    (let sid = ssm_session_id msg; ack = ack_to (ws_remote_peer_id st) rid True [];
         acked = (node_request_sender w' = node_request_sender w @ [ack] \<and>
           circuit_map w' = circuit_map w \<and> probe_map w' = probe_map w) in
     case session_map w sid of
       None \<Rightarrow>
         acked \<and> out_chan w' = out_chan w \<and>
         session_map w' = (session_map w)(sid \<mapsto> new_session sid (ssm_role msg) st)
     | Some s \<Rightarrow>
         if ses_role s = session_role_i32 EntryRole \<and> ssm_role msg = session_role_i32 RelayRole
         then (case later_stream (ses_pair s) of
                 None \<Rightarrow> node_request_sender w' = node_request_sender w \<and>
                   session_map w' = (session_map w)(sid := None) \<and>
                   circuit_map w' = (circuit_map w)(sid := None) \<and>
                   probe_map w' = (probe_map w)(sid := None) \<and>
                   (\<exists>e. early_stream (ses_pair s) = Some e \<and> out_chan w' = (out_chan w)(ws_stream e :=
                      out_chan w (ws_stream e) @ [WrapedData_Close]))
               | Some old \<Rightarrow> acked \<and> session_map w' = (session_map w)(sid \<mapsto> set_later st s) \<and>
                   (\<exists>bs. disconnects E sid bs \<and> out_chan w' = (out_chan w)(ws_stream old :=
                      out_chan w (ws_stream old) @ [WrapedData_Data bs, WrapedData_Close])))
         else acked \<and> out_chan w' = out_chan w \<and> ready (set_later st s) \<and>
           session_map w' = (session_map w)(sid \<mapsto> set_later st s))"
proof (cases "session_map w (ssm_session_id msg)")
  case None
  then show ?thesis by (simp add: set_session_new assms Let_def)
next
  case (Some s)
  then have wf: "wf_session (ssm_session_id msg) s" using assms(2) by (simp add: node_inv_def)
  then obtain e where e: "early_stream (ses_pair s) = Some e" by (auto simp: wf_session_def)
  show ?thesis
  proof (cases "ses_role s = session_role_i32 EntryRole \<and> ssm_role msg = session_role_i32 RelayRole")
    case True
    show ?thesis
    proof (cases "later_stream (ses_pair s)")
      case None
      then show ?thesis
        using True Some e set_session_close [OF assms(3) Some _ _ None] closed_session_early [OF Some e None]
        by (simp add: Let_def)
    next
      case old: (Some old)
      from set_session_swap [OF assms(1,3,4) Some wf _ _ old] True show ?thesis
        using Some old by (force simp: Let_def)
    qed
  next
    case False
    then show ?thesis
      using Some ready_set_later [OF wf] set_session_later [OF assms(3,4) Some False]
      by (auto simp: Let_def)
  qed
qed

theorem set_session_branches_witness:
  "\<exists>w'. run (handle_set_session E0 \<lparr>ssm_session_id = ''s2'', ssm_role = session_role_i32 SinkRole\<rparr>
           (scene_stream 3 ''a'') ''r'') scene_world = Done () w' \<and>
    session_map w' = [''s2'' \<mapsto> new_session ''s2'' (session_role_i32 SinkRole) (scene_stream 3 ''a'')]"
proof -
  have "node_inv scene_world" using wire_inv_initial [of E0] unfolding scene_world_def wire_inv_def by blast
  from set_session_branches [OF E0_protos this, of "\<lparr>ssm_session_id = ''s2'', ssm_role = session_role_i32 SinkRole\<rparr>"
    "scene_stream 3 ''a''" "''r''"]
  show ?thesis by (auto simp: Let_def scene_world_def initial_world_def)
qed

section \<open>Probes\<close>

lemma run_probe_sink:
  assumes "\<not> poisoned w Lock_session_map" and "session_map w sid = Some s"
    and "ses_role s = session_role_i32 SinkRole"
    and "dec (c_probe E) (relay_data r) = Some p"
  shows "run (handle_relay_probe E sid st r) w =
    (case probe_map w sid of
       None \<Rightarrow> Done () (put_probe sid \<lparr>probe_session_id = sid, probe_rand = ps_data p\<rparr> w)
     | Some q \<Rightarrow>
         if probe_rand q = ps_data p
         then run (send_relay_twoway s (new_relay_circuit_success E sid)) w
         else Done () (closed_session sid w))"
  using assms by (simp add: handle_relay_probe_def run_simps split: option.split)

text \<open>
  C13: the sink of a circuit matches the probes that reach it from both sides. After the first one it
  waits; when the second one carries the same value it spawns the success message on both of its
  streams and keeps the session, otherwise it closes the session.
\<close>

theorem sink_matches_probes:
  assumes "protos_ok E" and "\<not> poisoned w Lock_session_map" and "session_map w sid = Some s"
    and "ses_role s = session_role_i32 SinkRole" and "probe_map w sid = None"
    and "early_stream (ses_pair s) = Some e" and "later_stream (ses_pair s) = Some l"
    and "relay_data r1 = enc (c_probe E) \<lparr>ps_session_id = xa, ps_data = da\<rparr>"
    and "relay_data r2 = enc (c_probe E) \<lparr>ps_session_id = xb, ps_data = db\<rparr>"
  shows "\<exists>w1 w2. run (handle_relay_probe E sid st1 r1) w = Done () w1 \<and>
    session_map w1 = session_map w \<and> spawned w1 = spawned w \<and>
    run (handle_relay_probe E sid st2 r2) w1 = Done () w2 \<and>
    (if da = db
     then session_map w2 sid = Some s \<and>
       spawned w2 = spawned w @ [T_write_relay_arc e (new_relay_circuit_success E sid),
                                 T_write_relay_arc l (new_relay_circuit_success E sid)]
     else session_map w2 sid = None \<and> probe_map w2 sid = None \<and> spawned w2 = spawned w)"
proof -
  let ?w1 = "put_probe sid \<lparr>probe_session_id = sid, probe_rand = da\<rparr> w"
  have 1: "run (handle_relay_probe E sid st1 r1) w = Done () ?w1"
    using assms by (simp add: run_probe_sink)
  have 2: "run (handle_relay_probe E sid st2 r2) ?w1 =
      (if da = db then run (send_relay_twoway s (new_relay_circuit_success E sid)) ?w1
       else Done () (closed_session sid ?w1))"
    using assms by (subst run_probe_sink [where s = s and p = "\<lparr>ps_session_id = xb, ps_data = db\<rparr>"]) (simp_all add: put_probe_def)
  show ?thesis
    using assms by (simp add: 1 2) (simp add: run_simps put_probe_def map_filter_simps)
qed

theorem sink_matches_probes_witness:
  "\<exists>w1 w2. run (handle_relay_probe E0 ''s1'' (scene_stream 3 ''a'') (new_relay_probe E0 ''s1''))
      (scene_node SinkRole) = Done () w1 \<and>
    session_map w1 = session_map (scene_node SinkRole) \<and> spawned w1 = spawned (scene_node SinkRole) \<and>
    run (handle_relay_probe E0 ''s1'' (scene_stream 4 ''b'') (new_relay_probe E0 ''s1'')) w1 = Done () w2 \<and>
    (if pad32 (as_bytes ''s1'') = pad32 (as_bytes ''s1'')
     then session_map w2 ''s1'' = Some (scene_session SinkRole) \<and>
       spawned w2 = spawned (scene_node SinkRole) @
         [T_write_relay_arc (scene_stream 3 ''a'') (new_relay_circuit_success E0 ''s1''),
          T_write_relay_arc (scene_stream 4 ''b'') (new_relay_circuit_success E0 ''s1'')]
     else session_map w2 ''s1'' = None \<and> probe_map w2 ''s1'' = None \<and> spawned w2 = spawned (scene_node SinkRole))"
proof -
  have "relay_data (new_relay_probe E0 ''s1'') =
      enc (c_probe E0) \<lparr>ps_session_id = ''s1'', ps_data = pad32 (as_bytes ''s1'')\<rparr>"
    by (simp add: new_relay_probe_def relay_of_def E0_def)
  then show ?thesis
    by (intro sink_matches_probes [where xa = "''s1''" and xb = "''s1''"]) (simp_all add: scene_defs)
qed

section \<open>Errors of a stream\<close>

text \<open>
  C22: when a stream fails, its handler ends, and it closes the session it served just when the
  stream still is one of the session's two. A session that has swapped the stream for another
  stays as it is.
\<close>

theorem stream_error_closes:
  assumes "in_chan w (ws_stream st) = Inl err # rest" and "\<not> poisoned w Lock_session_map"
  shows "\<exists>w'. run (relay_event_handler E st (Some sid)) w = Done None w' \<and>
    session_map w' = (case session_map w sid of
        Some s \<Rightarrow> if has_stream s (ws_stream_id st) then (session_map w)(sid := None) else session_map w
      | None \<Rightarrow> session_map w)"
  using assms
  by (auto simp: relay_event_handler_def read_from_negotiated_arc_def run_simps Let_def
      split: option.splits)

theorem stream_error_closes_witness:
  "\<exists>w'. run (relay_event_handler E0 (scene_stream 3 ''a'') (Some ''s1''))
      ((scene_node RelayRole)\<lparr>in_chan := (\<lambda>_. [Inl (ReadOneError_Io ''gone'')])\<rparr>) = Done None w' \<and>
    session_map w' = (case session_map ((scene_node RelayRole)\<lparr>in_chan := (\<lambda>_. [Inl (ReadOneError_Io ''gone'')])\<rparr>) ''s1'' of
        Some s \<Rightarrow> if has_stream s (ws_stream_id (scene_stream 3 ''a''))
          then (session_map ((scene_node RelayRole)\<lparr>in_chan := (\<lambda>_. [Inl (ReadOneError_Io ''gone'')])\<rparr>))(''s1'' := None)
          else session_map ((scene_node RelayRole)\<lparr>in_chan := (\<lambda>_. [Inl (ReadOneError_Io ''gone'')])\<rparr>)
      | None \<Rightarrow> session_map ((scene_node RelayRole)\<lparr>in_chan := (\<lambda>_. [Inl (ReadOneError_Io ''gone'')])\<rparr>))"
  by (rule stream_error_closes [where rest = "[]"]) (simp_all add: scene_defs)

section \<open>No panic on the data path\<close>

lemma safe_write_relay_arc: "safe I (\<lambda>_. True) (write_relay_arc E st r)"
  unfolding write_relay_arc_def confusion_relay_def jitter_def random_jitter_duration_def draw_def
    ws_write_def
  by (simp add: bind_assoc Let_def safe_simps yield_now_def)

lemma safe_forward_relay: "ready s \<Longrightarrow> safe I (\<lambda>_. True) (forward_relay E s i r)"
  unfolding forward_relay_def ready_def
  by (cases "early_stream (ses_pair s)"; cases "later_stream (ses_pair s)")
    (auto intro!: safe_andthen safe_write_relay_arc)

lemma safe_read_session:
  "(\<And>w. I w \<Longrightarrow> \<not> poisoned w Lock_session_map) \<Longrightarrow> safe I (\<lambda>_. True) (read_session sid)"
  by (simp add: read_session_def under_def safe_simps)

text \<open>
  C25: a data message never brings its handler down. Whatever the other tasks do in between, as long
  as the lock of the session table is not poisoned, handling a data message does not panic: not when
  the payload does not decode, not for an unknown session, not when the session is closed meanwhile.
\<close>

theorem relay_data_never_panics:
  "safe (\<lambda>w. \<not> poisoned w Lock_session_map) (\<lambda>_. True) (handle_relay_msg E r st)"
  by (auto simp: handle_relay_msg_def Let_def intro!: safe_bind_any safe_read_session safe_forward_relay
      split: option.split)

end
