(* ===== verification/Node_Props.thy ===== *)
theory Node_Props
  imports Relay_Props "HOL-Library.Multiset"
begin

text \<open>
  What the node's own operations guarantee: acknowledgements reach the task that waits for them,
  the queue of outgoing streams is searched without loss, a session is set up on both of its ends,
  and the tables stay consistent in every interleaving of a running node.
\<close>

section \<open>The tables of a running node\<close>

text \<open>The states in which a node starts: a server, or the node of a client.\<close>

definition started :: "ext \<Rightarrow> run_mode \<Rightarrow> world \<Rightarrow> swarm \<Rightarrow> bool" where
  "started E mode w n \<longleftrightarrow>
     mode = RunMode_Server \<and>
       (\<exists>ok boot port kt kp db db'. start_server E ok boot port kt kp db = Some (w, n, db')) \<or>
     mode = RunMode_Client \<and>
       (\<exists>addr kt kp db cl db'. client_init E addr kt kp db = Some (cl, w, n, db'))"

lemma started_wire_inv: "started E mode w n \<Longrightarrow> wire_inv E w"
  by (auto simp: started_def intro: start_server_wire_inv client_init_wire_inv)

lemma reachable_wire_inv:
  assumes "started E mode w0 n0" and "reachable E mode (w0, n0, []) (w, n, ths)"
  shows "wire_inv E w"
  using sched.reachable_keeps [OF assms(2)] started_wire_inv [OF assms(1)] by simp

text \<open>
  C3: however the tasks of a node interleave, whatever the network delivers and whatever its client
  calls, in every state it can reach the session stored under an id carries that id and has its
  early stream, the circuit connection stored under an id carries that id, and so does the probe.
\<close>

theorem tables_consistent:
  assumes "started E mode w0 n0" and "reachable E mode (w0, n0, []) (w, n, ths)"
  shows "\<forall>sid.
    (\<forall>s. session_map w sid = Some s \<longrightarrow> ses_id s = sid \<and> early_stream (ses_pair s) \<noteq> None) \<and>
    (\<forall>cc. circuit_map w sid = Some cc \<longrightarrow> cc_id cc = sid) \<and>
    (\<forall>p. probe_map w sid = Some p \<longrightarrow> probe_session_id p = sid)"
  using reachable_wire_inv [OF assms] by (simp add: wire_inv_def node_inv_def wf_session_def)

text \<open>A server that has just started.\<close>

definition scene_server :: world where
  "scene_server = (initial_world RunMode_Server (KeyEd25519 [42]) None 2)
     \<lparr>spawned := [T_process_publish_request, T_process_proxy_request, T_process_cmd_request,
                  T_process_new_stream]\<rparr>"

definition scene_swarm :: swarm where
  "scene_swarm = (initial_swarm E0 [])
     \<lparr>kad_closest := [into_peer_id E0 (KeySecp256k1 (secp_generate E0 1))]\<rparr>"

lemma scene_started: "started E0 RunMode_Server scene_server scene_swarm"
proof -
  have "start_server E0 (\<lambda>_. True) None None ''ed25519'' (Some (KeyEd25519 [42])) Map.empty =
      Some (scene_server, scene_swarm, Map.empty)"
    by (simp add: start_server_def start_def load_keypair_def add_bootstrap_def start_server_mode_def
        listen_def initial_world_def scene_server_def scene_swarm_def Let_def)
  then show ?thesis unfolding started_def by blast
qed

theorem tables_consistent_witness:
  "\<exists>w0 n0 w n ths. started E0 RunMode_Server w0 n0 \<and>
    reachable E0 RunMode_Server (w0, n0, []) (w, n, ths) \<and> ths \<noteq> [] \<and>
    (\<forall>sid.
      (\<forall>s. session_map w sid = Some s \<longrightarrow> ses_id s = sid \<and> early_stream (ses_pair s) \<noteq> None) \<and>
      (\<forall>cc. circuit_map w sid = Some cc \<longrightarrow> cc_id cc = sid) \<and>
      (\<forall>p. probe_map w sid = Some p \<longrightarrow> probe_session_id p = sid))"
proof -
  have s: "spawned scene_server = [] @ T_process_publish_request # tl (spawned scene_server)"
    by (simp add: scene_server_def)
  note r = reach_step [OF reach_refl step_spawn [where ts = "[]", OF s, of E0 RunMode_Server scene_swarm "[]"]]
  from tables_consistent [OF scene_started r] scene_started r show ?thesis by blast
qed

section \<open>Acknowledgements\<close>

abbreviation ack_event :: "peer_id \<Rightarrow> ack \<Rightarrow> ack rr_event" where
  "ack_event p a \<equiv> RequestResponseEvent_Message p (RequestResponseMessage_Request a)"

definition fresh_handles :: "world \<Rightarrow> bool" where
  "fresh_handles w \<longleftrightarrow> (\<forall>key h. event_bus w key = Some h \<longrightarrow> h < next_handle w)"

lemma run_recv_ack:
  "run (recv_ack h) w =
     (if oneshots w h = Oneshot_Pending then Blocked (recv_ack h) w
      else Done (case oneshots w h of Oneshot_Sent (Oneshot_Ack a) \<Rightarrow> Some a | _ \<Rightarrow> None) w)"
  by (cases "oneshots w h")
    (auto simp: recv_ack_def oneshot_recv_def run_simps split: oneshot_msg.splits)

lemma oneshots_event_bus_put:
  "oneshots (event_bus_put key h w) = (case event_bus w key of
     Some h' \<Rightarrow> if oneshots w h' = Oneshot_Pending then (oneshots w)(h' := Oneshot_Canceled) else oneshots w
   | None \<Rightarrow> oneshots w)"
  "event_bus (event_bus_put key h w) = (event_bus w)(key \<mapsto> h)"
  by (auto simp: event_bus_put_def drop_sender_def Let_def split: option.splits)

lemma event_bus_put_frame [simp]:
  "node_request_sender (event_bus_put key h w) = node_request_sender w"
  "request_loop_alive (event_bus_put key h w) = request_loop_alive w"
  "next_handle (event_bus_put key h w) = next_handle w"
  "session_map (event_bus_put key h w) = session_map w"
  "out_chan (event_bus_put key h w) = out_chan w"
  "spawned (event_bus_put key h w) = spawned w"
  "poisoned (event_bus_put key h w) = poisoned w"
  "circuit_map (event_bus_put key h w) = circuit_map w"
  "circuit_task (event_bus_put key h w) = circuit_task w"
  "proxy_id (event_bus_put key h w) = proxy_id w"
  "node_keypair (event_bus_put key h w) = node_keypair w"
  by (auto simp: event_bus_put_def drop_sender_def Let_def split: option.splits)

lemma ack_other:
  assumes "event_bus w (ack_command_id a) \<noteq> Some h" and "oneshots w h = Oneshot_Pending"
  shows "\<exists>w2. inject_ack_event (ack_event peer a) w = Some w2 \<and> oneshots w2 h = Oneshot_Pending"
  using assms by (auto simp: inject_ack_event_def Let_def oneshot_send_def split: option.split)

lemma ack_own:
  assumes "event_bus w (ack_command_id a) = Some h"
  shows "\<exists>w2. inject_ack_event (ack_event peer a) w = Some w2 \<and>
    oneshots w2 h = Oneshot_Sent (Oneshot_Ack a) \<and> event_bus w2 (ack_command_id a) = None"
  using assms by (simp add: inject_ack_event_def Let_def oneshot_send_def)

lemma ack_none:
  assumes "event_bus w (ack_command_id a) = None"
  shows "inject_ack_event (ack_event peer a) w = Some w"
proof -
  have "(event_bus w)(ack_command_id a := None) = event_bus w" using assms by auto
  with assms show ?thesis by (simp add: inject_ack_event_def Let_def)
qed

lemma run_await_ack:
  "oneshots w h = Oneshot_Pending \<Longrightarrow> run (bind (recv_ack h) unwrap) w = Blocked (bind (recv_ack h) unwrap) w"
  "oneshots w h = Oneshot_Sent (Oneshot_Ack a) \<Longrightarrow> run (bind (recv_ack h) unwrap) w = Done a w"
  by (simp_all add: run_bind run_recv_ack)

lemma run_send_and_wait:
  assumes "request_loop_alive w" and "fresh_handles w"
  shows "\<exists>w1. run (external_send_node_request_and_wait key r) w =
      Blocked (bind (recv_ack (next_handle w)) unwrap) w1 \<and>
    node_request_sender w1 = node_request_sender w @ [r] \<and>
    oneshots w1 (next_handle w) = Oneshot_Pending \<and>
    event_bus w1 = (event_bus w)(key \<mapsto> next_handle w) \<and>
    session_map w1 = session_map w \<and> circuit_map w1 = circuit_map w \<and> proxy_id w1 = proxy_id w"
proof -
  let ?w = "w\<lparr>oneshots := (oneshots w)(next_handle w := Oneshot_Pending), next_handle := Suc (next_handle w)\<rparr>"
  have "event_bus w key \<noteq> Some (next_handle w)" using assms(2) by (auto simp: fresh_handles_def)
  then have "oneshots (event_bus_put key (next_handle w) ?w) (next_handle w) = Oneshot_Pending"
    by (auto simp: oneshots_event_bus_put split: option.split)
  then show ?thesis
    using assms(1)
    by (simp add: external_send_node_request_and_wait_def run_simps run_await_ack [unfolded run_bind]
        oneshots_event_bus_put(2) run_recv_ack)
qed

text \<open>
  C17: a request waits for its own acknowledgement. The task queues the request and blocks; an
  acknowledgement with another id leaves it blocked; the one with its id makes it return that
  acknowledgement; a second one with the same id is dropped.
\<close>

theorem ack_reaches_requester:
  assumes "request_loop_alive w" and "fresh_handles w"
  shows "\<exists>p w1. run (external_send_node_request_and_wait key r) w = Blocked p w1 \<and>
    node_request_sender w1 = node_request_sender w @ [r] \<and>
    (\<forall>peer a. ack_command_id a \<noteq> key \<longrightarrow>
       (\<exists>w2. inject_ack_event (ack_event peer a) w1 = Some w2 \<and> run p w2 = Blocked p w2)) \<and>
    (\<forall>peer a. ack_command_id a = key \<longrightarrow>
       (\<exists>w2. inject_ack_event (ack_event peer a) w1 = Some w2 \<and> run p w2 = Done a w2 \<and>
         (\<forall>peer' b. ack_command_id b = key \<longrightarrow> inject_ack_event (ack_event peer' b) w2 = Some w2)))"
proof -
  let ?p = "bind (recv_ack (next_handle w)) unwrap"
  obtain w1 where w1: "run (external_send_node_request_and_wait key r) w = Blocked ?p w1"
    "node_request_sender w1 = node_request_sender w @ [r]"
    "oneshots w1 (next_handle w) = Oneshot_Pending" "event_bus w1 = (event_bus w)(key \<mapsto> next_handle w)"
    using run_send_and_wait [OF assms] by blast
  have "\<exists>w2. inject_ack_event (ack_event peer a) w1 = Some w2 \<and> run ?p w2 = Blocked ?p w2"
    if "ack_command_id a \<noteq> key" for peer a
  proof -
    have "event_bus w1 (ack_command_id a) \<noteq> Some (next_handle w)"
      using that w1(4) assms(2) by (auto simp: fresh_handles_def)
    from ack_other [OF this w1(3)] show ?thesis by (metis run_await_ack(1))
  qed
  moreover have "\<exists>w2. inject_ack_event (ack_event peer a) w1 = Some w2 \<and> run ?p w2 = Done a w2 \<and>
      (\<forall>peer' b. ack_command_id b = key \<longrightarrow> inject_ack_event (ack_event peer' b) w2 = Some w2)"
    if key: "ack_command_id a = key" for peer a
  proof -
    have "event_bus w1 (ack_command_id a) = Some (next_handle w)" using key w1(4) by simp
    from ack_own [OF this] key show ?thesis by (metis ack_none run_await_ack(2))
  qed
  ultimately show ?thesis using w1(1,2) by blast
qed

theorem ack_reaches_requester_witness:
  "\<exists>p w1. run (external_send_node_request_and_wait ''k'' (NodeRequest_NewStreamRequest (PeerId [1]))) scene_world
      = Blocked p w1 \<and>
    node_request_sender w1 = node_request_sender scene_world @ [NodeRequest_NewStreamRequest (PeerId [1])] \<and>
    (\<forall>peer a. ack_command_id a \<noteq> ''k'' \<longrightarrow>
       (\<exists>w2. inject_ack_event (ack_event peer a) w1 = Some w2 \<and> run p w2 = Blocked p w2)) \<and>
    (\<forall>peer a. ack_command_id a = ''k'' \<longrightarrow>
       (\<exists>w2. inject_ack_event (ack_event peer a) w1 = Some w2 \<and> run p w2 = Done a w2 \<and>
         (\<forall>peer' b. ack_command_id b = ''k'' \<longrightarrow> inject_ack_event (ack_event peer' b) w2 = Some w2)))"
  by (rule ack_reaches_requester) (simp_all add: scene_world_def initial_world_def fresh_handles_def)

section \<open>The queue of outgoing streams\<close>

lemma run_pop_out_stream [run_simps]:
  "run pop_out_stream w = Done (case relay_out_streams w of [] \<Rightarrow> None | st # _ \<Rightarrow> Some st)
     (w\<lparr>relay_out_streams := tl (relay_out_streams w)\<rparr>)"
  by (simp add: pop_out_stream_def run_simps)

lemma run_push_out_stream [run_simps]:
  "run (push_out_stream st) w = Done () (w\<lparr>relay_out_streams := relay_out_streams w @ [st]\<rparr>)"
  by (simp add: push_out_stream_def run_simps)

text \<open>A scan of \<open>xs\<close>, with \<open>ys\<close> behind it: the streams before the first match go to the back.\<close>

lemma run_scan:
  assumes "relay_out_streams w = xs @ ys"
  shows "run (scan_out_streams p (length xs)) w =
    (case find (\<lambda>st. ws_remote_peer_id st = p) xs of
       None \<Rightarrow> Done None (w\<lparr>relay_out_streams := ys @ xs\<rparr>)
     | Some st \<Rightarrow> Done (Some st) (w\<lparr>relay_out_streams :=
         tl (dropWhile (\<lambda>st. ws_remote_peer_id st \<noteq> p) xs) @ ys @
         takeWhile (\<lambda>st. ws_remote_peer_id st \<noteq> p) xs\<rparr>))"
  using assms
proof (induction xs arbitrary: w ys)
  case (Cons x xs)
  show ?case
  proof (cases "ws_remote_peer_id x = p")
    case True
    with Cons.prems show ?thesis by (simp add: run_simps)
  next
    case False
    let ?w = "w\<lparr>relay_out_streams := xs @ ys @ [x]\<rparr>"
    have "run (scan_out_streams p (length xs)) ?w =
      (case find (\<lambda>st. ws_remote_peer_id st = p) xs of
         None \<Rightarrow> Done None (?w\<lparr>relay_out_streams := (ys @ [x]) @ xs\<rparr>)
       | Some st \<Rightarrow> Done (Some st) (?w\<lparr>relay_out_streams :=
           tl (dropWhile (\<lambda>st. ws_remote_peer_id st \<noteq> p) xs) @ (ys @ [x]) @
           takeWhile (\<lambda>st. ws_remote_peer_id st \<noteq> p) xs\<rparr>))"
      by (rule Cons.IH) simp
    with False Cons.prems show ?thesis by (simp add: run_simps split: option.split)
  qed
qed simp

lemma find_split:
  "find P xs = Some x \<Longrightarrow> xs = takeWhile (\<lambda>y. \<not> P y) xs @ x # tl (dropWhile (\<lambda>y. \<not> P y) xs)"
  by (induction xs) (auto split: if_splits)

lemma run_scan_all:
  "run (scan_out_streams p (length (relay_out_streams w))) w =
    (case find (\<lambda>st. ws_remote_peer_id st = p) (relay_out_streams w) of
       None \<Rightarrow> Done None w
     | Some st \<Rightarrow> Done (Some st) (w\<lparr>relay_out_streams :=
         tl (dropWhile (\<lambda>st. ws_remote_peer_id st \<noteq> p) (relay_out_streams w)) @
         takeWhile (\<lambda>st. ws_remote_peer_id st \<noteq> p) (relay_out_streams w)\<rparr>))"
  using run_scan [of w "relay_out_streams w" "[]" p]
  by (cases "find (\<lambda>st. ws_remote_peer_id st = p) (relay_out_streams w)") simp_all

lemma run_wait_for_out_None:
  assumes "find (\<lambda>st. ws_remote_peer_id st = p) (relay_out_streams w) = None"
  shows "run (wait_for_out p t) w = Done None w"
  using assms
proof (induction p t rule: wait_for_out.induct)
  case (1 p t)
  show ?case
  proof (cases "t \<ge> 5000")
    case False
    with 1 have "run (wait_for_out p (t + 50)) w = Done None w" by simp
    with False 1(2) show ?thesis
      by (subst wait_for_out.simps) (simp add: run_simps run_scan_all)
  qed (simp add: wait_for_out.simps)
qed

lemma run_wait_for_out_stream:
  "\<exists>q. run (wait_for_out_peer_relay_stream p) w =
      Done (find (\<lambda>st. ws_remote_peer_id st = p) (relay_out_streams w)) (w\<lparr>relay_out_streams := q\<rparr>) \<and>
    (case find (\<lambda>st. ws_remote_peer_id st = p) (relay_out_streams w) of
       None \<Rightarrow> q = relay_out_streams w
     | Some st \<Rightarrow> mset (relay_out_streams w) = add_mset st (mset q))"
proof (cases "find (\<lambda>st. ws_remote_peer_id st = p) (relay_out_streams w)")
  case None
  then show ?thesis by (simp add: wait_for_out_peer_relay_stream_def run_wait_for_out_None)
next
  case (Some st)
  let ?q = "tl (dropWhile (\<lambda>st. ws_remote_peer_id st \<noteq> p) (relay_out_streams w)) @
    takeWhile (\<lambda>st. ws_remote_peer_id st \<noteq> p) (relay_out_streams w)"
  have "mset (relay_out_streams w) = add_mset st (mset ?q)"
    by (subst find_split [OF Some]) simp
  moreover have "run (wait_for_out_peer_relay_stream p) w = Done (Some st) (w\<lparr>relay_out_streams := ?q\<rparr>)"
    unfolding wait_for_out_peer_relay_stream_def
    by (subst wait_for_out.simps) (simp add: run_simps run_scan_all Some)
  ultimately show ?thesis using Some by auto
qed

text \<open>
  C24: waiting for an outgoing stream to a peer takes the first stream of the queue that leads to the
  peer, keeps every other one in the queue, and changes nothing else. When there is none and none
  comes, it gives up and returns without one, with the queue as it was.
\<close>

theorem wait_for_out_stream:
  "\<exists>q. run (wait_for_out_peer_relay_stream p) w =
      Done (find (\<lambda>st. ws_remote_peer_id st = p) (relay_out_streams w)) (w\<lparr>relay_out_streams := q\<rparr>) \<and>
    (case find (\<lambda>st. ws_remote_peer_id st = p) (relay_out_streams w) of
       None \<Rightarrow> q = relay_out_streams w
     | Some st \<Rightarrow> mset (relay_out_streams w) = add_mset st (mset q))"
  by (rule run_wait_for_out_stream)

section \<open>Setting up a session\<close>

definition set_session_relay :: "ext \<Rightarrow> string \<Rightarrow> i32 \<Rightarrow> relay" where
  "set_session_relay E sid role =
     relay_of Relaytype_SetSessionId (enc (c_set_session E) \<lparr>ssm_session_id = sid, ssm_role = role\<rparr>)"

lemma run_set_session_writers [run_simps]:
  "run (write_relay_wake_arc E st) w = Done () (sent_relay E st (relay_of Relaytype_Wake []) w)"
  "run (write_set_session_with_role_arc E st sid role) w =
     Done (relay_id (on_wire E (draws w) (set_session_relay E sid role)))
       (sent_relay E st (set_session_relay E sid role) w)"
  by (simp_all add: write_relay_wake_arc_def write_set_session_with_role_arc_def set_session_relay_def
      run_simps Let_def)

lemma run_wake:
  assumes "protos_ok E" and "relay_type r = relaytype_i32 Relaytype_Wake"
  shows "run (relay_event_handler E st sid) (receive st (enc (c_relay E) r) w) =
    Done (Some (T_relay_event_handler st sid)) (w\<lparr>in_chan := (in_chan w)(ws_stream st := [])\<rparr>)"
  using assms
  by (simp add: relay_event_handler_def read_from_negotiated_arc_def receive_def run_simps Let_def)

lemma run_set_session_msg:
  assumes "protos_ok E" and "relay_type r = relaytype_i32 Relaytype_SetSessionId"
    and "relay_data r = enc (c_set_session E) \<lparr>ssm_session_id = sid, ssm_role = role\<rparr>"
    and "\<not> poisoned w Lock_session_map" and "request_loop_alive w" and "session_map w sid = None"
  shows "\<exists>w'. run (relay_event_handler E st None) (receive st (enc (c_relay E) r) w) =
      Done (Some (T_relay_event_handler st (Some sid))) w' \<and>
    session_map w' = (session_map w)(sid \<mapsto> new_session sid role st) \<and>
    node_request_sender w' = node_request_sender w @ [ack_to (ws_remote_peer_id st) (relay_id r) True []]"
proof -
  let ?w = "w\<lparr>in_chan := (in_chan w)(ws_stream st := [])\<rparr>"
  let ?v = "if role = session_role_i32 AnswerRole then final_state (run (add_circuit_conn sid st) ?w) else ?w"
  have v: "session_map ?v = session_map w" "poisoned ?v = poisoned w"
    "request_loop_alive ?v = request_loop_alive w" "node_request_sender ?v = node_request_sender w"
    by (auto simp: add_circuit_conn_def run_simps Let_def put_circuit_def split: option.split)
  have "run (relay_event_handler E st None) (receive st (enc (c_relay E) r) w) =
      after (run (handle_set_session E \<lparr>ssm_session_id = sid, ssm_role = role\<rparr> st (relay_id r)) ?v)
        (\<lambda>_. Ret (Some (T_relay_event_handler st (Some sid))))"
    using assms(1-3)
    by (simp add: relay_event_handler_def read_from_negotiated_arc_def receive_def run_simps Let_def
        add_circuit_conn_def)
  then show ?thesis
    using set_session_new [of ?v "\<lparr>ssm_session_id = sid, ssm_role = role\<rparr>" E st "relay_id r"] assms(4-6) v
    by simp
qed

text \<open>What the session becomes when a stream is added to it.\<close>

definition joined_session :: "string \<Rightarrow> i32 \<Rightarrow> wrapped_stream \<Rightarrow> session option \<Rightarrow> session" where
  "joined_session sid role st old = (case old of None \<Rightarrow> new_session sid role st | Some s \<Rightarrow> set_later st s)"

text \<open>The initiator, up to its wait and from the acknowledgement on.\<close>

lemma run_new_session_to_peer:
  assumes "\<not> poisoned w Lock_session_map" and "fresh_handles w"
    and "find (\<lambda>st. ws_remote_peer_id st = p) (relay_out_streams w) = Some st"
  shows "\<exists>prog w1 n. run (new_session_to_peer E p sid my_role other_role) w = Blocked prog w1 \<and>
    out_chan w1 (ws_stream st) = out_chan w (ws_stream st) @
      [WrapedData_Data (enc (c_relay E) (on_wire E n (relay_of Relaytype_Wake []))),
       WrapedData_Data (enc (c_relay E) (on_wire E (n + 3) (set_session_relay E sid other_role)))] \<and>
    event_bus w1 (relay_id (on_wire E (n + 3) (set_session_relay E sid other_role))) = Some (next_handle w) \<and>
    (\<forall>w2 a. session_map w2 = session_map w1 \<longrightarrow> poisoned w2 = poisoned w1 \<longrightarrow>
       oneshots w2 (next_handle w) = Oneshot_Sent (Oneshot_Ack a) \<longrightarrow>
       run prog w2 = Done (Some st) (w2\<lparr>spawned := spawned w2 @ [T_relay_event_handler st (Some sid)],
         session_map := (session_map w)(sid \<mapsto> joined_session sid my_role st (session_map w sid))\<rparr>)) \<and>
    session_map w1 = session_map w \<and> poisoned w1 = poisoned w \<and> circuit_task w1 = circuit_task w"
proof -
  define w0 where "w0 = w\<lparr>spawned := spawned w @ [T_send_node_request (NodeRequest_NewStreamRequest p)]\<rparr>"
  obtain q where q: "run (wait_for_out_peer_relay_stream p) w0 = Done (Some st) (w0\<lparr>relay_out_streams := q\<rparr>)"
    using run_wait_for_out_stream [of p w0] assms(3) by (auto simp: w0_def)
  define wq where "wq = w0\<lparr>relay_out_streams := q\<rparr>"
  define ws where "ws = sent_relay E st (set_session_relay E sid other_role)
      (sent_relay E st (relay_of Relaytype_Wake []) wq)"
  define key where "key = relay_id (on_wire E (draws wq + 3) (set_session_relay E sid other_role))"
  define wb where "wb = event_bus_put key (next_handle w)
      (ws\<lparr>oneshots := (oneshots ws)(next_handle w := Oneshot_Pending), next_handle := Suc (next_handle w)\<rparr>)"
  have ws: "next_handle ws = next_handle w" "event_bus ws = event_bus w" "session_map ws = session_map w"
    "poisoned ws = poisoned w" "out_chan ws (ws_stream st) = out_chan w (ws_stream st) @
      [WrapedData_Data (enc (c_relay E) (on_wire E (draws wq) (relay_of Relaytype_Wake []))),
       WrapedData_Data (enc (c_relay E) (on_wire E (draws wq + 3) (set_session_relay E sid other_role)))]"
    by (simp_all add: ws_def wq_def w0_def out_chan_sent_relay)
  have "event_bus ws key \<noteq> Some (next_handle w)" using assms(2) ws(2) by (auto simp: fresh_handles_def)
  then have pend: "oneshots wb (next_handle w) = Oneshot_Pending"
    by (auto simp: wb_def oneshots_event_bus_put split: option.split)
  let ?prog = "bind (recv_ack (next_handle w)) (\<lambda>a.
     bind (unwrap a) (\<lambda>_.
     bind (spawn (T_relay_event_handler st (Some sid))) (\<lambda>_.
     bind (read_session sid) (\<lambda>found.
     bind (if found = None then insert_session sid (new_session sid my_role st)
           else bind (read_session sid) (\<lambda>s. insert_later sid st s)) (\<lambda>_. Ret (Some st))))))"
  have "run (new_session_to_peer E p sid my_role other_role) w = Blocked ?prog wb"
    using q pend
    by (simp add: new_session_to_peer_def new_relay_stream_def run_simps w0_def [symmetric]
        wq_def [symmetric] ws_def [symmetric] key_def [symmetric] ws(1) wb_def [symmetric] run_recv_ack)
  moreover have "event_bus wb key = Some (next_handle w)" "out_chan wb = out_chan ws"
    "session_map wb = session_map w" "poisoned wb = poisoned w"
    by (simp_all add: wb_def oneshots_event_bus_put ws)
  moreover from this assms(1) have "run ?prog w2 = Done (Some st) (w2\<lparr>
      spawned := spawned w2 @ [T_relay_event_handler st (Some sid)],
      session_map := (session_map w)(sid \<mapsto> joined_session sid my_role st (session_map w sid))\<rparr>)"
    if "session_map w2 = session_map wb" "poisoned w2 = poisoned wb"
      "oneshots w2 (next_handle w) = Oneshot_Sent (Oneshot_Ack a)" for w2 a
    using that
    by (cases "session_map w sid")
      (simp_all add: run_simps run_recv_ack put_session_def insert_later_def joined_session_def)
  moreover have "circuit_task wb = circuit_task w"
    by (simp add: wb_def ws_def wq_def w0_def)
  ultimately show ?thesis using ws(5)
    by (intro exI [of _ ?prog] exI [of _ wb] exI [of _ "draws wq"]) (simp add: key_def)
qed

text \<open>
  C5: setting up a session works on both of its ends. The initiator, once it has a stream to the
  peer, sends a wake-up and a \<open>SetSessionId\<close> message and waits. The peer's handler takes the two
  messages: it stores the session with the role the initiator chose for it, goes on serving that
  session, and queues an acknowledgement to the stream's remote. That acknowledgement, delivered to
  the initiator, makes it return the stream, with the session stored under its own role and a
  handler spawned for the stream.
\<close>

theorem session_established:
  assumes "protos_ok E"
    and initiator: "\<not> poisoned wa Lock_session_map" "session_map wa sid = None" "fresh_handles wa"
      "find (\<lambda>st. ws_remote_peer_id st = p) (relay_out_streams wa) = Some sta"
    and peer: "\<not> poisoned wb Lock_session_map" "request_loop_alive wb" "session_map wb sid = None"
  shows "\<exists>prog wa1 m1 m2 wb1 wb2 a wa2 wa3.
    run (new_session_to_peer E p sid ra rb) wa = Blocked prog wa1 \<and>
    out_chan wa1 (ws_stream sta) = out_chan wa (ws_stream sta) @ [WrapedData_Data m1, WrapedData_Data m2] \<and>
    run (relay_event_handler E stb None) (receive stb m1 wb) = Done (Some (T_relay_event_handler stb None)) wb1 \<and>
    run (relay_event_handler E stb None) (receive stb m2 wb1) =
      Done (Some (T_relay_event_handler stb (Some sid))) wb2 \<and>
    session_map wb2 = (session_map wb)(sid \<mapsto> new_session sid rb stb) \<and>
    node_request_sender wb2 = node_request_sender wb @
      [NodeRequest_AckRequest \<lparr>nar_remote_peer_id = ws_remote_peer_id stb, nar_ack_request = Some a\<rparr>] \<and>
    inject_ack_event (ack_event q a) wa1 = Some wa2 \<and>
    run prog wa2 = Done (Some sta) wa3 \<and>
    session_map wa3 = (session_map wa)(sid \<mapsto> new_session sid ra sta) \<and>
    spawned wa3 = spawned wa2 @ [T_relay_event_handler sta (Some sid)]"
proof -
  obtain prog wa1 n where i: "run (new_session_to_peer E p sid ra rb) wa = Blocked prog wa1"
    "out_chan wa1 (ws_stream sta) = out_chan wa (ws_stream sta) @
      [WrapedData_Data (enc (c_relay E) (on_wire E n (relay_of Relaytype_Wake []))),
       WrapedData_Data (enc (c_relay E) (on_wire E (n + 3) (set_session_relay E sid rb)))]"
    "event_bus wa1 (relay_id (on_wire E (n + 3) (set_session_relay E sid rb))) = Some (next_handle wa)"
    "\<And>w2 a. session_map w2 = session_map wa1 \<Longrightarrow> poisoned w2 = poisoned wa1 \<Longrightarrow>
       oneshots w2 (next_handle wa) = Oneshot_Sent (Oneshot_Ack a) \<Longrightarrow>
       \<exists>w3. run prog w2 = Done (Some sta) w3 \<and>
          session_map w3 = (session_map wa)(sid \<mapsto> new_session sid ra sta) \<and>
          spawned w3 = spawned w2 @ [T_relay_event_handler sta (Some sid)]"
    using run_new_session_to_peer [OF initiator(1,3,4), of E sid ra rb] initiator(2)
    by (auto simp: joined_session_def)
  let ?m = "on_wire E (n + 3) (set_session_relay E sid rb)"
  let ?a = "\<lparr>ack_command_id = relay_id ?m, ack_result = True, ack_data = []\<rparr>"
  let ?wb1 = "wb\<lparr>in_chan := (in_chan wb)(ws_stream stb := [])\<rparr>"
  have wake: "run (relay_event_handler E stb None) (receive stb (enc (c_relay E)
      (on_wire E n (relay_of Relaytype_Wake []))) wb) = Done (Some (T_relay_event_handler stb None)) ?wb1"
    by (rule run_wake [OF assms(1)]) (simp add: relay_of_def)
  obtain wb2 where set: "run (relay_event_handler E stb None) (receive stb (enc (c_relay E) ?m) ?wb1) =
      Done (Some (T_relay_event_handler stb (Some sid))) wb2"
    "session_map wb2 = (session_map wb)(sid \<mapsto> new_session sid rb stb)"
    "node_request_sender wb2 = node_request_sender wb @ [ack_to (ws_remote_peer_id stb) (relay_id ?m) True []]"
    using run_set_session_msg [OF assms(1), of ?m sid rb ?wb1 stb] peer
    by (auto simp: set_session_relay_def relay_of_def)
  let ?wa2 = "oneshot_send (next_handle wa) (Oneshot_Ack ?a) (wa1\<lparr>event_bus := (event_bus wa1)(relay_id ?m := None)\<rparr>)"
  have inj: "inject_ack_event (ack_event q ?a) wa1 = Some ?wa2"
    using i(3) by (simp add: inject_ack_event_def Let_def)
  obtain wa3 where "run prog ?wa2 = Done (Some sta) wa3"
    "session_map wa3 = (session_map wa)(sid \<mapsto> new_session sid ra sta)"
    "spawned wa3 = spawned ?wa2 @ [T_relay_event_handler sta (Some sid)]"
    using i(4) [of ?wa2 ?a] by (auto simp: oneshot_send_def)
  with i(1,2) wake set inj show ?thesis by (auto simp: ack_to_def)
qed

theorem session_established_witness:
  "\<exists>prog wa1 m1 m2 wb1 wb2 a wa2 wa3.
    run (new_session_to_peer E0 (PeerId [3]) ''s9'' 1 2) (scene_world\<lparr>relay_out_streams := [scene_stream 3 ''a'']\<rparr>)
      = Blocked prog wa1 \<and>
    out_chan wa1 (ws_stream (scene_stream 3 ''a'')) =
      out_chan (scene_world\<lparr>relay_out_streams := [scene_stream 3 ''a'']\<rparr>) (ws_stream (scene_stream 3 ''a''))
        @ [WrapedData_Data m1, WrapedData_Data m2] \<and>
    run (relay_event_handler E0 (scene_stream 4 ''b'') None) (receive (scene_stream 4 ''b'') m1 scene_world) =
      Done (Some (T_relay_event_handler (scene_stream 4 ''b'') None)) wb1 \<and>
    run (relay_event_handler E0 (scene_stream 4 ''b'') None) (receive (scene_stream 4 ''b'') m2 wb1) =
      Done (Some (T_relay_event_handler (scene_stream 4 ''b'') (Some ''s9''))) wb2 \<and>
    session_map wb2 = (session_map scene_world)(''s9'' \<mapsto> new_session ''s9'' 2 (scene_stream 4 ''b'')) \<and>
    node_request_sender wb2 = node_request_sender scene_world @
      [NodeRequest_AckRequest \<lparr>nar_remote_peer_id = ws_remote_peer_id (scene_stream 4 ''b''), nar_ack_request = Some a\<rparr>] \<and>
    inject_ack_event (ack_event (PeerId [3]) a) wa1 = Some wa2 \<and>
    run prog wa2 = Done (Some (scene_stream 3 ''a'')) wa3 \<and>
    session_map wa3 = (session_map (scene_world\<lparr>relay_out_streams := [scene_stream 3 ''a'']\<rparr>))
      (''s9'' \<mapsto> new_session ''s9'' 1 (scene_stream 3 ''a'')) \<and>
    spawned wa3 = spawned wa2 @ [T_relay_event_handler (scene_stream 3 ''a'') (Some ''s9'')]"
  by (rule session_established)
    (simp_all add: scene_world_def initial_world_def fresh_handles_def scene_stream_def)

section \<open>What a node writes\<close>

text \<open>What the data of a message of each type decodes to; handlers know no acknowledgement on a stream.\<close>

definition data_readable :: "ext \<Rightarrow> relaytype \<Rightarrow> bytes \<Rightarrow> bool" where
  "data_readable E t bs =
     (case t of
        Relaytype_SetSessionId \<Rightarrow> dec (c_set_session E) bs \<noteq> None
      | Relaytype_Ack \<Rightarrow> False
      | Relaytype_Data \<Rightarrow> dec (c_relay_msg E) bs \<noteq> None
      | Relaytype_Disconnect \<Rightarrow> dec (c_disconnect E) bs \<noteq> None
      | Relaytype_Wake \<Rightarrow> True
      | Relaytype_Probe \<Rightarrow> dec (c_probe E) bs \<noteq> None
      | Relaytype_Success \<Rightarrow> dec (c_success E) bs \<noteq> None)"

definition relay_readable :: "ext \<Rightarrow> bytes \<Rightarrow> bool" where
  "relay_readable E bs \<longleftrightarrow> (\<exists>r t. dec (c_relay E) bs = Some r \<and> relay_type r = relaytype_i32 t \<and>
     data_readable E t (relay_data r))"

lemma carries_dec:
  assumes "protos_ok E"
  shows "carries (c_set_session E) bs \<Longrightarrow> dec (c_set_session E) bs \<noteq> None"
    "carries (c_disconnect E) bs \<Longrightarrow> dec (c_disconnect E) bs \<noteq> None"
    "carries (c_relay_msg E) bs \<Longrightarrow> dec (c_relay_msg E) bs \<noteq> None"
    "carries (c_success E) bs \<Longrightarrow> dec (c_success E) bs \<noteq> None"
    "carries (c_probe E) bs \<Longrightarrow> dec (c_probe E) bs \<noteq> None"
  using assms by (auto simp: carries_def)

lemma typed_relay_readable:
  assumes "protos_ok E" and "typed_relay E r"
  shows "relay_readable E (enc (c_relay E) r)"
proof -
  have "\<exists>t. relay_type r = relaytype_i32 t \<and> data_readable E t (relay_data r)"
    using assms(2) unfolding typed_relay_def
    by (elim disjE conjE)
      (rule exI, rule conjI, assumption, simp add: data_readable_def carries_dec [OF assms(1)])+
  with assms(1) show ?thesis by (simp add: relay_readable_def)
qed

text \<open>
  C4: a node puts nothing on the wire that another node could not read. However its tasks
  interleave and whatever it is sent, every message queued on one of its streams decodes to a relay
  message of one of the types that handlers know, and its data decodes to the message that the type
  calls for. A node never acknowledges on a stream, so that type does not occur.
\<close>

theorem wire_well_typed:
  assumes "protos_ok E" and "started E mode w0 n0" and "reachable E mode (w0, n0, []) (w, n, ths)"
  shows "\<forall>i bs. WrapedData_Data bs \<in> set (out_chan w i) \<longrightarrow> relay_readable E bs"
  using reachable_wire_inv [OF assms(2,3)] typed_relay_readable [OF assms(1)]
  by (fastforce simp: wire_inv_def wf_data_def)

text \<open>
  A server that registers with a peer, to which it has a stream, and dials: the messages that set up
  the session are queued on the stream.
\<close>

lemma run_register_exact:
  assumes "event_bus w = Map.empty" and "request_loop_alive w"
    and "from_keypair_to_whitenoise_id E (node_keypair w) = Some wid"
  shows "\<exists>key q. run (register_proxy E p) w =
    Blocked (bind (bind (recv_ack (next_handle w)) unwrap) (\<lambda>data. if ack_result data
       then bind (modify (\<lambda>w. w\<lparr>proxy_id := Some p\<rparr>)) (\<lambda>_. Ret True) else Ret False))
      (w\<lparr>oneshots := (oneshots w)(next_handle w := Oneshot_Pending), next_handle := Suc (next_handle w),
         event_bus := [key \<mapsto> next_handle w], node_request_sender := q\<rparr>)"
  using assms
  by (auto simp: register_proxy_def external_send_node_request_and_wait_def oneshot_channel_def
      event_bus_insert_def event_bus_put_def send_node_request_def run_simps run_recv_ack Let_def)

lemma run_dial_writes:
  assumes "\<not> poisoned w Lock_session_map" and "\<not> poisoned w Lock_circuit_task" and "fresh_handles w"
    and "find (\<lambda>st. ws_remote_peer_id st = p) (relay_out_streams w) = Some st"
    and "from_keypair_to_whitenoise_id E (node_keypair w) = Some wid"
    and "composit_bytes E rw = Some key" and "proxy_id w = Some p"
  shows "\<exists>prog w1 bs. run (dial E rw) w = Blocked prog w1 \<and>
    WrapedData_Data bs \<in> set (out_chan w1 (ws_stream st))"
proof -
  define sid where "sid = generate_session_id E (draws w) rw wid"
  let ?w = "w\<lparr>draws := Suc (draws w), circuit_task := (circuit_task w)(sid \<mapsto> key)\<rparr>"
  have pre: "\<not> poisoned ?w Lock_session_map" "fresh_handles ?w"
    "find (\<lambda>st. ws_remote_peer_id st = p) (relay_out_streams ?w) = Some st"
    using assms(1,3,4) by (simp_all add: fresh_handles_def)
  from run_new_session_to_peer [OF pre, of E sid "session_role_i32 CallerRole" "session_role_i32 EntryRole"]
  obtain prog w1 bs where "run (new_session_to_peer E p sid (session_role_i32 CallerRole) (session_role_i32 EntryRole)) ?w =
      Blocked prog w1" "WrapedData_Data bs \<in> set (out_chan w1 (ws_stream st))" by fastforce
  with assms(2,5,6,7) show ?thesis
    by (simp add: dial_def run_simps Let_def draw_def sid_def) blast
qed

lemma reach_written:
  assumes w: "event_bus w = Map.empty" "request_loop_alive w" "\<not> poisoned w Lock_session_map" "\<not> poisoned w Lock_circuit_task"
    and "find (\<lambda>st. ws_remote_peer_id st = p) (relay_out_streams w) = Some st"
    and id: "from_keypair_to_whitenoise_id E (node_keypair w) = Some wid"
    and "composit_bytes E rw = Some key"
  shows "\<exists>w' ths bs. reachable E mode (w, n, []) (w', n, ths) \<and> WrapedData_Data bs \<in> set (out_chan w' (ws_stream st))"
proof -
  let ?h = "next_handle w" and ?R = "\<lambda>_. Ret None :: task option async"
  let ?prog = "bind (bind (recv_ack ?h) unwrap) (\<lambda>data. if ack_result data
       then bind (modify (\<lambda>w. w\<lparr>proxy_id := Some p\<rparr>)) (\<lambda>_. Ret True) else Ret False)"
  let ?a = "\<lambda>k. \<lparr>ack_command_id = k, ack_result = True, ack_data = []\<rparr>"
  obtain k q where reg: "run (register_proxy E p) w = Blocked ?prog (w\<lparr>oneshots := (oneshots w)(?h := Oneshot_Pending),
      next_handle := Suc ?h, event_bus := [k \<mapsto> ?h], node_request_sender := q\<rparr>)"
    using run_register_exact [OF w(1,2) id] by blast
  define w1 where "w1 = w\<lparr>oneshots := (oneshots w)(?h := Oneshot_Pending),
      next_handle := Suc ?h, event_bus := [k \<mapsto> ?h], node_request_sender := q\<rparr>"
  define w2 where "w2 = oneshot_send ?h (Oneshot_Ack (?a k)) (w1\<lparr>event_bus := Map.empty\<rparr>)"
  define w3 where "w3 = w2\<lparr>proxy_id := Some p\<rparr>"
  have "run (andthen (register_proxy E p) (Ret None)) w = Blocked (bind ?prog ?R) w1"
    unfolding andthen_def run_bind reg w1_def by simp
  from reach_blocked [OF this, of E mode n "[]" None "[]"]
  have 1: "reachable E mode (w, n, [(None, api_body E (Api_register p))]) (w1, n, [(None, bind ?prog ?R)])"
    by simp
  have "swarm_event E mode (Ev_ack (ack_event p (?a k))) (w1, n) = (w2, n)"
    by (simp add: swarm_event_def swarm_inject_def inject_ack_event_def w1_def w2_def Let_def)
  then have 2: "sys_step E mode (w1, n, [(None, bind ?prog ?R)]) (w2, n, [(None, bind ?prog ?R)])"
    using w(2) by (intro step_event) (simp_all add: w1_def)
  have "run ?prog w2 = Done True w3"
    by (simp add: run_simps run_recv_ack w2_def w3_def oneshot_send_def)
  from reach_bind [OF this, of E mode n "[]" None ?R "[]"]
  have 3: "reachable E mode (w2, n, [(None, bind ?prog ?R)]) (w3, n, [(None, Ret None)])" by simp
  have "\<exists>prog w4 bs. run (dial E rw) w3 = Blocked prog w4 \<and> WrapedData_Data bs \<in> set (out_chan w4 (ws_stream st))"
    using assms by (intro run_dial_writes [where p = p and wid = wid and key = key])
      (simp_all add: w3_def w2_def w1_def oneshot_send_def fresh_handles_def)
  then obtain prog w4 bs where d: "run (dial E rw) w3 = Blocked prog w4"
    "WrapedData_Data bs \<in> set (out_chan w4 (ws_stream st))" by blast
  then have "run (api_body E (Api_dial rw)) w3 = Blocked (bind prog ?R) w4"
    by (simp add: andthen_def run_bind)
  note 4 = reach_blocked [OF this, of E mode n "[(None, Ret None)]" None "[]"]
  have "reachable E mode (w, n, []) (w, n, [(None, api_body E (Api_register p))])"
    using step_api [of E mode w n "[]" "Api_register p"] by (auto intro: reach_step reach_refl)
  note 5 = reach_trans [OF 3 reach_step [OF reach_trans [OF 1 this] 2]]
  have "sys_step E mode (w3, n, [(None, Ret None)]) (w3, n, [(None, Ret None)] @ [(None, api_body E (Api_dial rw))])"
    by (rule step_api)
  with 4 5 have "reachable E mode (w, n, []) (w4, n, [(None, Ret None)] @ (None, bind prog ?R) # [])"
    by (blast intro: reach_step reach_trans)
  with d(2) show ?thesis by blast
qed

theorem wire_well_typed_witness:
  "\<exists>w n ths bs. started E0 RunMode_Server scene_server scene_swarm \<and>
    reachable E0 RunMode_Server (scene_server, scene_swarm, []) (w, n, ths) \<and>
    WrapedData_Data bs \<in> set (out_chan w 3) \<and> relay_readable E0 bs"
proof -
  define st where "st = \<lparr>ws_stream = 3, ws_remote_peer_id = PeerId [3], ws_stream_id = uuid_v4 E0 (draws scene_server)\<rparr>"
  let ?ev = "Ev_handler (PeerId [3]) (RelayHandlerOutEvent_RelayOutbound 3)"
  define w1 where "w1 = scene_server\<lparr>draws := Suc (draws scene_server), out_chan := (out_chan scene_server)(3 := []),
      in_chan := (in_chan scene_server)(3 := [])\<rparr>"
  define n1 where "n1 = scene_swarm\<lparr>sub_got := (sub_got scene_swarm)(3 := []), polling := polling scene_swarm @ [st],
      out_events := push_front (RelayEvent_RelayOutbound st) (out_events scene_swarm)\<rparr>"
  define w2 where "w2 = w1\<lparr>relay_out_streams := push_back st (relay_out_streams w1)\<rparr>"
  define n2 where "n2 = n1\<lparr>out_events := []\<rparr>"
  have e: "out_events scene_swarm = []" by (simp add: scene_swarm_def initial_swarm_def)
  have "swarm_event E0 RunMode_Server ?ev (scene_server, scene_swarm) = (w1, n1)"
    by (simp add: swarm_event_def swarm_inject_def relay_inject_event_def from_neg_to_wraped_def Let_def
        w1_def n1_def st_def)
  then have 1: "sys_step E0 RunMode_Server (scene_server, scene_swarm, []) (w1, n1, [])"
    by (rule step_event [rotated]) (simp add: scene_server_def initial_world_def)
  have "swarm_event E0 RunMode_Server Ev_relay_poll (w1, n1) = (w2, n2)"
    using e by (simp add: swarm_event_def swarm_inject_def relay_poll_def pop_back_def push_front_def
        inject_relay_event_def w2_def n2_def n1_def)
  then have 2: "sys_step E0 RunMode_Server (w1, n1, []) (w2, n2, [])"
    by (rule step_event [rotated]) (simp add: w1_def scene_server_def initial_world_def)
  have w2: "event_bus w2 = Map.empty" "request_loop_alive w2" "\<not> poisoned w2 Lock_session_map"
    "\<not> poisoned w2 Lock_circuit_task" "node_keypair w2 = KeyEd25519 [42]"
    "find (\<lambda>st. ws_remote_peer_id st = PeerId [3]) (relay_out_streams w2) = Some st"
    by (simp_all add: w2_def w1_def scene_server_def initial_world_def push_back_def st_def)
  have "composit_bytes E0 ''0AB'' = Some [48, 1]" by (simp add: E0_def composit_bytes_def as_bytes_def is_continuation_def)
  moreover have "\<exists>wid. from_keypair_to_whitenoise_id E0 (node_keypair w2) = Some wid"
    by (simp add: w2(5) from_keypair_to_whitenoise_id_def)
  ultimately obtain w ths bs where r: "reachable E0 RunMode_Server (w2, n2, []) (w, n2, ths)"
    "WrapedData_Data bs \<in> set (out_chan w (ws_stream st))"
    using reach_written [OF w2(1-4) w2(6)] by blast
  note s = reach_trans [OF r(1) reach_step [OF reach_step [OF reach_refl 1] 2]]
  from wire_well_typed [OF E0_protos scene_started s] r(2) s scene_started show ?thesis
    by (auto simp: st_def)
qed

end
