(* ===== verification/Circuit_Props.thy ===== *)
theory Circuit_Props
  imports Node_Props
begin

text \<open>
  What the handlers that build circuits guarantee: the registry of clients, the checks before a
  circuit is built, the choice of the next node, the negotiation encrypted from caller to answerer,
  and what a malformed request does to a node.
\<close>

section \<open>The registry of clients\<close>

text \<open>
  Every peer that is registered leads to a client, which is registered under that peer. (Two peers
  then cannot lead to the same client.)
\<close>

definition registry_ok :: "ext \<Rightarrow> world \<Rightarrow> bool" where
  "registry_ok E w \<longleftrightarrow> (\<forall>key hash. client_peer_map w key = Some hash \<longrightarrow>
     (\<exists>ci. client_wn_map w hash = Some ci \<and> to_base58 E (ci_peer_id ci) = key))"

definition registered :: "ext \<Rightarrow> peer_id \<Rightarrow> string \<Rightarrow> string \<Rightarrow> world \<Rightarrow> world" where
  "registered E p hash wid w = w\<lparr>client_peer_map := (client_peer_map w)(to_base58 E p \<mapsto> hash),
     client_wn_map := (client_wn_map w)(hash \<mapsto> \<lparr>ci_whitenoise_id = wid, ci_peer_id = p,
       ci_state = 1, ci_time_secs = 3600\<rparr>)\<rparr>"

definition unregistered :: "ext \<Rightarrow> peer_id \<Rightarrow> world \<Rightarrow> world" where
  "unregistered E p w = (case client_peer_map w (to_base58 E p) of
     None \<Rightarrow> w\<lparr>client_peer_map := (client_peer_map w)(to_base58 E p := None)\<rparr>
   | Some hash \<Rightarrow> w\<lparr>client_peer_map := (client_peer_map w)(to_base58 E p := None),
       client_wn_map := (client_wn_map w)(hash := None)\<rparr>)"

lemma run_remove_client [run_simps]: "run (remove_client E p) w = Done () (unregistered E p w)"
  by (simp add: remove_client_def run_simps unregistered_def split: option.split)

lemma run_handle_new_proxy:
  assumes "dec (c_new_proxy E) (rq_data r) = Some np" and "request_loop_alive w"
    and "from_whitenoise_to_hash E (np_white_noise_id np) = Some hash"
  shows "run (handle_new_proxy E r p) w =
    (if client_wn_map w hash \<noteq> None
     then Done () (w\<lparr>node_request_sender := node_request_sender w @
            [ack_to p (rq_req_id r) False (as_bytes ''Proxy already'')]\<rparr>)
     else Done () ((registered E p hash (np_white_noise_id np) w)\<lparr>node_request_sender :=
            node_request_sender w @ [ack_to p (rq_req_id r) True []]\<rparr>))"
  using assms by (auto simp: handle_new_proxy_def run_simps registered_def)

lemma registry_ok_registered:
  "registry_ok E w \<Longrightarrow> client_wn_map w hash = None \<Longrightarrow> registry_ok E (registered E p hash wid w)"
  unfolding registry_ok_def registered_def by (auto split: if_splits) (metis option.discI)

lemma registry_ok_unregistered: "registry_ok E w \<Longrightarrow> registry_ok E (unregistered E p w)"
proof -
  assume ok: "registry_ok E w"
  show ?thesis
  proof (cases "client_peer_map w (to_base58 E p)")
    case None
    with ok show ?thesis by (simp add: registry_ok_def unregistered_def)
  next
    case (Some hash)
    have "h \<noteq> hash" if "client_peer_map w key = Some h" "key \<noteq> to_base58 E p" for key h
      using ok that Some unfolding registry_ok_def by (metis option.inject)
    with ok Some show ?thesis by (auto simp: registry_ok_def unregistered_def)
  qed
qed

text \<open>
  C21: registering keeps the registry consistent. A client that is not known is stored in both
  tables and gets a positive acknowledgement; one that is known already gets a negative one, and
  nothing is stored. Unregistering, and the loss of the connection, keep the registry consistent
  too, and for a peer that was new they undo its registration.
\<close>

theorem registry_consistent:
  assumes "registry_ok E w" and "request_loop_alive w"
    and "dec (c_new_proxy E) (rq_data r) = Some np"
    and "from_whitenoise_to_hash E (np_white_noise_id np) = Some hash"
  shows "\<exists>w1 w2. run (handle_new_proxy E r p) w = Done () w1 \<and> run (remove_client E p) w1 = Done () w2 \<and>
    registry_ok E w1 \<and> registry_ok E w2 \<and>
    (if client_wn_map w hash = None
     then client_peer_map w1 (to_base58 E p) = Some hash \<and>
       map_option ci_peer_id (client_wn_map w1 hash) = Some p \<and>
       node_request_sender w1 = node_request_sender w @ [ack_to p (rq_req_id r) True []] \<and>
       (client_peer_map w (to_base58 E p) = None \<longrightarrow>
          client_peer_map w2 = client_peer_map w \<and> client_wn_map w2 = client_wn_map w)
     else client_peer_map w1 = client_peer_map w \<and> client_wn_map w1 = client_wn_map w \<and>
       node_request_sender w1 = node_request_sender w @
         [ack_to p (rq_req_id r) False (as_bytes ''Proxy already'')])"
proof (cases "client_wn_map w hash")
  case None
  let ?w1 = "(registered E p hash (np_white_noise_id np) w)\<lparr>node_request_sender :=
            node_request_sender w @ [ack_to p (rq_req_id r) True []]\<rparr>"
  have ok: "registry_ok E ?w1"
    using registry_ok_registered [OF assms(1) None] by (simp add: registry_ok_def)
  have "client_peer_map (unregistered E p ?w1) = (client_peer_map w)(to_base58 E p := None)"
    "client_wn_map (unregistered E p ?w1) = client_wn_map w"
    using None by (auto simp: unregistered_def registered_def)
  with ok None show ?thesis
    using run_handle_new_proxy [OF assms(3,2,4)] registry_ok_unregistered [OF ok]
    by (auto simp: run_remove_client registered_def)
next
  case (Some ci)
  let ?w1 = "w\<lparr>node_request_sender := node_request_sender w @
            [ack_to p (rq_req_id r) False (as_bytes ''Proxy already'')]\<rparr>"
  have ok: "registry_ok E ?w1" using assms(1) by (simp add: registry_ok_def)
  with Some show ?thesis
    using run_handle_new_proxy [OF assms(3,2,4)] registry_ok_unregistered [OF ok]
    by (simp add: run_remove_client)
qed

definition scene_proxy_request :: "string \<Rightarrow> request" where
  "scene_proxy_request wid = \<lparr>rq_req_id = ''q'', rq_from = ''f'', rq_reqtype = 1,
     rq_data = enc (c_new_proxy E0) \<lparr>np_time = ''60m'', np_white_noise_id = wid\<rparr>\<rparr>"

lemma scene_hash: "from_whitenoise_to_hash E0 (CHR ''0'' # hex_enc b) = Some (hex_enc (pad32 b))"
proof -
  have "split_at_1 (CHR ''0'' # hex_enc b) = Some (''0'', hex_enc b)"
    by (rule split_at_1_ascii) (rule hex_enc_ascii)
  then show ?thesis by (simp add: from_whitenoise_to_hash_def E0_def)
qed

lemma scene_new_proxy:
  "dec (c_new_proxy E0) (rq_data (scene_proxy_request wid)) = Some \<lparr>np_time = ''60m'', np_white_noise_id = wid\<rparr>"
  by (simp add: scene_proxy_request_def)

theorem registry_consistent_witness:
  "\<exists>w1 w2. run (handle_new_proxy E0 (scene_proxy_request (CHR ''0'' # hex_enc [5])) (PeerId [9])) scene_world = Done () w1 \<and>
    run (remove_client E0 (PeerId [9])) w1 = Done () w2 \<and>
    client_peer_map w1 (to_base58 E0 (PeerId [9])) = Some (hex_enc (pad32 [5])) \<and>
    client_peer_map w2 = Map.empty \<and> client_wn_map w2 = Map.empty"
  using registry_consistent [of E0 scene_world "scene_proxy_request (CHR ''0'' # hex_enc [5])"
      "\<lparr>np_time = ''60m'', np_white_noise_id = CHR ''0'' # hex_enc [5]\<rparr>" "hex_enc (pad32 [5])" "PeerId [9]"]
    scene_new_proxy [of "CHR ''0'' # hex_enc [5]"]
  by (auto simp: scene_hash registry_ok_def scene_world_def initial_world_def)

text \<open>
  C32: a peer that registers two ids and leaves takes only the second with it. The first one stays in
  the table of clients, and whoever registers it later is refused.
\<close>

theorem stale_registration:
  assumes "request_loop_alive w" and "client_wn_map w ha = None" and "client_wn_map w hb = None"
    and "ha \<noteq> hb"
    and "dec (c_new_proxy E) (rq_data ra) = Some npa"
    and "from_whitenoise_to_hash E (np_white_noise_id npa) = Some ha"
    and "dec (c_new_proxy E) (rq_data rb) = Some npb"
    and "from_whitenoise_to_hash E (np_white_noise_id npb) = Some hb"
  shows "\<exists>w1 w2 w3 w4. run (handle_new_proxy E ra p) w = Done () w1 \<and> run (handle_new_proxy E rb p) w1 = Done () w2 \<and>
    run (remove_client E p) w2 = Done () w3 \<and> client_peer_map w3 (to_base58 E p) = None \<and>
    client_wn_map w3 hb = None \<and> client_wn_map w3 ha \<noteq> None \<and>
    run (handle_new_proxy E ra q) w3 = Done () w4 \<and>
    last (node_request_sender w4) = ack_to q (rq_req_id ra) False (as_bytes ''Proxy already'')"
  using assms
  by (simp add: run_handle_new_proxy [OF assms(5) _ assms(6)] run_handle_new_proxy [OF assms(7) _ assms(8)]
      run_remove_client registered_def unregistered_def)

theorem stale_registration_witness:
  "\<exists>w1 w2 w3 w4.
    run (handle_new_proxy E0 (scene_proxy_request (CHR ''0'' # hex_enc [5])) (PeerId [9])) scene_world = Done () w1 \<and>
    run (handle_new_proxy E0 (scene_proxy_request (CHR ''0'' # hex_enc [6])) (PeerId [9])) w1 = Done () w2 \<and>
    run (remove_client E0 (PeerId [9])) w2 = Done () w3 \<and>
    client_peer_map w3 (to_base58 E0 (PeerId [9])) = None \<and>
    client_wn_map w3 (hex_enc (pad32 [6])) = None \<and> client_wn_map w3 (hex_enc (pad32 [5])) \<noteq> None \<and>
    run (handle_new_proxy E0 (scene_proxy_request (CHR ''0'' # hex_enc [5])) (PeerId [8])) w3 = Done () w4 \<and>
    last (node_request_sender w4) =
      ack_to (PeerId [8]) (rq_req_id (scene_proxy_request (CHR ''0'' # hex_enc [5]))) False (as_bytes ''Proxy already'')"
proof (rule stale_registration [where npa = "\<lparr>np_time = ''60m'', np_white_noise_id = CHR ''0'' # hex_enc [5]\<rparr>"
      and npb = "\<lparr>np_time = ''60m'', np_white_noise_id = CHR ''0'' # hex_enc [6]\<rparr>"])
  have "take 2 (hex_enc (pad32 [5])) = ''AF''" "take 2 (hex_enc (pad32 [6])) = ''AG''" by code_simp+
  then show "hex_enc (pad32 [5]) \<noteq> hex_enc (pad32 [6])" by auto
qed (simp_all add: scene_new_proxy scene_hash, simp_all add: scene_world_def initial_world_def)

section \<open>Checks before a circuit is built\<close>

text \<open>
  C23: a request for a circuit is refused, and nothing is sent or stored, when it does not decode,
  when its sender is not a registered client, when the caller has not set up its session with this
  node, and when that session has both of its streams already.
\<close>

theorem new_circuit_refused:
  assumes "\<not> poisoned w Lock_session_map"
    and "case dec (c_new_circuit E) (rq_data r) of
           None \<Rightarrow> True
         | Some nc \<Rightarrow> client_wn_map w (nc_from nc) = None \<or> session_map w (nc_session_id nc) = None \<or>
             (\<exists>s. session_map w (nc_session_id nc) = Some s \<and> ready s)"
  shows "run (handle_new_circuit E r p) w = Done False w"
  using assms
  by (auto simp: handle_new_circuit_def Let_def run_simps split: option.splits)

theorem new_circuit_refused_witness:
  "run (handle_new_circuit E0 \<lparr>rq_req_id = ''q'', rq_from = ''f'', rq_reqtype = 2,
      rq_data = enc (c_new_circuit E0) \<lparr>nc_from = ''x'', nc_to = ''y'', nc_session_id = ''s1''\<rparr>\<rparr> (PeerId [9]))
     (scene_node EntryRole) = Done False (scene_node EntryRole)"
  by (rule new_circuit_refused) (simp_all add: scene_defs)

section \<open>Choosing the next node\<close>

text \<open>The nodes the loop accepts, when the bootstrap node is known.\<close>

definition eligible :: "ext \<Rightarrow> world \<Rightarrow> peer_id \<Rightarrow> string list \<Rightarrow> string \<Rightarrow> string \<Rightarrow> node_info \<Rightarrow> bool" where
  "eligible E w boot invalid other dest info \<longleftrightarrow>
     ni_id info \<notin> set invalid \<and> ni_id info \<noteq> get_id E w \<and> ni_id info \<noteq> other \<and>
     ni_id info \<noteq> to_base58 E boot \<and>
     (case client_peer_map w (ni_id info) of
        None \<Rightarrow> True | Some h \<Rightarrow> from_whitenoise_to_hash E h \<noteq> Some dest)"

lemma unat_mod_length:
  "length xs < 2 ^ 64 \<Longrightarrow> unat ((ix :: usize) mod of_nat (length xs)) = unat ix mod length xs"
  by (simp add: unat_mod unat_of_nat)

lemma unat_next:
  assumes "unat (ix :: usize) < n" and "n < 2 ^ 64"
  shows "unat (ix + 1) = unat ix + 1"
proof -
  have "unat ix + unat (1 :: usize) < 2 ^ 64" using assms by simp
  then show ?thesis by (simp add: unat_add_lem [THEN iffD1])
qed

lemma residues_from:
  assumes "i < (n :: nat)"
  shows "map (\<lambda>k. f ! ((i + k) mod n)) [0..<Suc j] =
    f ! i # map (\<lambda>k. f ! (((i + 1) mod n + k) mod n)) [0..<j]"
  using assms by (simp add: upt_conv_Cons map_Suc_upt [symmetric] mod_simps del: upt_Suc)

lemma run_choose_step:
  assumes "boot_peer_id w = Some b"
    and "\<forall>key h. client_peer_map w key = Some h \<longrightarrow> from_whitenoise_to_hash E h \<noteq> None"
    and "index_opt infos (unat ((ix + 1) mod of_nat (length infos))) = Some info"
  shows "run (choose_peer E infos invalid other dest (Suc j) ix join) w =
    (if eligible E w b invalid other dest info then run (unwrap (peer_of_base58 E (ni_id info))) w
     else run (choose_peer E infos invalid other dest j ((ix + 1) mod of_nat (length infos)) join) w)"
proof (cases "client_peer_map w (ni_id info)")
  case None
  with assms show ?thesis by (simp add: Let_def run_simps bootstrap_peer_def eligible_def)
next
  case (Some h)
  with assms(2) obtain x where "from_whitenoise_to_hash E h = Some x" by blast
  with Some assms(1,3) show ?thesis by (simp add: Let_def run_simps bootstrap_peer_def eligible_def)
qed

lemma run_choose_peer:
  fixes infos :: "node_info list"
  defines "n \<equiv> length infos"
  assumes boot: "boot_peer_id w = Some b" and n: "0 < n" "n < 2 ^ 64"
    and hashes: "\<forall>key h. client_peer_map w key = Some h \<longrightarrow> from_whitenoise_to_hash E h \<noteq> None"
  shows "run (choose_peer E infos invalid other dest j ix join) w =
    (case find (eligible E w b invalid other dest)
            (map (\<lambda>k. infos ! ((unat (ix + 1) mod n + k) mod n)) [0..<j]) of
       None \<Rightarrow> Done join w
     | Some info \<Rightarrow> run (unwrap (peer_of_base58 E (ni_id info))) w)"
proof (induction j arbitrary: ix)
  case (Suc j)
  let ?ix = "(ix + 1) mod of_nat n"
  have ix: "unat ?ix = unat (ix + 1) mod n" using n unfolding n_def by (intro unat_mod_length) simp
  then have lt: "unat ?ix < n" using n by simp
  have next_ix: "unat (?ix + 1) = unat ?ix + 1" using lt n(2) by (rule unat_next)
  have "map (\<lambda>k. infos ! ((unat (ix + 1) mod n + k) mod n)) [0..<Suc j] =
      infos ! unat ?ix # map (\<lambda>k. infos ! ((unat (?ix + 1) mod n + k) mod n)) [0..<j]"
    using residues_from [OF lt] unfolding next_ix ix .
  moreover have "index_opt infos (unat ?ix) = Some (infos ! unat ?ix)"
    using lt by (simp add: n_def)
  note step = run_choose_step [OF boot hashes this [unfolded n_def]]
  ultimately show ?case
    using Suc.IH [of ?ix] by (simp add: step n_def del: choose_peer.simps upt_Suc)
qed simp

lemma all_residues:
  assumes "0 < (n :: nat)"
  shows "(\<lambda>k. (i + k) mod n) ` {0..<n} = {0..<n}"
proof
  show "{0..<n} \<subseteq> (\<lambda>k. (i + k) mod n) ` {0..<n}"
  proof
    fix m assume m: "m \<in> {0..<n}"
    let ?k = "(m + n - i mod n) mod n"
    have "(i + ?k) mod n = (i mod n + (m + n - i mod n)) mod n" by (simp add: mod_simps)
    also have "i mod n + (m + n - i mod n) = m + n"
      using mod_less_divisor [OF assms, of i] by linarith
    also have "(m + n) mod n = m" using m by simp
    finally show "m \<in> (\<lambda>k. (i + k) mod n) ` {0..<n}" using assms by (metis atLeastLessThan_iff imageI le0 mod_less_divisor)
  qed
qed (use assms in auto)

text \<open>
  C18: one pass over the known nodes finds a node to extend the circuit to, if there is one, wherever
  the random index starts and although it wraps around: a node that was not tried in vain, that is
  not this node, not the given other node and not the bootstrap node, and that passes the check
  against the destination. When there is none, the previous choice stays.
\<close>

theorem choose_peer_finds:
  assumes "boot_peer_id w = Some b" and "infos \<noteq> []" and "length infos < 2 ^ 64"
    and "\<forall>key h. client_peer_map w key = Some h \<longrightarrow> from_whitenoise_to_hash E h \<noteq> None"
    and "\<forall>info \<in> set infos. peer_of_base58 E (ni_id info) \<noteq> None"
  shows "\<exists>p. run (choose_peer E infos invalid other dest (length infos) ix join) w = Done p w \<and>
    (if \<exists>info \<in> set infos. eligible E w b invalid other dest info
     then \<exists>info \<in> set infos. eligible E w b invalid other dest info \<and> peer_of_base58 E (ni_id info) = Some p
     else p = join)"
proof -
  let ?n = "length infos"
  let ?i = "unat (ix + 1) mod ?n"
  let ?l = "map (\<lambda>k. infos ! ((?i + k) mod ?n)) [0..<?n]"
  have n: "0 < ?n" using assms(2) by simp
  have "set ?l = (\<lambda>i. infos ! i) ` (\<lambda>k. (?i + k) mod ?n) ` {0..<?n}" by (simp add: image_image)
  also have "\<dots> = set infos" unfolding all_residues [OF n] by (auto simp: set_conv_nth)
  finally have l: "set ?l = set infos" .
  note r = run_choose_peer [OF assms(1) n assms(3,4)]
  show ?thesis
  proof (cases "find (eligible E w b invalid other dest) ?l")
    case None
    then have "\<not> (\<exists>info \<in> set infos. eligible E w b invalid other dest info)"
      unfolding find_None_filter l by blast
    with None r show ?thesis by simp
  next
    case (Some info)
    then have info: "info \<in> set infos" "eligible E w b invalid other dest info"
      using l by (auto simp: find_Some_iff)
    with assms(5) obtain p where "peer_of_base58 E (ni_id info) = Some p" by blast
    with Some r info show ?thesis by (auto simp: exI [of _ p])
  qed
qed

definition scene_infos :: "node_info list" where
  "scene_infos = [\<lparr>ni_id = hex_enc [1], ni_addr = []\<rparr>, \<lparr>ni_id = hex_enc [2], ni_addr = []\<rparr>]"

theorem choose_peer_finds_witness:
  "\<exists>p. run (choose_peer E0 scene_infos [hex_enc [1]] ''o'' ''d'' (length scene_infos) (- 1) (PeerId [7]))
        (scene_world\<lparr>boot_peer_id := Some (PeerId [9])\<rparr>) = Done p (scene_world\<lparr>boot_peer_id := Some (PeerId [9])\<rparr>) \<and>
    (if \<exists>info \<in> set scene_infos. eligible E0 (scene_world\<lparr>boot_peer_id := Some (PeerId [9])\<rparr>) (PeerId [9])
          [hex_enc [1]] ''o'' ''d'' info
     then \<exists>info \<in> set scene_infos. eligible E0 (scene_world\<lparr>boot_peer_id := Some (PeerId [9])\<rparr>) (PeerId [9])
          [hex_enc [1]] ''o'' ''d'' info \<and> peer_of_base58 E0 (ni_id info) = Some p
     else p = PeerId [7])"
  by (rule choose_peer_finds)
    (simp_all add: scene_infos_def scene_world_def initial_world_def peer_of_base58_def E0_def)

section \<open>The negotiation\<close>

text \<open>
  \<open>sha2\<close>, \<open>ecies_ed25519\<close> and \<open>eth_ecies\<close>: a SHA-512 digest has 64 bytes; what was encrypted to an
  Ed25519 public key decrypts with the scalar of RFC 8032, the lower half of the digest of the secret
  as a little-endian number with its three lowest bits cleared, its highest bit cleared and the bit
  below that set; what was encrypted to a secp256k1 public key decrypts with the secret key.
\<close>

fun le_value :: "bytes \<Rightarrow> nat" where
  "le_value [] = 0"
| "le_value (b # bs) = unat b + 256 * le_value bs"

definition scalar_of :: "bytes \<Rightarrow> bytes \<Rightarrow> bool" where
  "scalar_of lower s \<longleftrightarrow> length s = 32 \<and> le_value s = 8 * (le_value lower div 8 mod 2 ^ 251) + 2 ^ 254"

definition ecies_ok :: "ext \<Rightarrow> bool" where
  "ecies_ok E \<longleftrightarrow> (\<forall>b. length (sha512 E b) = 64) \<and>
     (\<forall>k n p c s. ecies_ed25519_enc E n (public_encode E (KeyEd25519 k)) p = Some c \<longrightarrow>
        scalar_of (take 32 (sha512 E (ed25519_secret E k))) s \<longrightarrow> ecies_ed25519_dec E s c = Some p) \<and>
     (\<forall>k n p c u pk. secp_uncompressed E (public_encode E (KeySecp256k1 k)) = Some u \<longrightarrow>
        slice u 1 65 = Some pk \<longrightarrow> ecies_secp_enc E n pk p = Some c \<longrightarrow>
        ecies_secp_dec E (secp_secret_bytes E k) c = Some p)"

text \<open>The masks of the code make this scalar.\<close>

lemma byte_masks:
  "unat (b AND 248) = 8 * (unat b div 8)" "unat (b AND 63 OR 64) = unat b mod 64 + 64" for b :: byte
proof -
  have "\<forall>n \<in> set [0..<256]. unat (of_nat n AND 248 :: byte) = 8 * (n div 8) \<and>
      unat (of_nat n AND 63 OR 64 :: byte) = n mod 64 + 64"
    by code_simp
  moreover have "unat b \<in> set [0..<256]" using unsigned_less [of b] by simp
  ultimately have "unat (of_nat (unat b) AND 248 :: byte) = 8 * (unat b div 8) \<and>
      unat (of_nat (unat b) AND 63 OR 64 :: byte) = unat b mod 64 + 64" by blast
  then show "unat (b AND 248) = 8 * (unat b div 8)" "unat (b AND 63 OR 64) = unat b mod 64 + 64" by simp_all
qed

lemma le_value_append: "le_value (a @ b) = le_value a + 256 ^ length a * le_value b"
  by (induction a) (simp_all add: algebra_simps)

lemma le_value_less: "le_value a < 256 ^ length a"
proof (induction a)
  case (Cons b a)
  have "unat b < 256" using unsigned_less [of b] by simp
  with Cons show ?case by simp
qed simp

lemma clamp_scalar_of:
  assumes "length lower = 32"
  shows "scalar_of lower (clamp_scalar lower)"
proof -
  obtain x m y where l: "lower = x # m @ [y]" "length m = 30"
  proof -
    obtain x r where r: "lower = x # r" "length r = 31" using assms by (cases lower) auto
    then obtain m y where "r = m @ [y]" "length m = 30" by (cases r rule: rev_cases) auto
    with r that show ?thesis by blast
  qed
  have c: "clamp_scalar lower = (x AND 248) # m @ [y AND 63 OR 64]"
    unfolding clamp_scalar_eq [OF assms] using l by (simp add: nth_append list_update_append)
  define X M Y where "X = unat x" and "M = le_value m" and "Y = unat y"
  have M: "M < 2 ^ 240" using le_value_less [of m] l(2) by (simp add: M_def power_mult [symmetric])
  have v: "le_value lower = X + 256 * M + 2 ^ 248 * Y"
    unfolding l(1) by (simp add: le_value_append l(2) X_def M_def Y_def algebra_simps)
  have w: "le_value (clamp_scalar lower) = 8 * (X div 8) + 256 * M + 2 ^ 248 * (Y mod 64 + 64)"
    unfolding c by (simp add: le_value_append l(2) byte_masks X_def M_def Y_def algebra_simps)
  have "le_value lower div 8 = X div 8 + 32 * M + 2 ^ 245 * (Y mod 64) + 2 ^ 251 * (Y div 64)"
  proof -
    have "le_value lower = X + 8 * (32 * M + 2 ^ 245 * Y)" unfolding v by simp
    then have "le_value lower div 8 = X div 8 + 32 * M + 2 ^ 245 * Y" by (simp only: div_mult_self2)
    moreover have "2 ^ 245 * (Y mod 64 + 64 * (Y div 64)) = 2 ^ 245 * (Y mod 64) + 2 ^ 251 * (Y div 64)"
      by (simp only: distrib_left) simp
    then have "2 ^ 245 * Y = 2 ^ 245 * (Y mod 64) + 2 ^ 251 * (Y div 64)"
      by (simp only: mod_mult_div_eq)
    ultimately show ?thesis by simp
  qed
  moreover have "X div 8 < 32"
  proof -
    have "X < 256" using unsigned_less [of x] by (simp add: X_def)
    then show ?thesis by simp
  qed
  then have "X div 8 + 32 * M + 2 ^ 245 * (Y mod 64) < 2 ^ 251" using M by simp
  ultimately have "le_value lower div 8 mod 2 ^ 251 = X div 8 + 32 * M + 2 ^ 245 * (Y mod 64)"
    by (metis mod_less mod_mult_self2)
  then show ?thesis using w c l(2) by (simp add: scalar_of_def)
qed

lemma composit_bytes_id:
  assumes "base58_ok E" and "from_keypair_to_whitenoise_id E k = Some wid"
  shows "composit_bytes E wid = Some (of_char (case k of KeyEd25519 _ \<Rightarrow> CHR ''0'' | _ \<Rightarrow> CHR ''1'') # public_encode E k)"
  using assms
  by (auto simp: from_keypair_to_whitenoise_id_def composit_bytes_def base58_ok_def as_bytes_def
      split_at_1_ascii split: keypair.splits)

lemma neg_cypher_decrypts:
  assumes "base58_ok E" and "ecies_ok E" and "from_keypair_to_whitenoise_id E k = Some wid"
    and "neg_cypher E n (composit_bytes E wid) neg = Some c"
  shows "(case k of KeyEd25519 _ \<Rightarrow> ecies_ed25519_decrypt E k c
     | KeySecp256k1 _ \<Rightarrow> ecies_decrypt E k c | KeyOther _ \<Rightarrow> None) = Some (Some neg)"
proof (cases k)
  case (KeyEd25519 x)
  have "scalar_of (take 32 (sha512 E (ed25519_secret E x))) (clamp_scalar (take 32 (sha512 E (ed25519_secret E x))))"
    using assms(2) by (intro clamp_scalar_of) (simp add: ecies_ok_def)
  with KeyEd25519 assms show ?thesis
    by (auto simp: composit_bytes_id neg_cypher_def ecies_ok_def ecies_ed25519_encrypt_def
        ecies_ed25519_decrypt_def Let_def)
next
  case (KeySecp256k1 x)
  have "(of_char CHR ''1'' :: byte) \<noteq> of_char CHR ''0''" by simp
  with KeySecp256k1 assms show ?thesis
    by (auto simp: composit_bytes_id neg_cypher_def ecies_ok_def ecies_encrypt_def ecies_decrypt_def
        from_keypair_to_secretkey_bytes_def split: option.splits)
next
  case (KeyOther x)
  with assms(3) show ?thesis by (simp add: from_keypair_to_whitenoise_id_def)
qed

text \<open>
  C16: the negotiation that a caller encrypts for the WhiteNoise id it dialed is read by the client
  with that id, for both kinds of keys. The caller answers \<open>NegPlainText\<close> with a cypher text made
  with what \<open>dial\<close> stored; the client of the id, handed that cypher text in \<open>DecryptGossip\<close>, answers
  with the negotiation.
\<close>

theorem negotiation_reaches_answerer:
  assumes "protos_ok E" and "base58_ok E" and "ecies_ok E"
    and caller: "\<not> poisoned wa Lock_circuit_task" "request_loop_alive wa"
      "circuit_task wa sid = composit_bytes E wid"
      "rq_data ra = enc (c_neg_plaintext E) \<lparr>npl_session_id = sid, npl_neg = enc (c_negotiate E) neg\<rparr>"
      "neg_cypher E (draws wa) (composit_bytes E wid) (enc (c_negotiate E) neg) = Some c"
    and answerer: "from_keypair_to_whitenoise_id E (node_keypair wb) = Some wid" "request_loop_alive wb"
      "rq_data rb = enc (c_decrypt E) \<lparr>de_destination = dest, de_cypher = c\<rparr>"
  shows "\<exists>wa' wb'. run (handle_neg_plaintext E ra p) wa = Done () wa' \<and>
    node_request_sender wa' = node_request_sender wa @ [ack_to p (rq_req_id ra) True c] \<and>
    run (handle_decrypt_gossip E rb q) wb = Done () wb' \<and>
    node_request_sender wb' = node_request_sender wb @ [ack_to q (rq_req_id rb) True (enc (c_negotiate E) neg)]"
proof -
  let ?k = "node_keypair wb"
  have d: "(case ?k of KeyEd25519 _ \<Rightarrow> ecies_ed25519_decrypt E ?k c
     | KeySecp256k1 _ \<Rightarrow> ecies_decrypt E ?k c | KeyOther _ \<Rightarrow> None) = Some (Some (enc (c_negotiate E) neg))"
    by (rule neg_cypher_decrypts [OF assms(2,3) answerer(1) caller(5)])
  have "\<exists>wa'. run (handle_neg_plaintext E ra p) wa = Done () wa' \<and>
      node_request_sender wa' = node_request_sender wa @ [ack_to p (rq_req_id ra) True c]"
    using assms(1) caller by (simp add: handle_neg_plaintext_def run_simps Let_def)
  moreover have "\<exists>wb'. run (handle_decrypt_gossip E rb q) wb = Done () wb' \<and>
      node_request_sender wb' = node_request_sender wb @ [ack_to q (rq_req_id rb) True (enc (c_negotiate E) neg)]"
    using assms(1) answerer(2,3) d
    by (cases "node_keypair wb") (simp_all add: handle_decrypt_gossip_def run_simps)
  ultimately show ?thesis by blast
qed

lemma E0_ecies: "ecies_ok E0"
  by (auto simp: ecies_ok_def E0_def)

definition scene_wid :: string where
  "scene_wid = ''0'' @ bs58_encode E0 (public_encode E0 (KeyEd25519 [42]))"

lemma scene_wid_id: "from_keypair_to_whitenoise_id E0 (KeyEd25519 [42]) = Some scene_wid"
  by (simp add: from_keypair_to_whitenoise_id_def scene_wid_def)

lemma scene_cypher: "neg_cypher E0 n (composit_bytes E0 scene_wid) d = Some (9 # d)"
  by (simp add: composit_bytes_id [OF E0_base58 scene_wid_id] neg_cypher_def ecies_ed25519_encrypt_def)
    (simp add: E0_def)

definition scene_neg :: negotiate where
  "scene_neg = \<lparr>ng_join = ''j'', ng_session_id = ''s1'', ng_destination = ''d'', ng_sig = []\<rparr>"

definition scene_request :: "string \<Rightarrow> i32 \<Rightarrow> bytes \<Rightarrow> request" where
  "scene_request i t d = \<lparr>rq_req_id = i, rq_from = ''f'', rq_reqtype = t, rq_data = d\<rparr>"

theorem negotiation_reaches_answerer_witness:
  "\<exists>wa' wb'. run (handle_neg_plaintext E0 (scene_request ''a'' 4
        (enc (c_neg_plaintext E0) \<lparr>npl_session_id = ''s1'', npl_neg = enc (c_negotiate E0) scene_neg\<rparr>))
        (PeerId [1])) (scene_world\<lparr>circuit_task := \<lambda>_. composit_bytes E0 scene_wid\<rparr>) = Done () wa' \<and>
    node_request_sender wa' =
      node_request_sender (scene_world\<lparr>circuit_task := \<lambda>_. composit_bytes E0 scene_wid\<rparr>) @
      [ack_to (PeerId [1]) (rq_req_id (scene_request ''a'' 4
        (enc (c_neg_plaintext E0) \<lparr>npl_session_id = ''s1'', npl_neg = enc (c_negotiate E0) scene_neg\<rparr>)))
        True (9 # enc (c_negotiate E0) scene_neg)] \<and>
    run (handle_decrypt_gossip E0 (scene_request ''b'' 3
        (enc (c_decrypt E0) \<lparr>de_destination = ''d'', de_cypher = 9 # enc (c_negotiate E0) scene_neg\<rparr>))
        (PeerId [2])) scene_world = Done () wb' \<and>
    node_request_sender wb' = node_request_sender scene_world @
      [ack_to (PeerId [2]) (rq_req_id (scene_request ''b'' 3
        (enc (c_decrypt E0) \<lparr>de_destination = ''d'', de_cypher = 9 # enc (c_negotiate E0) scene_neg\<rparr>)))
        True (enc (c_negotiate E0) scene_neg)]"
  by (rule negotiation_reaches_answerer [where wid = scene_wid and sid = "''s1''" and dest = "''d''"])
    (simp_all add: E0_ecies scene_cypher scene_world_def initial_world_def scene_wid_id scene_request_def)

section \<open>A malformed request\<close>

lemma bind_await: "bind (await g f u) q = Act g u (\<lambda>s. q (f s))"
  by (simp add: await_def)

lemma process_proxy_request_Act:
  "\<exists>g u k. process_proxy_request E = Act g u k \<and>
     (\<forall>w r rest. proxy_request_channel w = r # rest \<longrightarrow> g w \<and>
        u w = w\<lparr>proxy_request_channel := rest\<rparr> \<and>
        k w = andthen (case npr_peer_operation r of
                    Some PeerOperation_Disconnect \<Rightarrow> remove_client E (npr_remote_peer_id r)
                  | None \<Rightarrow> bind (unwrap (npr_proxy_request r)) (\<lambda>request.
                      handle_proxy_request E request (npr_remote_peer_id r)))
                 (Ret (Some T_process_proxy_request)))"
  unfolding process_proxy_request_def recv_proxy_def chan_recv_def bind_await by auto

definition bad_request :: "ext \<Rightarrow> request \<Rightarrow> bool" where
  "bad_request E r \<longleftrightarrow> rq_reqtype r = reqtype_i32 Reqtype_NewProxy \<and> dec (c_new_proxy E) (rq_data r) = None"

lemma handle_bad_request: "bad_request E r \<Longrightarrow> handle_proxy_request E r p = Panic"
  by (simp add: bad_request_def handle_proxy_request_def handle_new_proxy_def Let_def)

abbreviation proxy_event :: "peer_id \<Rightarrow> request \<Rightarrow> swarm_event" where
  "proxy_event p r \<equiv> Ev_proxy (RequestResponseEvent_Message p (RequestResponseMessage_Request r))"

lemma end_event_loop_dead: "request_loop_alive (end_event_loop w) = False"
  by (simp add: end_event_loop_def)

text \<open>
  C28: any peer can bring a node down with two messages. A registration request whose data does not
  decode makes the loop that serves requests panic; the next request, from whichever peer, then finds
  the receiver of that loop gone, and the event loop of the node panics on it.
\<close>

theorem malformed_request_stops_node:
  assumes "request_loop_alive w" and "proxy_loop_alive w" and "proxy_request_channel w = []"
    and "bad_request E bad"
  shows "\<exists>w'. reachable E mode (w, n, [(Some T_process_proxy_request, body E T_process_proxy_request)])
      (w', n, []) \<and> \<not> request_loop_alive w' \<and>
    swarm_event E mode (proxy_event p bad) (w, n) = (w\<lparr>proxy_request_channel :=
      [\<lparr>npr_remote_peer_id = p, npr_proxy_request = Some bad, npr_peer_operation = None\<rparr>]\<rparr>, n)"
proof -
  let ?r = "\<lparr>npr_remote_peer_id = p, npr_proxy_request = Some bad, npr_peer_operation = None\<rparr>"
  let ?t = "Some T_process_proxy_request"
  let ?w1 = "w\<lparr>proxy_request_channel := [?r]\<rparr>"
  let ?w3 = "task_end ?t (?w1\<lparr>proxy_request_channel := []\<rparr>)"
  obtain g u k where act: "process_proxy_request E = Act g u k"
    and "\<forall>w r rest. proxy_request_channel w = r # rest \<longrightarrow> g w \<and> u w = w\<lparr>proxy_request_channel := rest\<rparr> \<and>
        k w = andthen (case npr_peer_operation r of
                    Some PeerOperation_Disconnect \<Rightarrow> remove_client E (npr_remote_peer_id r)
                  | None \<Rightarrow> bind (unwrap (npr_proxy_request r)) (\<lambda>request.
                      handle_proxy_request E request (npr_remote_peer_id r)))
                 (Ret (Some T_process_proxy_request))"
    using process_proxy_request_Act [of E] by blast
  then have gu: "g ?w1" "u ?w1 = ?w1\<lparr>proxy_request_channel := []\<rparr>" and k: "k ?w1 = Panic"
    by (simp_all add: handle_bad_request [OF assms(4)] andthen_def)
  have ev: "swarm_event E mode (proxy_event p bad) (w, n) = (?w1, n)"
    using assms(2,3)
    by (simp add: swarm_event_def swarm_inject_def inject_proxy_event_def push_proxy_request_def)
  have s1: "sys_step E mode (w, n, [] @ (?t, Act g u k) # []) (?w1, n, [] @ (?t, Act g u k) # [])"
    by (rule step_event [OF assms(1) ev])
  have s2: "sys_step E mode (?w1, n, [] @ (?t, Act g u k) # []) (u ?w1, n, [] @ (?t, k ?w1) # [])"
    using gu(1) by (rule step_act)
  have s3: "sys_step E mode (u ?w1, n, [] @ (?t, Panic) # []) (task_end ?t (u ?w1), n, [] @ [])"
    by (rule step_panic)
  have "swarm_event E mode (proxy_event p bad) (?w3, n) = (end_event_loop ?w3, n)"
    by (simp add: swarm_event_def swarm_inject_def inject_proxy_event_def push_proxy_request_def)
  then have s4: "sys_step E mode (?w3, n, [] @ []) (end_event_loop ?w3, n, [] @ [])"
    using assms(1) by (intro step_event) simp_all
  have "reachable E mode (w, n, [] @ (?t, Act g u k) # []) (end_event_loop ?w3, n, [] @ [])"
    by (rule reach_step [OF reach_step [OF reach_step [OF reach_step [OF reach_refl s1]
      s2 [unfolded k gu(2)]] s3 [unfolded gu(2)]] s4])
  then show ?thesis using ev end_event_loop_dead [of ?w3] by (auto simp: act)
qed

lemma scene_bad: "bad_request E0 (scene_request ''q'' 1 [255])"
proof -
  have "snd s_new_proxy [255] = None" by code_simp
  then show ?thesis by (simp add: bad_request_def E0_def codec_of_def scene_request_def)
qed

theorem malformed_request_stops_node_witness:
  "\<exists>w'. reachable E0 RunMode_Server (scene_world, initial_swarm E0 [],
      [(Some T_process_proxy_request, body E0 T_process_proxy_request)]) (w', initial_swarm E0 [], []) \<and>
    \<not> request_loop_alive w' \<and>
    swarm_event E0 RunMode_Server (proxy_event (PeerId [6]) (scene_request ''q'' 1 [255]))
      (scene_world, initial_swarm E0 []) =
      (scene_world\<lparr>proxy_request_channel := [\<lparr>npr_remote_peer_id = PeerId [6],
        npr_proxy_request = Some (scene_request ''q'' 1 [255]), npr_peer_operation = None\<rparr>]\<rparr>, initial_swarm E0 [])"
  by (rule malformed_request_stops_node [OF _ _ _ scene_bad]) (simp_all add: scene_world_def initial_world_def)

end
