(* ===== verification/Substreams.thy ===== *)
theory Substreams
  imports Connection Protocols
begin

text \<open>
  The functions of \<open>network/utils.rs\<close> that read and write a \<open>NegotiatedSubstream\<close> directly, without
  the queues of a wrapped stream, and those that read payloads off a wrapped stream.
\<close>

section \<open>Writing\<close>

definition write_relay :: "ext \<Rightarrow> substream \<Rightarrow> relay \<Rightarrow> (substream \<times> string) async" where
  "write_relay E stream relay =
     bind (confusion_relay E relay) (\<lambda>relay.
     let relay_data = enc (c_relay E) relay;
         key = from_bytes_get_id E relay_data;
         relay = relay\<lparr>relay_id := key\<rparr>;
         relay_data = enc (c_relay E) relay in
     bind (jitter E) (\<lambda>_.
     bind (ns_write E stream relay_data) (\<lambda>stream.
     Ret (stream, key))))"

definition write_relay_wake :: "ext \<Rightarrow> substream \<Rightarrow> substream async" where
  "write_relay_wake E stream =
     bind (write_relay E stream (relay_of Relaytype_Wake [])) (\<lambda>(stream, _). Ret stream)"

definition write_set_session :: "ext \<Rightarrow> substream \<Rightarrow> string \<Rightarrow> (substream \<times> string) async" where
  "write_set_session E stream session_id =
     (let cmd = \<lparr>ssm_session_id = session_id, ssm_role = session_role_i32 EntryRole\<rparr>;
          data = enc (c_set_session E) cmd in
      write_relay E stream (relay_of Relaytype_SetSessionId data))"

definition write_payload :: "ext \<Rightarrow> substream \<Rightarrow> bytes \<Rightarrow> nat \<Rightarrow> string \<Rightarrow> substream async" where
  "write_payload E stream buf len session_id =
     (let new_buf = foldl (\<lambda>v x. v @ [x]) (put_u16 len) buf;
          relay_msg = \<lparr>rm_session_id = session_id, rm_data = new_buf\<rparr>;
          relay_msg_data = enc (c_relay_msg E) relay_msg in
      bind (write_relay E stream (relay_of Relaytype_Data relay_msg_data)) (\<lambda>(stream, _). Ret stream))"

text \<open>The buffer of an encrypted message is known by its length; \<open>buf[..len]\<close> is what was written to it.\<close>

definition write_encrypted_payload_arc ::
  "ext \<Rightarrow> wrapped_stream \<Rightarrow> bytes \<Rightarrow> nat \<Rightarrow> string \<Rightarrow> noise \<Rightarrow> noise async" where
  "write_encrypted_payload_arc E stream payload buf_len session_id noise =
     bind (unwrap (noise_write_into E buf_len payload noise)) (\<lambda>(noise, buf_tmp).
     bind (write_payload_arc E stream buf_tmp (length buf_tmp) session_id) (\<lambda>_.
     Ret noise))"

definition write_encrypted_payload ::
  "ext \<Rightarrow> substream \<Rightarrow> bytes \<Rightarrow> nat \<Rightarrow> string \<Rightarrow> noise \<Rightarrow> (substream \<times> noise) async" where
  "write_encrypted_payload E stream payload buf_len session_id noise =
     bind (unwrap (noise_write_into E buf_len payload noise)) (\<lambda>(noise, buf_tmp).
     bind (write_payload E stream buf_tmp (length buf_tmp) session_id) (\<lambda>stream.
     Ret (stream, noise)))"

definition write_handshake_payload :: "ext \<Rightarrow> substream \<Rightarrow> bytes \<Rightarrow> nat \<Rightarrow> string \<Rightarrow> substream async" where
  "write_handshake_payload E stream buf len session_id = write_payload E stream buf len session_id"

section \<open>Reading\<close>

definition read_from_negotiated :: "ext \<Rightarrow> substream \<Rightarrow> (relay io_result \<times> substream) async" where
  "read_from_negotiated E stream =
     bind (ns_read E 4096 stream) (\<lambda>(res, stream).
     case res of
       Inl e \<Rightarrow> Ret (Inl ErrorKind_InvalidData, stream)
     | Inr msg \<Rightarrow> bind (unwrap (dec (c_relay E) msg)) (\<lambda>relay. Ret (Inr relay, stream)))"

definition ok_of :: "'e + 'a \<Rightarrow> 'a option" where
  "ok_of r = (case r of Inl _ \<Rightarrow> None | Inr x \<Rightarrow> Some x)"

text \<open>
  The loop of \<open>read_payload\<close>, which skips messages that carry no data, and the same loop over a
  wrapped stream. They make at most \<open>k\<close> rounds here and return \<open>None\<close> when these are used up.
\<close>

fun read_data :: "ext \<Rightarrow> substream \<Rightarrow> nat \<Rightarrow> (relay option \<times> substream) async" where
  "read_data E stream 0 = Ret (None, stream)"
| "read_data E stream (Suc k) =
     bind (read_from_negotiated E stream) (\<lambda>(relay_inner_rest, stream).
     bind (unwrap (ok_of relay_inner_rest)) (\<lambda>relay_inner.
     if relay_type relay_inner = relaytype_i32 Relaytype_Data then Ret (Some relay_inner, stream)
     else read_data E stream k))"

fun read_data_arc :: "ext \<Rightarrow> wrapped_stream \<Rightarrow> nat \<Rightarrow> relay option async" where
  "read_data_arc E stream 0 = Ret None"
| "read_data_arc E stream (Suc k) =
     bind (read_from_negotiated_arc E stream) (\<lambda>relay_inner_rest.
     bind (unwrap (ok_of relay_inner_rest)) (\<lambda>relay_inner.
     if relay_type relay_inner = relaytype_i32 Relaytype_Data then Ret (Some relay_inner)
     else read_data_arc E stream k))"

text \<open>\<open>data[2..(2 + buf_len)]\<close> of the relay message.\<close>

definition payload_in :: "ext \<Rightarrow> relay \<Rightarrow> bytes async" where
  "payload_in E relay =
     bind (unwrap (dec (c_relay_msg E) (relay_data relay))) (\<lambda>relay_msg. unwrap (unframe16 (rm_data relay_msg)))"

definition read_payload :: "ext \<Rightarrow> substream \<Rightarrow> nat \<Rightarrow> (bytes option \<times> substream) async" where
  "read_payload E stream k =
     bind (read_data E stream k) (\<lambda>(relay_opt, stream).
     case relay_opt of
       None \<Rightarrow> Ret (None, stream)
     | Some relay \<Rightarrow> bind (payload_in E relay) (\<lambda>payload. Ret (Some payload, stream)))"

definition read_payload_arc :: "ext \<Rightarrow> wrapped_stream \<Rightarrow> nat \<Rightarrow> bytes option async" where
  "read_payload_arc E stream k =
     bind (read_data_arc E stream k) (\<lambda>relay_opt.
     case relay_opt of
       None \<Rightarrow> Ret None
     | Some relay \<Rightarrow> bind (payload_in E relay) (\<lambda>payload. Ret (Some payload)))"

text \<open>The readers that decrypt return the Noise state and what \<open>read_message\<close> wrote to the buffer.\<close>

definition read_and_decrypt_payload_arc ::
  "ext \<Rightarrow> wrapped_stream \<Rightarrow> nat \<Rightarrow> noise \<Rightarrow> nat \<Rightarrow> (noise \<times> bytes) option async" where
  "read_and_decrypt_payload_arc E stream k noise buf_len =
     bind (read_payload_arc E stream k) (\<lambda>payload_opt.
     case payload_opt of
       None \<Rightarrow> Ret None
     | Some payload \<Rightarrow> bind (unwrap (noise_read_into E buf_len payload noise)) (\<lambda>r. Ret (Some r)))"

definition read_and_decrypt_payload ::
  "ext \<Rightarrow> substream \<Rightarrow> nat \<Rightarrow> noise \<Rightarrow> nat \<Rightarrow> (substream \<times> (noise \<times> bytes) option) async" where
  "read_and_decrypt_payload E stream k noise buf_len =
     bind (read_payload E stream k) (\<lambda>(payload_opt, stream).
     case payload_opt of
       None \<Rightarrow> Ret (stream, None)
     | Some payload \<Rightarrow>
         bind (unwrap (noise_read_into E buf_len payload noise)) (\<lambda>r. Ret (stream, Some r)))"

definition read_handshake_payload_arc ::
  "ext \<Rightarrow> wrapped_stream \<Rightarrow> nat \<Rightarrow> noise \<Rightarrow> nat \<Rightarrow> (noise \<times> bytes) option async" where
  "read_handshake_payload_arc E stream k noise buf_len =
     bind (read_payload_arc E stream k) (\<lambda>payload_opt.
     case payload_opt of
       None \<Rightarrow> Ret None
     | Some payload \<Rightarrow> bind (unwrap (noise_read_into E buf_len payload noise)) (\<lambda>r. Ret (Some r)))"

definition read_handshake_payload ::
  "ext \<Rightarrow> substream \<Rightarrow> nat \<Rightarrow> noise \<Rightarrow> nat \<Rightarrow> (substream \<times> (noise \<times> bytes) option) async" where
  "read_handshake_payload E stream k noise buf_len =
     bind (read_payload E stream k) (\<lambda>(payload_opt, stream).
     case payload_opt of
       None \<Rightarrow> Ret (stream, None)
     | Some payload \<Rightarrow>
         bind (unwrap (noise_read_into E buf_len payload noise)) (\<lambda>r. Ret (stream, Some r)))"

section \<open>Lemmas\<close>

lemma foldl_snoc: "foldl (\<lambda>v x. v @ [x]) acc xs = acc @ xs"
  by (induction xs arbitrary: acc) simp_all

lemma run_write_relay [run_simps]:
  "run (write_relay E s r) w =
     (let w' = w\<lparr>draws := draws w + 3\<rparr>; m = on_wire E (draws w) r in
      if ns_broken s then Panicked w'
      else Done (s\<lparr>ns_written := ns_written s @ len_prefixed E (enc (c_relay E) m)\<rparr>, relay_id m) w')"
  by (simp add: write_relay_def run_simps Let_def on_wire_def ns_write_def ns_send_def numeral_3_eq_3)

text \<open>Messages that carry no data.\<close>

definition no_data :: "ext \<Rightarrow> bytes \<Rightarrow> bool" where
  "no_data E bs = (case dec (c_relay E) bs of
     None \<Rightarrow> False | Some r \<Rightarrow> relay_type r \<noteq> relaytype_i32 Relaytype_Data)"

lemma read_data_skip:
  assumes "read_one_ok E" and "\<forall>m \<in> set ms. no_data E m \<and> length m \<le> 4096" and "length ms < k"
  shows "read_data E (t\<lparr>ns_incoming := concat (map (len_prefixed E) ms) @ q\<rparr>) k =
    read_data E (t\<lparr>ns_incoming := q\<rparr>) (k - length ms)"
  using assms(2,3)
proof (induction ms arbitrary: k)
  case (Cons m ms)
  obtain j where j: "k = Suc j" "length ms < j" using Cons.prems(2) by (cases k) auto
  obtain r where "dec (c_relay E) m = Some r" "relay_type r \<noteq> relaytype_i32 Relaytype_Data"
    using Cons.prems(1) by (auto simp: no_data_def split: option.splits)
  with Cons.prems(1) Cons.IH [of j] j assms(1) show ?case
    by (simp add: read_from_negotiated_def ok_of_def)
qed simp

lemma run_read_data:
  assumes "read_one_ok E" and "dec (c_relay E) bs = Some r" and "relay_type r = relaytype_i32 Relaytype_Data"
  shows "length bs \<le> 4096 \<Longrightarrow>
      read_data E (t\<lparr>ns_incoming := len_prefixed E bs @ q\<rparr>) (Suc k) = Ret (Some r, t\<lparr>ns_incoming := q\<rparr>)"
    and "4096 < length bs \<Longrightarrow> read_data E (t\<lparr>ns_incoming := len_prefixed E bs @ q\<rparr>) (Suc k) = Panic"
  using assms ns_read_long [OF assms(1), where lim = 4096 and m = bs and s = t and rest = q]
  by (auto simp: read_from_negotiated_def ok_of_def)

lemma run_read_data_arc:
  assumes "\<forall>m \<in> set ms. no_data E m" and "in_chan w (ws_stream st) = map Inr ms @ Inr bs # q"
    and "dec (c_relay E) bs = Some r" and "relay_type r = relaytype_i32 Relaytype_Data" and "length ms < k"
  shows "run (read_data_arc E st k) w = Done (Some r) (w\<lparr>in_chan := (in_chan w)(ws_stream st := q)\<rparr>)"
  using assms
proof (induction ms arbitrary: w k)
  case Nil
  obtain j where "k = Suc j" using Nil.prems(5) by (cases k) auto
  with Nil.prems(2-4) show ?case by (simp add: read_from_negotiated_arc_def run_simps ok_of_def fun_upd_def)
next
  case (Cons m ms)
  obtain j where j: "k = Suc j" "length ms < j" using Cons.prems(5) by (cases k) auto
  from Cons.prems(1) obtain r' where m: "dec (c_relay E) m = Some r'"
    "relay_type r' \<noteq> relaytype_i32 Relaytype_Data" "\<forall>m \<in> set ms. no_data E m"
    by (auto simp: no_data_def split: option.splits)
  let ?w = "w\<lparr>in_chan := (in_chan w)(ws_stream st := map Inr ms @ Inr bs # q)\<rparr>"
  have "run (read_data_arc E st j) ?w = Done (Some r) (?w\<lparr>in_chan := (in_chan ?w)(ws_stream st := q)\<rparr>)"
    using Cons.IH [OF m(3), of ?w j] Cons.prems(3,4) j(2) by (simp add: fun_upd_def cong: if_cong)
  with m Cons.prems(2) j(1) show ?case
    by (simp add: read_from_negotiated_arc_def run_simps ok_of_def fun_upd_def cong: if_cong)
qed

end
