(* ===== verification/Wire_Props.thy ===== *)
theory Wire_Props
  imports Circuit_Props Substreams
begin

text \<open>
  What the wire formats, the queues and the stores guarantee: framing, the sequence of messages of
  a connection, what the pump of a stream writes and reads, the queues of the relay behaviour, the
  list of known peers, the report of new sessions, the stored account.
\<close>

section \<open>Framing\<close>

text \<open>
  C39: a payload comes back out of its 16-bit frame, whatever follows the frame, just when it is
  shorter than 65536 bytes, for longer ones lose the high bits of their length; an application
  message comes back out of its 32-bit frame just when it is shorter than 4 GiB; and what a reader
  takes out of a buffer lies inside it.
\<close>

theorem frames_exact:
  "(unframe16 (frame16 p @ rest) = Some p \<longleftrightarrow> length p < 65536) \<and>
   (unframe32 (frame32 m @ rest) = Some m \<longleftrightarrow> length m < 4294967296) \<and>
   (\<forall>buf x. unframe16 buf = Some x \<longrightarrow> length x + 2 \<le> length buf) \<and>
   (\<forall>buf x. unframe32 buf = Some x \<longrightarrow> length x + 4 \<le> length buf)"
proof -
  have "length x + 2 \<le> length buf" if "unframe16 buf = Some x" for buf x
    using u16.unframe_exact [OF that] by (auto simp: frame16_def put_u16_def)
  moreover have "length x + 4 \<le> length buf" if "unframe32 buf = Some x" for buf x
    using u32.unframe_exact [OF that] by (auto simp: frame32_def put_u32_def)
  ultimately show ?thesis
    using u16.unframe_frame u16.unframe_exact u32.unframe_frame u32.unframe_exact by blast
qed

theorem frames_exact_witness:
  "(unframe16 (frame16 [7, 8] @ [9]) = Some [7, 8] \<longleftrightarrow> length [7 :: byte, 8] < 65536) \<and>
   (unframe32 (frame32 [7, 8] @ [9]) = Some [7, 8] \<longleftrightarrow> length [7 :: byte, 8] < 4294967296) \<and>
   unframe32 [0, 0, 0, 1, 5, 6] = Some [5]"
  using frames_exact [of "[7, 8]" "[9]" "[7, 8]"] by (simp add: unframe32_cons be_dec_def)

section \<open>The messages of a connection\<close>

fun write_all :: "ext \<Rightarrow> circuit_conn \<Rightarrow> bytes list \<Rightarrow> unit async" where
  "write_all E cc [] = Ret ()"
| "write_all E cc (p # ps) = bind (circuit_conn_write E cc p BUF_LEN) (\<lambda>_. write_all E cc ps)"

fun read_all :: "ext \<Rightarrow> circuit_conn \<Rightarrow> bytes \<Rightarrow> nat \<Rightarrow> bytes list async" where
  "read_all E cc buf 0 = Ret []"
| "read_all E cc buf (Suc k) =
     bind (circuit_conn_read E cc buf) (\<lambda>(m, buf).
     bind (read_all E cc buf k) (\<lambda>ms. Ret (m # ms)))"

text \<open>The payload of a queued relay message, as its receiver hands it to the connection.\<close>

fun payload_of :: "ext \<Rightarrow> wraped_data \<Rightarrow> bytes option" where
  "payload_of E WrapedData_Close = None"
| "payload_of E (WrapedData_Data bs) =
     (case dec (c_relay E) bs of None \<Rightarrow> None
      | Some r \<Rightarrow> map_option rm_data (dec (c_relay_msg E) (relay_data r)))"

text \<open>The cypher texts of a sequence of messages; \<open>None\<close> when \<open>snow\<close> refuses one.\<close>

fun encrypt_all :: "ext \<Rightarrow> noise \<Rightarrow> bytes list \<Rightarrow> bytes list option" where
  "encrypt_all E a [] = Some []"
| "encrypt_all E a (p # ps) =
     (case noise_write_message E a p of
        None \<Rightarrow> None
      | Some (a', c) \<Rightarrow> map_option ((#) c) (encrypt_all E a' ps))"

lemma transports_sent_relay [simp]: "transports (sent_relay E st r w) = transports w"
  by (simp add: sent_relay_def push_out_def)

lemma run_write_all:
  assumes "protos_ok E" and "alloc_exact E" and "noise_paired E R"
    and "cc_transport_state cc = Some h" and "transports w h = Some a" and "R a b"
    and "encrypt_all E a ps = Some cs"
  shows "\<exists>w' ds. run (write_all E cc ps) w = Done () w' \<and>
    out_chan w' (ws_stream (cc_out_stream cc)) = out_chan w (ws_stream (cc_out_stream cc)) @ ds \<and>
    map (payload_of E) ds = map (\<lambda>c. Some (frame16 c)) cs"
  using assms(5-)
proof (induction ps arbitrary: w a b cs)
  case (Cons p ps)
  then obtain a' c cs' where c: "noise_write_message E a p = Some (a', c)"
    "encrypt_all E a' ps = Some cs'" "cs = c # cs'"
    by (auto split: option.split_asm prod.split_asm)
  obtain b' where l: "c \<noteq> []" "length c < 65536" "R a' b'"
    using noise_pairedD [OF assms(3) Cons.prems(2) c(1)] by metis
  let ?r = "relay_of Relaytype_Data (enc (c_relay_msg E) \<lparr>rm_session_id = cc_id cc, rm_data = frame16 c\<rparr>)"
  let ?w = "sent_relay E (cc_out_stream cc) ?r (w\<lparr>transports := (transports w)(h \<mapsto> a')\<rparr>)"
  have wr: "run (circuit_conn_write E cc p BUF_LEN) w = Done () ?w"
    using assms(2,4) Cons.prems(1) c(1) l
    by (simp add: circuit_conn_write_def run_simps noise_write_into_def BUF_LEN_def run_write_payload_arc)
  have "payload_of E (WrapedData_Data (enc (c_relay E) (on_wire E (draws w) ?r))) = Some (frame16 c)"
    using assms(1) by (simp add: relay_of_def)
  then show ?case
    using Cons.IH [of ?w a' b' cs'] l c
    by (auto simp: run_simps wr out_chan_sent_relay)
qed simp

lemma run_read_all:
  assumes "noise_paired E R" and "cc_transport_state cc = Some h" and "transports w h = Some b"
    and "R a b" and "encrypt_all E a (map frame32 ms) = Some cs"
    and "conn_chan w (cc_in_channel cc) = map frame16 cs"
    and "\<forall>m \<in> set ms. length m + 4 \<le> length buf" and "length buf \<le> 65536"
  shows "\<exists>w'. run (read_all E cc buf (length ms)) w = Done ms w'"
  using assms(3-)
proof (induction ms arbitrary: w a b cs buf)
  case (Cons m ms)
  then obtain a' c cs' where c: "noise_write_message E a (frame32 m) = Some (a', c)"
    "encrypt_all E a' (map frame32 ms) = Some cs'" "cs = c # cs'"
    by (auto split: option.split_asm prod.split_asm)
  obtain b' where l: "length c < 65536" "noise_read_message E b c = Some (b', frame32 m)" "R a' b'"
    using noise_pairedD [OF assms(1) Cons.prems(2) c(1)] by metis
  have fits: "length (frame32 m) \<le> length buf" "length m < 4294967296"
    using Cons.prems(5,6) by (simp_all add: frame32_def put_u32_def)
  let ?w = "w\<lparr>conn_chan := (conn_chan w)(cc_in_channel cc := map frame16 cs'), transports := (transports w)(h \<mapsto> b')\<rparr>"
  let ?buf = "frame32 m @ drop (length (frame32 m)) buf"
  have rd: "run (circuit_conn_read E cc buf) w = Done (m, ?buf) ?w"
    using Cons.prems(4) c(3)
    by (intro circuit_conn_read_frame [OF assms(2) Cons.prems(1) _ l(1,2) fits]) simp
  have "length ?buf = length buf" using fits(1) by simp
  with Cons.IH [of ?w b' a' cs' ?buf] Cons.prems(5,6) l(3) c(2) show ?case
    by (auto simp: run_simps rd)
qed simp



section \<open>Streams\<close>

text \<open>
  C20: a stream writes what was queued, in that order and each entry once, up to the first \<open>Close\<close>,
  whatever the network does; and as long as its pump runs, what is not written is still queued.
\<close>

theorem stream_writes_in_order:
  assumes "pump_run E st ts (True, w, n) = (alive, w', n')"
  shows "\<exists>xs. sub_written n' (ws_stream st) = sub_written n (ws_stream st) @ xs \<and>
    prefix xs (queued (out_chan w (ws_stream st) @ queued_by ts)) \<and>
    (alive \<longrightarrow> xs @ queued (out_chan w' (ws_stream st)) = queued (out_chan w (ws_stream st) @ queued_by ts))"
  using assms by (rule pump_run_written)

theorem stream_writes_in_order_witness:
  "\<exists>alive w' n' xs. pump_run E0 (scene_stream 3 ''a'')
      [Tr_queue (WrapedData_Data [1]), Tr_round (Poll_next True), Tr_queue (WrapedData_Data [2])]
      (True, scene_world, initial_swarm E0 []) = (alive, w', n') \<and>
    sub_written n' (ws_stream (scene_stream 3 ''a'')) = sub_written (initial_swarm E0 []) (ws_stream (scene_stream 3 ''a'')) @ xs \<and>
    prefix xs (queued (out_chan scene_world (ws_stream (scene_stream 3 ''a'')) @
      queued_by [Tr_queue (WrapedData_Data [1]), Tr_round (Poll_next True), Tr_queue (WrapedData_Data [2])]))"
proof -
  obtain alive w' n' where r: "pump_run E0 (scene_stream 3 ''a'')
      [Tr_queue (WrapedData_Data [1]), Tr_round (Poll_next True), Tr_queue (WrapedData_Data [2])]
      (True, scene_world, initial_swarm E0 []) = (alive, w', n')" by (metis prod_cases3)
  from stream_writes_in_order [OF r] r show ?thesis by blast
qed

text \<open>
  C30: what the pump of a stream makes of a message that comes in byte after byte. A message of at
  most 4096 bytes that is not empty is handed on, whole, by a task that is spawned for it. A longer
  one is a read error: the reader of the stream gets it and the pump stops; so does an empty one. A
  message that has come in only in part is forgotten as soon as something is written to the stream:
  the pump goes on in the very state in which it would be had these bytes never come, so that the
  rest of the message is read as if it were the beginning of one.
\<close>

theorem pump_reads:
  assumes "read_one_ok E" and "sub_got n (ws_stream st) = []" and "p @ q = len_prefixed E m" and "q \<noteq> []"
  shows "(m \<noteq> [] \<and> length m \<le> READ_LIMIT \<longrightarrow> feed E st (len_prefixed E m) (w, n) =
      Some (Loop_continue, w\<lparr>spawned := spawned w @ [T_send_in st (Inr m)]\<rparr>, n)) \<and>
    (READ_LIMIT < length m \<longrightarrow> feed E st (len_prefixed E m) (w, n) =
      Some (Loop_break, push_in st (Inl (ReadOneError_TooLarge (length m) READ_LIMIT)) w, n)) \<and>
    (m = [] \<longrightarrow> feed E st (len_prefixed E m) (w, n) =
      Some (Loop_break, push_in st (Inl (ReadOneError_Io ''stream read len zero'')) w, n)) \<and>
    (length m \<le> READ_LIMIT \<longrightarrow>
      (\<exists>s. feed E st p (w, n) = Some (Loop_continue, s) \<and>
         start_poll E st (Poll_next ok) s = start_poll E st (Poll_next ok) (w, n)))"
proof -
  have "start_poll E st (Poll_next ok) (w, put_got st p n) = start_poll E st (Poll_next ok) (w, n)"
    by (simp add: start_poll_def put_got_def Let_def split: list.split wraped_data.split)
  moreover have "strict_prefix p (len_prefixed E m)" using assms(4) by (auto simp: strict_prefix_def simp flip: assms(3))
  ultimately show ?thesis
    using feed_message [OF assms(1,2), of m "[]" w] feed_long [OF assms(1,2), of m "[]" w]
      feed_empty [OF assms(1,2), of w] feed_part [OF assms(1,2), of m p w]
    by auto
qed

theorem pump_reads_witness:
  "feed E0 (scene_stream 3 ''a'') [1, 1, 0, 5, 6] (scene_world, scene_net) =
      Some (Loop_continue, scene_world\<lparr>spawned := spawned scene_world @ [T_send_in (scene_stream 3 ''a'') (Inr [5, 6])]\<rparr>, scene_net) \<and>
    (\<exists>s. feed E0 (scene_stream 3 ''a'') [1, 1, 0, 5] (scene_world, scene_net) = Some (Loop_continue, s) \<and>
       start_poll E0 (scene_stream 3 ''a'') (Poll_next True) s =
         start_poll E0 (scene_stream 3 ''a'') (Poll_next True) (scene_world, scene_net))"
proof -
  have l: "len_prefixed E0 [5, 6] = [1, 1, 0, 5, 6]" by (simp add: E0_def len_prefixed0_def)
  have "[1, 1, 0, 5] @ [6] = len_prefixed E0 [5, 6]" by (simp add: l)
  from pump_reads [OF E0_read_one _ this, of scene_net "scene_stream 3 ''a''" scene_world True] show ?thesis
    by (simp add: l READ_LIMIT_def scene_net_def)
qed

text \<open>
  C36: polled until it has nothing to do, a connection handler hands over every inbound substream,
  then every outbound one, in the order in which they came, then asks for one substream per dial.
\<close>

theorem handler_hands_over_all:
  "handler_drain h =
     map (\<lambda>s. Handler_Custom (RelayHandlerOutEvent_RelayInbound s)) (rh_inbound h) @
     map (\<lambda>s. Handler_Custom (RelayHandlerOutEvent_RelayOutbound s)) (rh_outbound h) @
     replicate (length (rh_events h)) Handler_OutboundSubstreamRequest"
  using handler_drain_all [of "rh_inbound h" "rh_outbound h" "rh_events h"] by (cases h) simp

text \<open>
  C35: the queues of the relay behaviour lose, duplicate and reorder nothing. Take any sequence of
  polls, new streams, events of connection handlers and disconnections. The events that the polls
  returned, followed by those still pending, are those that were pending before, followed by those
  that were raised, in the order in which they were; and so are the dials that were passed on to
  connection handlers. A poll returns nothing only when nothing is pending, and a dial only when no
  event is.
\<close>

theorem relay_queues_fifo:
  assumes "relay_run E ops (w, n) = (acts, w', n')"
  shows "generated acts @ rev (out_events n') = rev (out_events n) @ raised E (draws w) ops \<and>
    notified acts @ map notify_of (dive_events n') = map notify_of (dive_events n @ dialed ops) \<and>
    (relay_poll m = None \<longleftrightarrow> out_events m = [] \<and> dive_events m = []) \<and>
    (\<forall>p e m'. relay_poll m = Some (Action_NotifyHandler p e, m') \<longrightarrow> out_events m = [])"
  using relay_run_fifo [OF assms] by (auto simp: relay_poll_cases split: list.splits if_splits)

theorem relay_queues_fifo_witness:
  "\<exists>acts w' n'. relay_run E0 [Op_new_stream (PeerId [1]), Op_disconnected (PeerId [2]), Op_disconnected (PeerId [3]), Op_poll]
      (scene_world, scene_net) = (acts, w', n') \<and>
    generated acts @ rev (out_events n') = rev (out_events scene_net) @ [RelayEvent_Disconnect (PeerId [2]), RelayEvent_Disconnect (PeerId [3])] \<and>
    acts = [Action_GenerateEvent (RelayEvent_Disconnect (PeerId [2]))]"
proof -
  let ?ops = "[Op_new_stream (PeerId [1]), Op_disconnected (PeerId [2]), Op_disconnected (PeerId [3]), Op_poll]"
  obtain acts w' n' where r: "relay_run E0 ?ops (scene_world, scene_net) = (acts, w', n')" by (metis prod_cases3)
  moreover from r have "acts = [Action_GenerateEvent (RelayEvent_Disconnect (PeerId [2]))]"
    by (auto simp: scene_net_def new_stream_def inject_disconnected_def push_front_def push_back_def relay_poll_cases)
  ultimately show ?thesis using relay_queues_fifo [OF r, of scene_net] by auto
qed

section \<open>Substreams\<close>

text \<open>
  C40: a payload goes over the wire in the same relay message whether it is written to a substream or
  queued for a wrapped stream. When that message has at most 4096 bytes, both readers take the payload
  out again: the one that reads the bytes of a substream and the one that reads a wrapped stream,
  which skip the messages before it that carry no data; a loop that makes more rounds than there are
  such messages returns. When the message is longer, the reader of the substream panics.
\<close>

theorem substreams_agree:
  assumes "protos_ok E" and "alloc_exact E" and "read_one_ok E" and "p \<noteq> []" and "length p < 65536"
    and "\<not> ns_broken s" and "\<forall>m \<in> set ms. no_data E m \<and> length m \<le> 4096" and "length ms < k"
  shows "\<exists>bs w' w''.
    run (write_payload E s p (length p) sid) w = Done (s\<lparr>ns_written := ns_written s @ len_prefixed E bs\<rparr>) w' \<and>
    run (write_payload_arc E st p (length p) sid) w = Done () w'' \<and>
    out_chan w'' (ws_stream st) = out_chan w (ws_stream st) @ [WrapedData_Data bs] \<and>
    run (read_payload E (t\<lparr>ns_incoming := concat (map (len_prefixed E) ms) @ len_prefixed E bs @ q\<rparr>) k) v =
      (if length bs \<le> 4096 then Done (Some p, t\<lparr>ns_incoming := q\<rparr>) v else Panicked v) \<and>
    run (read_payload_arc E rt k) (v\<lparr>in_chan := (in_chan v)(ws_stream rt := map Inr ms @ Inr bs # q')\<rparr>) =
      Done (Some p) (v\<lparr>in_chan := (in_chan v)(ws_stream rt := q')\<rparr>)"
proof -
  let ?r = "relay_of Relaytype_Data (enc (c_relay_msg E) \<lparr>rm_session_id = sid, rm_data = frame16 p\<rparr>)"
  define m where "m = on_wire E (draws w) ?r"
  define bs where "bs = enc (c_relay E) m"
  have m: "dec (c_relay E) bs = Some m" "relay_type m = relaytype_i32 Relaytype_Data"
    "dec (c_relay_msg E) (relay_data m) = Some \<lparr>rm_session_id = sid, rm_data = frame16 p\<rparr>"
    using assms(1) by (simp_all add: bs_def m_def relay_of_def)
  have "unframe16 (frame16 p @ []) = Some p" using assms(5) by (rule u16.unframe_frame)
  then have pin: "run (payload_in E m) u = Done p u" for u
    by (simp add: payload_in_def m(3))
  have "run (write_payload E s p (length p) sid) w =
      Done (s\<lparr>ns_written := ns_written s @ len_prefixed E bs\<rparr>) (w\<lparr>draws := draws w + 3\<rparr>)"
    using assms(6) by (simp add: write_payload_def foldl_snoc frame16_def [symmetric] run_simps Let_def bs_def m_def)
  moreover have "run (write_payload_arc E st p (length p) sid) w = Done () (sent_relay E st ?r w)"
    using run_write_payload_arc [OF assms(2,4)] .
  moreover obtain j where j: "k - length ms = Suc j" using assms(8) by (metis Suc_diff_Suc)
  have "run (read_payload E (t\<lparr>ns_incoming := concat (map (len_prefixed E) ms) @ len_prefixed E bs @ q\<rparr>) k) v =
      (if length bs \<le> 4096 then Done (Some p, t\<lparr>ns_incoming := q\<rparr>) v else Panicked v)"
    using run_read_data [OF assms(3) m(1,2), where t = t and q = q and k = j] pin
    by (simp add: read_payload_def read_data_skip [OF assms(3,7,8)] j run_simps not_le del: read_data.simps)
  moreover have "run (read_payload_arc E rt k) (v\<lparr>in_chan := (in_chan v)(ws_stream rt := map Inr ms @ Inr bs # q')\<rparr>) =
      Done (Some p) (v\<lparr>in_chan := (in_chan v)(ws_stream rt := q')\<rparr>)"
    using run_read_data_arc [of ms E "v\<lparr>in_chan := (in_chan v)(ws_stream rt := map Inr ms @ Inr bs # q')\<rparr>" rt bs q' m k]
      m(1,2) assms(7,8) pin
    by (simp add: read_payload_arc_def run_simps)
  ultimately show ?thesis
    by (intro exI [of _ bs] exI [of _ "w\<lparr>draws := draws w + 3\<rparr>"] exI [of _ "sent_relay E st ?r w"])
      (simp add: out_chan_sent_relay bs_def m_def)
qed

definition scene_socket :: substream where
  "scene_socket = \<lparr>ns_incoming = [], ns_end = None, ns_written = [], ns_broken = False\<rparr>"

theorem substreams_agree_witness:
  "\<exists>bs w' w''.
    run (write_payload E0 scene_socket [5, 6] (length [5 :: byte, 6]) ''s1'') scene_world =
      Done (scene_socket\<lparr>ns_written := ns_written scene_socket @ len_prefixed E0 bs\<rparr>) w' \<and>
    run (write_payload_arc E0 (scene_stream 3 ''a'') [5, 6] (length [5 :: byte, 6]) ''s1'') scene_world = Done () w'' \<and>
    out_chan w'' (ws_stream (scene_stream 3 ''a'')) = out_chan scene_world (ws_stream (scene_stream 3 ''a'')) @ [WrapedData_Data bs] \<and>
    run (read_payload E0 (scene_socket\<lparr>ns_incoming := concat (map (len_prefixed E0)
        [enc (c_relay E0) (relay_of Relaytype_Wake [])]) @ len_prefixed E0 bs @ []\<rparr>) 2) scene_world =
      (if length bs \<le> 4096 then Done (Some [5, 6], scene_socket\<lparr>ns_incoming := []\<rparr>) scene_world else Panicked scene_world) \<and>
    run (read_payload_arc E0 (scene_stream 4 ''b'') 2) (scene_world\<lparr>in_chan := (in_chan scene_world)
        (ws_stream (scene_stream 4 ''b'') := map Inr [enc (c_relay E0) (relay_of Relaytype_Wake [])] @ Inr bs # [])\<rparr>) =
      Done (Some [5, 6]) (scene_world\<lparr>in_chan := (in_chan scene_world)(ws_stream (scene_stream 4 ''b'') := [])\<rparr>)"
  by (rule substreams_agree)
    (simp_all add: scene_socket_def no_data_def E0_relay_length, simp_all add: relay_of_def)

section \<open>Known peers\<close>

text \<open>
  C37: a node answers with the connected peers of its routing table, in table order, at most as many
  as asked for (none for a negative number), each with those of its addresses that do not name a
  peer.
\<close>

theorem known_peers:
  "get_kad_peers E n number =
     map (\<lambda>e. \<lparr>ni_id = to_base58 E (ke_peer e),
               ni_addr = filter (\<lambda>a. \<not> contains_str ''p2p'' a) (ke_addresses e)\<rparr>)
       (take (nat (sint number)) (filter ke_connected (concat (kbuckets n))))"
  unfolding get_kad_peers_eq by (simp add: kad_node_info_eq)

section \<open>New sessions of a client\<close>

text \<open>
  C26: a client is told of each session at most once. Whatever the loop sees in its rounds, the ids
  it adds to the queue are distinct, none of them was reported before, each had finished its
  handshake when the loop saw it, and all of them are remembered as reported.
\<close>

theorem sessions_reported_once:
  "\<exists>ids. new_connected_session (new_session_rounds obs cl) = new_connected_session cl @ ids \<and>
     distinct ids \<and> set ids \<inter> dom (exist_session cl) = {} \<and>
     dom (exist_session (new_session_rounds obs cl)) = dom (exist_session cl) \<union> set ids \<and>
     (\<forall>sid. sid \<in> set ids \<longrightarrow> seen_ready obs sid)"
  using new_session_rounds_report [of obs cl] unfolding reports_def by blast

theorem sessions_reported_once_witness:
  "\<exists>ids. new_connected_session (new_session_rounds [(1, [''s1''], [''s1'' \<mapsto> scene_conn])]
        \<lparr>cl_bootstrap_addr_str = '''', cl_bootstrap_peer_id = PeerId [], new_connected_session = [], exist_session = Map.empty\<rparr>)
      = [] @ ids \<and> distinct ids"
  using sessions_reported_once [of "[(1, [''s1''], [''s1'' \<mapsto> scene_conn])]"
    "\<lparr>cl_bootstrap_addr_str = '''', cl_bootstrap_peer_id = PeerId [], new_connected_session = [], exist_session = Map.empty\<rparr>"]
  by auto

text \<open>
  C27: when all circuits of a client have finished their handshakes, as many rounds as there are
  circuits report every one of them, in whatever order the map is iterated: the ids that the rounds
  add to the client's queue are the circuits that had not been reported before, each once.
\<close>

theorem sessions_all_reported:
  assumes "order \<noteq> []" and "set order = dom cm"
    and "\<forall>sid cc. cm sid = Some cc \<longrightarrow> cc_transport_state cc \<noteq> None"
  shows "\<exists>ids. new_connected_session (new_session_rounds (replicate (length order) (length order, order, cm)) cl) =
      new_connected_session cl @ ids \<and> distinct ids \<and> set ids = set order - dom (exist_session cl)"
proof -
  let ?obs = "replicate (length order) (length order, order, cm)"
  obtain ids where i: "reports ?obs cl (new_session_rounds ?obs cl) ids" using new_session_rounds_report by blast
  have "\<forall>sid \<in> set order. exist_session (new_session_rounds ?obs cl) sid \<noteq> None"
  proof (rule new_session_rounds_all)
    show "card {sid \<in> set order. exist_session cl sid = None} \<le> length order"
      by (metis (no_types, lifting) card_length card_mono finite_set le_trans mem_Collect_eq subsetI)
  qed (use assms in auto)
  then have "set order \<subseteq> dom (exist_session cl) \<union> set ids" using i by (auto simp: reports_def)
  moreover have "set ids \<subseteq> set order" using i assms(2) by (force simp: reports_def seen_ready_def)
  ultimately have "set ids = set order - dom (exist_session cl)" using i by (auto simp: reports_def)
  with i show ?thesis by (auto simp: reports_def)
qed

theorem sessions_all_reported_witness:
  "\<exists>ids. new_connected_session (new_session_rounds (replicate (length [''s1'']) (length [''s1''], [''s1''], [''s1'' \<mapsto> scene_conn]))
      \<lparr>cl_bootstrap_addr_str = '''', cl_bootstrap_peer_id = PeerId [], new_connected_session = [], exist_session = Map.empty\<rparr>) = [] @ ids \<and>
    distinct ids \<and> set ids = {''s1''}"
  using sessions_all_reported [of "[''s1'']" "[''s1'' \<mapsto> scene_conn]"
    "\<lparr>cl_bootstrap_addr_str = '''', cl_bootstrap_peer_id = PeerId [], new_connected_session = [], exist_session = Map.empty\<rparr>"]
  by (simp add: scene_conn_def)

section \<open>The account\<close>

text \<open>
  C33: the account is stable. The key pair that is made on the first start is stored, and every later
  start with the same kind of key, whatever the random numbers, finds it again; the other kind of
  key has an account of its own.
\<close>

theorem account_stable:
  assumes "keys_ok E" and "db (default_key t) = None"
  shows "\<exists>k db'. get_default_account_keypair E n db t = Some (k, db') \<and>
    get_default_account_keypair E m db' t = Some (k, db') \<and>
    (\<forall>t'. t' \<noteq> t \<longrightarrow> db' (default_key t') = db (default_key t'))"
proof -
  have "default_key t' = default_key t \<Longrightarrow> t' = t" for t' by (rule default_key_inj)
  with assms show ?thesis
    by (cases t) (auto simp: get_default_account_keypair_def generate_keypair_def keys_ok_def Let_def)
qed

theorem account_stable_witness:
  "\<exists>k db'. get_default_account_keypair E0 5 Map.empty ED25519 = Some (k, db') \<and>
    get_default_account_keypair E0 6 db' ED25519 = Some (k, db') \<and>
    (\<forall>t'. t' \<noteq> ED25519 \<longrightarrow> db' (default_key t') = Map.empty (default_key t'))"
  by (rule account_stable) (simp_all add: keys_ok_def E0_def)

text \<open>
  C38: the six masks applied to a secret amount to the usual clamping of an Ed25519 scalar: the low
  three bits of the first byte are cleared, the top bit of the last byte is cleared and the next one
  set; every other byte is kept.
\<close>

theorem scalar_clamped:
  assumes "length lower = 32"
  shows "clamp_scalar lower = lower[0 := lower ! 0 AND 248, 31 := (lower ! 31 AND 63) OR 64]"
  using assms by (rule clamp_scalar_eq)

theorem scalar_clamped_witness:
  "clamp_scalar (replicate 32 255) =
     (replicate 32 255)[0 := replicate 32 255 ! 0 AND 248, 31 := (replicate 32 255 ! 31 AND 63) OR 64]"
  by (rule scalar_clamped) simp

text \<open>
  C34: the hash under which a node files a client is, in base 58, the SHA2-256 digest of the client's
  encoded public key, for both kinds of keys. So nodes that know a client by its WhiteNoise id agree
  on it, and clients are filed apart just when the digests of their keys differ.
\<close>

theorem client_hash:
  assumes "base58_ok E" and "from_keypair_to_whitenoise_id E k = Some wid"
    and "from_keypair_to_whitenoise_id E k' = Some wid'"
  shows "from_whitenoise_to_hash E wid =
      Some (bs58_encode E (drop 2 (multihash_sha2_256 E (public_encode E k)))) \<and>
    (from_whitenoise_to_hash E wid = from_whitenoise_to_hash E wid' \<longleftrightarrow>
     drop 2 (multihash_sha2_256 E (public_encode E k)) = drop 2 (multihash_sha2_256 E (public_encode E k')))"
  using whitenoise_id_hash [OF assms(1,2)] whitenoise_id_hash [OF assms(1,3)] base58_ok_inj [OF assms(1)]
  by auto

theorem client_hash_witness:
  "from_whitenoise_to_hash E0 scene_wid =
      Some (bs58_encode E0 (drop 2 (multihash_sha2_256 E0 (public_encode E0 (KeyEd25519 [42]))))) \<and>
    (from_whitenoise_to_hash E0 scene_wid = from_whitenoise_to_hash E0 (''0'' @ bs58_encode E0 (public_encode E0 (KeyEd25519 [43]))) \<longleftrightarrow>
     drop 2 (multihash_sha2_256 E0 (public_encode E0 (KeyEd25519 [42]))) =
     drop 2 (multihash_sha2_256 E0 (public_encode E0 (KeyEd25519 [43]))))"
  by (rule client_hash [OF E0_base58 scene_wid_id]) (simp add: from_keypair_to_whitenoise_id_def)

end
