(* ===== verification/Handshake_Props.thy ===== *)
theory Handshake_Props
  imports Wire_Props
begin

text \<open>
  The Noise handshake that the two ends of a circuit run through it (\<open>process_handshake\<close> of
  \<open>network/relay_event_handler.rs\<close>): it completes on both ends with paired transport states. The
  check of the remote's identity does not decide anything.
\<close>

section \<open>What the handshake relies on\<close>

text \<open>
  \<open>snow\<close>, pattern XX: the three messages of the pattern, with any payloads that fit, are read by the
  other side, whose key is then known; afterwards each side can enter the transport phase, and the
  states are paired in both directions. A handshake message is not empty and has at most 65535 bytes;
  the second one has 96 bytes beside its payload and the third one 64.
\<close>

definition noise_xx :: "ext \<Rightarrow> (noise \<Rightarrow> noise \<Rightarrow> bool) \<Rightarrow> bool" where
  "noise_xx E R \<longleftrightarrow> (\<forall>n k m l p q. length p \<le> 65439 \<longrightarrow> length q \<le> 65471 \<longrightarrow>
     (\<exists>ia ib ic ra rb rc c d e si sr a b.
        noise_write_message E (noise_initiator E n k) [] = Some (ia, c) \<and>
        noise_read_message E (noise_responder E m l) c = Some (ra, []) \<and>
        noise_write_message E ra p = Some (rb, d) \<and> noise_read_message E ia d = Some (ib, p) \<and>
        noise_remote_static E ib = Some sr \<and>
        noise_write_message E ib q = Some (ic, e) \<and> noise_read_message E rb e = Some (rc, q) \<and>
        noise_remote_static E rc = Some si \<and>
        noise_into_transport E ic = Some a \<and> noise_into_transport E rc = Some b \<and> R a b \<and> R b a \<and>
        (\<forall>x \<in> {c, d, e}. x \<noteq> [] \<and> length x \<le> 65535)))"

text \<open>\<open>libp2p\<close>: an encoded public key decodes; verification then has a result, true or false.\<close>

definition identity_keys_decode :: "ext \<Rightarrow> bool" where
  "identity_keys_decode E \<longleftrightarrow> (\<forall>n k msg sig. verify_signature E (noise_identity_key E n k) msg sig \<noteq> None)"

section \<open>The stages\<close>

text \<open>The rest of each side, from the point where it waits for a message.\<close>

definition initiate_rest :: "ext \<Rightarrow> circuit_conn \<Rightarrow> string \<Rightarrow> nat \<Rightarrow> keypair \<Rightarrow> noise \<Rightarrow> unit async" where
  "initiate_rest E cc sid n keypair noise =
     bind (conn_recv (cc_in_channel cc)) (\<lambda>data.
     bind (unwrap (handle_read_shake E data noise)) (\<lambda>(noise, remote_payload).
     bind (unwrap (noise_remote_static E noise)) (\<lambda>pubkey.
     bind (unwrap (handle_remote_handshake_payload E remote_payload pubkey)) (\<lambda>verify_success.
     let payload = generate_handshake_payload E n keypair in
     bind (unwrap (noise_write_into E 65535 payload noise)) (\<lambda>(noise, msg).
     bind (write_handshake_payload_arc E (cc_out_stream cc) msg (length msg) sid) (\<lambda>_.
     bind (unwrap (noise_into_transport E noise)) (\<lambda>transport.
     bind (new_transport transport) (\<lambda>h.
     modify (put_circuit sid (cc\<lparr>cc_transport_state := Some h\<rparr>))))))))))"

definition respond_rest :: "ext \<Rightarrow> circuit_conn \<Rightarrow> string \<Rightarrow> noise \<Rightarrow> unit async" where
  "respond_rest E cc sid noise =
     bind (conn_recv (cc_in_channel cc)) (\<lambda>data.
     bind (unwrap (handle_read_shake E data noise)) (\<lambda>(noise, remote_payload).
     bind (unwrap (noise_remote_static E noise)) (\<lambda>pubkey.
     bind (unwrap (handle_remote_handshake_payload E remote_payload pubkey)) (\<lambda>verify_success.
     bind (unwrap (noise_into_transport E noise)) (\<lambda>transport.
     bind (new_transport transport) (\<lambda>h.
     modify (put_circuit sid (cc\<lparr>cc_transport_state := Some h\<rparr>))))))))"

text \<open>A connection after its handshake: stored, with a transport state that holds \<open>ns\<close>.\<close>

definition connected :: "string \<Rightarrow> circuit_conn \<Rightarrow> noise \<Rightarrow> world \<Rightarrow> bool" where
  "connected sid cc ns w \<longleftrightarrow>
     (\<exists>h. circuit_map w sid = Some (cc\<lparr>cc_transport_state := Some h\<rparr>) \<and> transports w h = Some ns)"

text \<open>One relay message with the payload \<open>f\<close> was queued on the stream of \<open>cc\<close> and nothing elsewhere.\<close>

definition queued_payload :: "ext \<Rightarrow> circuit_conn \<Rightarrow> bytes \<Rightarrow> world \<Rightarrow> world \<Rightarrow> bool" where
  "queued_payload E cc f w w' \<longleftrightarrow> (\<exists>d. payload_of E d = Some f \<and>
     out_chan w' = (out_chan w)(ws_stream (cc_out_stream cc) := out_chan w (ws_stream (cc_out_stream cc)) @ [d]))"

lemma handle_read_shake_frame [simp]:
  assumes "length c \<le> 65535" and "noise_read_message E ns c = Some (ns', p)" and "length p \<le> 65535"
  shows "handle_read_shake E (frame16 c) ns = Some (ns', p)"
proof -
  have "unframe16 (frame16 c @ []) = Some c" using assms(1) by (intro u16.unframe_frame) simp
  with assms show ?thesis by (simp add: handle_read_shake_def noise_read_into_def)
qed

lemma run_write_handshake:
  assumes "protos_ok E" and "alloc_exact E" and "c \<noteq> []"
  shows "\<exists>w'. run (write_handshake_payload_arc E (cc_out_stream cc) c (length c) sid) w = Done () w' \<and>
    queued_payload E cc (frame16 c) w w' \<and> conn_chan w' = conn_chan w \<and> circuit_map w' = circuit_map w \<and>
    transports w' = transports w \<and> next_handle w' = next_handle w"
proof -
  let ?r = "relay_of Relaytype_Data (enc (c_relay_msg E) \<lparr>rm_session_id = sid, rm_data = frame16 c\<rparr>)"
  have "payload_of E (WrapedData_Data (enc (c_relay E) (on_wire E (draws w) ?r))) = Some (frame16 c)"
    using assms(1) by (simp add: relay_of_def)
  then show ?thesis using assms(2,3)
    by (auto simp: write_handshake_payload_arc_def run_write_payload_arc queued_payload_def
        out_chan_sent_relay fun_eq_iff)
qed

lemma run_initiate:
  assumes "protos_ok E" and "alloc_exact E" and "conn_chan w (cc_in_channel cc) = []"
    and "noise_write_message E (noise_initiator E (draws w) (node_keypair w)) [] = Some (i, c)"
    and "c \<noteq> []" and "length c \<le> 65535"
  shows "\<exists>w'. run (handshake_initiate E cc sid) w =
      Blocked (initiate_rest E cc sid (draws w) (node_keypair w) i) w' \<and> queued_payload E cc (frame16 c) w w'"
proof -
  obtain w' where w': "run (write_handshake_payload_arc E (cc_out_stream cc) c (length c) sid) (w\<lparr>draws := Suc (draws w)\<rparr>) = Done () w'"
    "queued_payload E cc (frame16 c) (w\<lparr>draws := Suc (draws w)\<rparr>) w'" "conn_chan w' = conn_chan w"
    using run_write_handshake [OF assms(1,2,5), of cc sid "w\<lparr>draws := Suc (draws w)\<rparr>"] by auto
  with assms(3-) show ?thesis
    by (simp add: handshake_initiate_def initiate_rest_def Let_def run_simps draw_def noise_write_into_def
        conn_recv_def queued_payload_def)
qed

lemma run_respond:
  assumes "protos_ok E" and "alloc_exact E" and "conn_chan w (cc_in_channel cc) = frame16 c # cs"
    and "noise_read_message E (noise_responder E (draws w) (node_keypair w)) c = Some (r, p)"
    and "length c \<le> 65535" and "length p \<le> 65535"
    and "noise_write_message E r (generate_handshake_payload E (draws w) (node_keypair w)) = Some (r', d)"
    and "d \<noteq> []" and "length d \<le> 65535"
  shows "\<exists>w'. run (handshake_respond E cc sid) w = run (respond_rest E cc sid r') w' \<and>
    queued_payload E cc (frame16 d) w w' \<and> conn_chan w' (cc_in_channel cc) = cs"
proof -
  let ?w = "w\<lparr>draws := Suc (draws w), conn_chan := (conn_chan w)(cc_in_channel cc := cs)\<rparr>"
  obtain w' where w': "run (write_handshake_payload_arc E (cc_out_stream cc) d (length d) sid) ?w = Done () w'"
    "queued_payload E cc (frame16 d) ?w w'" "conn_chan w' = conn_chan ?w"
    using run_write_handshake [OF assms(1,2,8), of cc sid ?w] by blast
  have "handle_read_shake E (frame16 c) (noise_responder E (draws w) (node_keypair w)) = Some (r, p)"
    using assms(4-6) by simp
  with assms(3,7-) w' have "run (handshake_respond E cc sid) w = run (respond_rest E cc sid r') w'"
    by (simp add: handshake_respond_def respond_rest_def Let_def run_simps draw_def noise_write_into_def
        conn_recv_def)
  with w'(2,3) show ?thesis by (auto simp: queued_payload_def)
qed

lemma respond_rest_waits:
  "conn_chan w (cc_in_channel cc) = [] \<Longrightarrow> run (respond_rest E cc sid r) w = Blocked (respond_rest E cc sid r) w"
  by (simp add: respond_rest_def run_simps conn_recv_def)

lemma run_initiate_rest:
  assumes "protos_ok E" and "alloc_exact E" and "conn_chan v (cc_in_channel cc) = frame16 d # ds"
    and "noise_read_message E i d = Some (i', p)" and "length d \<le> 65535" and "length p \<le> 65535"
    and "noise_remote_static E i' = Some sr" and "handle_remote_handshake_payload E p sr = Some verified"
    and "noise_write_message E i' (generate_handshake_payload E n k) = Some (i'', e)"
    and "e \<noteq> []" and "length e \<le> 65535" and "noise_into_transport E i'' = Some a"
  shows "\<exists>v'. run (initiate_rest E cc sid n k i) v = Done () v' \<and> queued_payload E cc (frame16 e) v v' \<and>
    connected sid cc a v'"
proof -
  let ?v = "v\<lparr>conn_chan := (conn_chan v)(cc_in_channel cc := ds)\<rparr>"
  obtain v' where "run (write_handshake_payload_arc E (cc_out_stream cc) e (length e) sid) ?v = Done () v'"
    "queued_payload E cc (frame16 e) ?v v'"
    using run_write_handshake [OF assms(1,2,10), of cc sid ?v] by blast
  moreover have "handle_read_shake E (frame16 d) i = Some (i', p)" using assms(4-6) by simp
  ultimately show ?thesis using assms(3,7-)
    by (simp add: initiate_rest_def Let_def run_simps noise_write_into_def conn_recv_def queued_payload_def
        new_transport_def connected_def put_circuit_def, blast)
qed

lemma run_respond_rest:
  assumes "conn_chan v (cc_in_channel cc) = frame16 e # es"
    and "noise_read_message E r e = Some (r', q)" and "length e \<le> 65535" and "length q \<le> 65535"
    and "noise_remote_static E r' = Some si" and "handle_remote_handshake_payload E q si = Some verified"
    and "noise_into_transport E r' = Some b"
  shows "\<exists>v'. run (respond_rest E cc sid r) v = Done () v' \<and> out_chan v' = out_chan v \<and> connected sid cc b v'"
proof -
  have "handle_read_shake E (frame16 e) r = Some (r', q)" using assms(2-4) by simp
  then show ?thesis using assms(1,5-)
    by (simp add: respond_rest_def Let_def run_simps conn_recv_def new_transport_def connected_def put_circuit_def, blast)
qed

section \<open>The whole handshake\<close>

lemma remote_payload_verified:
  assumes "protos_ok E" and "identity_keys_decode E"
  shows "\<exists>verified. handle_remote_handshake_payload E (generate_handshake_payload E n k) s = Some verified"
  using assms unfolding identity_keys_decode_def
  by (auto simp: handle_remote_handshake_payload_def generate_handshake_payload_def)

text \<open>
  C2: the handshake completes on both ends of a circuit. The caller sends its first message and
  waits; the answerer, given that message, sends the second one and waits; the caller, given the
  second message, sends the third one and stores its connection with a transport state; the answerer,
  given the third one, does the same. The two states are paired in both directions. Whatever other
  tasks do to the two nodes while the ends wait does not matter.
\<close>

theorem handshake_completes:
  assumes "protos_ok E" and "alloc_exact E" and "noise_xx E R" and "identity_keys_decode E"
    and "conn_chan wa (cc_in_channel cca) = []" and "conn_chan wb (cc_in_channel ccb) = []"
    and "length (generate_handshake_payload E (draws wa) (node_keypair wa)) \<le> 65471"
    and "length (generate_handshake_payload E (draws wb) (node_keypair wb)) \<le> 65439"
  shows "\<exists>resta wa' fa. run (process_handshake E cca True sid) wa = Blocked resta wa' \<and> queued_payload E cca fa wa wa' \<and>
    (\<exists>restb wb' fb. run (process_handshake E ccb False sid) (conn_push (cc_in_channel ccb) fa wb) = Blocked restb wb' \<and>
       queued_payload E ccb fb wb wb' \<and>
    (\<exists>fc a b. R a b \<and> R b a \<and>
       (\<forall>va ds. conn_chan va (cc_in_channel cca) = fb # ds \<longrightarrow>
          (\<exists>va'. run resta va = Done () va' \<and> queued_payload E cca fc va va' \<and> connected sid cca a va')) \<and>
       (\<forall>vb ds. conn_chan vb (cc_in_channel ccb) = fc # ds \<longrightarrow>
          (\<exists>vb'. run restb vb = Done () vb' \<and> out_chan vb' = out_chan vb \<and> connected sid ccb b vb'))))"
proof -
  let ?na = "draws wa" and ?ka = "node_keypair wa" and ?nb = "draws wb" and ?kb = "node_keypair wb"
  let ?pa = "generate_handshake_payload E ?na ?ka" and ?pb = "generate_handshake_payload E ?nb ?kb"
  obtain ia ib ic ra rb rc c d e si sr a b where
    one: "noise_write_message E (noise_initiator E ?na ?ka) [] = Some (ia, c)"
      "noise_read_message E (noise_responder E ?nb ?kb) c = Some (ra, [])" and
    two: "noise_write_message E ra ?pb = Some (rb, d)" "noise_read_message E ia d = Some (ib, ?pb)"
      "noise_remote_static E ib = Some sr" and
    three: "noise_write_message E ib ?pa = Some (ic, e)" "noise_read_message E rb e = Some (rc, ?pa)"
      "noise_remote_static E rc = Some si" and
    tr: "noise_into_transport E ic = Some a" "noise_into_transport E rc = Some b" "R a b" "R b a" and
    ln: "c \<noteq> []" "length c \<le> 65535" "d \<noteq> []" "length d \<le> 65535" "e \<noteq> []" "length e \<le> 65535"
    using assms(3) [unfolded noise_xx_def, rule_format, OF assms(8,7), of ?na ?ka ?nb ?kb] by auto
  obtain wa' where wa': "run (handshake_initiate E cca sid) wa = Blocked (initiate_rest E cca sid ?na ?ka ia) wa'"
    "queued_payload E cca (frame16 c) wa wa'"
    using run_initiate [OF assms(1,2,5) one(1) ln(1,2)] by blast
  let ?wb = "conn_push (cc_in_channel ccb) (frame16 c) wb"
  obtain wb' where wb': "run (handshake_respond E ccb sid) ?wb = Blocked (respond_rest E ccb sid rb) wb'"
    "queued_payload E ccb (frame16 d) ?wb wb'"
    using run_respond [OF assms(1,2), of ?wb ccb c "[]" ra "[]" rb d sid] assms(6) one(2) two(1) ln
    by (auto simp: conn_push_def respond_rest_waits)
  obtain va vb where v: "handle_remote_handshake_payload E ?pb sr = Some va"
    "handle_remote_handshake_payload E ?pa si = Some vb"
    using remote_payload_verified [OF assms(1,4)] by meson
  have "length ?pb \<le> 65535" "length ?pa \<le> 65535" using assms(7,8) by simp_all
  with run_initiate_rest [OF assms(1,2) _ two(2) ln(4) _ two(3) v(1) three(1) ln(5,6) tr(1)]
    run_respond_rest [OF _ three(2) ln(6) _ three(3) v(2) tr(2)]
  have "\<forall>va ds. conn_chan va (cc_in_channel cca) = frame16 d # ds \<longrightarrow>
      (\<exists>va'. run (initiate_rest E cca sid ?na ?ka ia) va = Done () va' \<and> queued_payload E cca (frame16 e) va va' \<and>
        connected sid cca a va')"
    "\<forall>vb ds. conn_chan vb (cc_in_channel ccb) = frame16 e # ds \<longrightarrow>
      (\<exists>vb'. run (respond_rest E ccb sid rb) vb = Done () vb' \<and> out_chan vb' = out_chan vb \<and> connected sid ccb b vb')"
    by blast+
  moreover have "queued_payload E ccb (frame16 d) wb wb'"
    using wb'(2) by (simp add: queued_payload_def conn_push_def)
  ultimately show ?thesis
    using wa' wb'(1) tr(3,4) by (simp add: process_handshake_def) blast
qed

lemma E0_noise_xx: "noise_xx E0 (\<lambda>_ _. True)"
  unfolding noise_xx_def by (simp add: E0_def)

lemma E0_identity_keys: "identity_keys_decode E0"
  by (simp add: identity_keys_decode_def E0_def)

lemma E0_handshake_payload: "length (generate_handshake_payload E0 n k) \<le> 100"
  by (simp add: generate_handshake_payload_def E0_def codec_of_def s_handshake_def s_iso_def s_pair_def s_list_def
      s_byte_def)

theorem handshake_completes_witness:
  "\<exists>resta wa' fa. run (process_handshake E0 scene_conn True ''s1'') scene_world = Blocked resta wa' \<and>
    queued_payload E0 scene_conn fa scene_world wa' \<and>
    (\<exists>restb wb' fb. run (process_handshake E0 scene_conn False ''s1'') (conn_push (cc_in_channel scene_conn) fa scene_world)
        = Blocked restb wb' \<and> queued_payload E0 scene_conn fb scene_world wb' \<and>
    (\<exists>fc a b. True \<and> True \<and>
       (\<forall>va ds. conn_chan va (cc_in_channel scene_conn) = fb # ds \<longrightarrow>
          (\<exists>va'. run resta va = Done () va' \<and> queued_payload E0 scene_conn fc va va' \<and> connected ''s1'' scene_conn a va')) \<and>
       (\<forall>vb ds. conn_chan vb (cc_in_channel scene_conn) = fc # ds \<longrightarrow>
          (\<exists>vb'. run restb vb = Done () vb' \<and> out_chan vb' = out_chan vb \<and> connected ''s1'' scene_conn b vb'))))"
proof (rule handshake_completes [OF _ _ E0_noise_xx E0_identity_keys])
  show "length (generate_handshake_payload E0 (draws scene_world) (node_keypair scene_world)) \<le> 65471"
    "length (generate_handshake_payload E0 (draws scene_world) (node_keypair scene_world)) \<le> 65439"
    using E0_handshake_payload [of "draws scene_world" "node_keypair scene_world"] by simp_all
qed (simp_all add: scene_defs)

text \<open>
  C31: the handshake accepts every identity. An answerer that is sent the two messages of a caller
  stores its connection with the transport state that the second one leads to, although the identity
  in it is not the caller's: the signature that the second message carries does not verify.
\<close>

theorem unverified_identity_accepted:
  assumes "protos_ok E" and "alloc_exact E"
    and "conn_chan w (cc_in_channel cc) = [frame16 c, frame16 e]" and "length c \<le> 65535" and "length e \<le> 65535"
    and "noise_read_message E (noise_responder E (draws w) (node_keypair w)) c = Some (ra, [])"
    and "noise_write_message E ra (generate_handshake_payload E (draws w) (node_keypair w)) = Some (rb, d)"
    and "d \<noteq> []" and "length d \<le> 65535"
    and "noise_read_message E rb e = Some (rc, enc (c_handshake E) forged)"
    and "length (enc (c_handshake E) forged) \<le> 65535"
    and "noise_remote_static E rc = Some si" and "noise_into_transport E rc = Some b"
    and "verify_signature E (nh_identity_key forged) (as_bytes ''noise-libp2p-static-key:'' @ si) (nh_identity_sig forged) = Some False"
  shows "\<exists>w'. run (process_handshake E cc False sid) w = Done () w' \<and> connected sid cc b w'"
proof -
  have f: "handle_remote_handshake_payload E (enc (c_handshake E) forged) si = Some False"
    using assms(1,14) by (simp add: handle_remote_handshake_payload_def)
  obtain v where v: "run (handshake_respond E cc sid) w = run (respond_rest E cc sid rb) v"
    "conn_chan v (cc_in_channel cc) = [frame16 e]"
    using run_respond [OF assms(1-3,6,4) _ assms(7-9)] by auto
  from run_respond_rest [OF v(2) assms(10,5,11,12) f assms(13)] v(1) show ?thesis
    by (auto simp: process_handshake_def)
qed

definition scene_forged :: noise_handshake_payload where
  "scene_forged = \<lparr>nh_identity_key = [1], nh_identity_sig = [6], nh_data = []\<rparr>"

lemma scene_forged_short: "length (enc (c_handshake E0) scene_forged) \<le> 100"
  by (simp add: scene_forged_def E0_def codec_of_def s_handshake_def s_iso_def s_pair_def s_list_def s_byte_def)

lemma E0_noise_simps:
  "noise_read_message E0 (Noise k) (7 # p) = Some (Noise k, p)" "noise_responder E0 n kp = Noise [1]"
  "noise_remote_static E0 ns = Some [3]" "noise_into_transport E0 ns = Some ns"
  "verify_signature E0 key msg sig = Some (sig = [5])"
  by (simp_all add: E0_def)

theorem unverified_identity_accepted_witness:
  "\<exists>w'. run (process_handshake E0 scene_conn False ''s1'')
      (scene_world\<lparr>conn_chan := (\<lambda>_. [frame16 [7], frame16 (7 # enc (c_handshake E0) scene_forged)])\<rparr>) = Done () w' \<and>
    connected ''s1'' scene_conn (Noise [1]) w'"
proof (rule unverified_identity_accepted [where c = "[7]" and e = "7 # enc (c_handshake E0) scene_forged"
      and ra = "Noise [1]" and rb = "Noise [1]" and rc = "Noise [1]" and si = "[3]" and forged = scene_forged])
  let ?p = "generate_handshake_payload E0 (draws (scene_world\<lparr>conn_chan := (\<lambda>_. [frame16 [7], frame16 (7 # enc (c_handshake E0) scene_forged)])\<rparr>))
     (node_keypair (scene_world\<lparr>conn_chan := (\<lambda>_. [frame16 [7], frame16 (7 # enc (c_handshake E0) scene_forged)])\<rparr>))"
  have p: "length ?p \<le> 100" by (rule E0_handshake_payload)
  then show "noise_write_message E0 (Noise [1]) ?p = Some (Noise [1], 7 # ?p)" "length (7 # ?p) \<le> 65535"
    by (simp_all add: E0_def)
  show "length (7 # enc (c_handshake E0) scene_forged) \<le> 65535" "length (enc (c_handshake E0) scene_forged) \<le> 65535"
    using scene_forged_short by simp_all
qed (simp_all add: E0_noise_simps, simp add: scene_forged_def)

end
