(* ===== verification/Client_Props.thy ===== *)
theory Client_Props
  imports Handshake_Props
begin

text \<open>
  What a client and its circuit experience end to end: registration with a proxy, dialing, the
  extension of a session by a relay node, and the message that starts the handshake.
\<close>

section \<open>Registration\<close>

lemma run_register_proxy:
  assumes "request_loop_alive w" and "fresh_handles w"
    and "from_keypair_to_whitenoise_id E (node_keypair w) = Some wid"
  shows "\<exists>prog w1 r. run (register_proxy E p) w = Blocked prog w1 \<and>
    node_request_sender w1 = node_request_sender w @ [to_proxy p r] \<and> rq_reqtype r = reqtype_i32 Reqtype_NewProxy \<and>
    rq_data r = enc (c_new_proxy E) \<lparr>np_time = ''60m'', np_white_noise_id = wid\<rparr> \<and>
    event_bus w1 (rq_req_id r) = Some (next_handle w) \<and> proxy_id w1 = proxy_id w \<and>
    (\<forall>w2 a. oneshots w2 (next_handle w) = Oneshot_Sent (Oneshot_Ack a) \<longrightarrow>
       run prog w2 = Done (ack_result a) (if ack_result a then w2\<lparr>proxy_id := Some p\<rparr> else w2))"
proof -
  let ?r = "with_req_id E \<lparr>rq_req_id = '''', rq_from = to_base58 E (into_peer_id E (node_keypair w)),
            rq_reqtype = reqtype_i32 Reqtype_NewProxy,
            rq_data = enc (c_new_proxy E) \<lparr>np_time = ''60m'', np_white_noise_id = wid\<rparr>\<rparr>"
  obtain w1 where w1: "run (external_send_node_request_and_wait (rq_req_id ?r) (to_proxy p ?r)) w =
      Blocked (bind (recv_ack (next_handle w)) unwrap) w1"
    "node_request_sender w1 = node_request_sender w @ [to_proxy p ?r]"
    "event_bus w1 = (event_bus w)(rq_req_id ?r \<mapsto> next_handle w)" "proxy_id w1 = proxy_id w"
    using run_send_and_wait [OF assms(1,2), of "rq_req_id ?r" "to_proxy p ?r"] by blast
  let ?prog = "bind (bind (recv_ack (next_handle w)) unwrap) (\<lambda>data. if ack_result data
     then bind (modify (\<lambda>w. w\<lparr>proxy_id := Some p\<rparr>)) (\<lambda>_. Ret True) else Ret False)"
  have "run (register_proxy E p) w = Blocked ?prog w1"
    using assms(3) w1(1) by (simp add: register_proxy_def run_simps Let_def)
  with w1(2-) show ?thesis
    by (intro exI [of _ ?prog] exI [of _ w1] exI [of _ ?r])
      (auto simp: with_req_id_def run_simps run_recv_ack)
qed

text \<open>
  C15: registration works end to end. The client queues a request for the proxy and waits. The proxy
  answers it; the answer, delivered to the client, ends the call: with \<open>true\<close>, and the proxy
  remembered, just when the proxy did not know the client yet. In both cases the proxy knows the
  client afterwards.
\<close>

theorem registration_works:
  assumes "protos_ok E"
    and client: "request_loop_alive wa" "fresh_handles wa"
      "from_keypair_to_whitenoise_id E (node_keypair wa) = Some wid"
    and proxy: "request_loop_alive wb" "from_whitenoise_to_hash E wid = Some hash"
  shows "\<exists>prog wa1 r wb1 a wa2 wa3. run (register_proxy E p) wa = Blocked prog wa1 \<and>
    node_request_sender wa1 = node_request_sender wa @ [to_proxy p r] \<and>
    run (handle_proxy_request E r q) wb = Done () wb1 \<and> client_wn_map wb1 hash \<noteq> None \<and>
    node_request_sender wb1 = node_request_sender wb @
      [NodeRequest_AckRequest \<lparr>nar_remote_peer_id = q, nar_ack_request = Some a\<rparr>] \<and>
    inject_ack_event (ack_event p a) wa1 = Some wa2 \<and>
    run prog wa2 = Done (client_wn_map wb hash = None) wa3 \<and>
    proxy_id wa3 = (if client_wn_map wb hash = None then Some p else proxy_id wa)"
proof -
  obtain prog wa1 r where c: "run (register_proxy E p) wa = Blocked prog wa1"
    "node_request_sender wa1 = node_request_sender wa @ [to_proxy p r]" "rq_reqtype r = reqtype_i32 Reqtype_NewProxy"
    "rq_data r = enc (c_new_proxy E) \<lparr>np_time = ''60m'', np_white_noise_id = wid\<rparr>"
    "event_bus wa1 (rq_req_id r) = Some (next_handle wa)" "proxy_id wa1 = proxy_id wa"
    "\<And>w2 a. oneshots w2 (next_handle wa) = Oneshot_Sent (Oneshot_Ack a) \<Longrightarrow>
       run prog w2 = Done (ack_result a) (if ack_result a then w2\<lparr>proxy_id := Some p\<rparr> else w2)"
    using run_register_proxy [OF client, of p] by blast
  define new where "new = (client_wn_map wb hash = None)"
  define a where "a = \<lparr>ack_command_id = rq_req_id r, ack_result = new,
    ack_data = if new then [] else as_bytes ''Proxy already''\<rparr>"
  have np: "dec (c_new_proxy E) (rq_data r) = Some \<lparr>np_time = ''60m'', np_white_noise_id = wid\<rparr>"
    using assms(1) c(4) by simp
  have dispatch: "handle_proxy_request E r q = handle_new_proxy E r q"
    using c(3) by (simp add: handle_proxy_request_def)
  have "\<exists>wb1. run (handle_proxy_request E r q) wb = Done () wb1 \<and> client_wn_map wb1 hash \<noteq> None \<and>
    node_request_sender wb1 = node_request_sender wb @
      [NodeRequest_AckRequest \<lparr>nar_remote_peer_id = q, nar_ack_request = Some a\<rparr>]"
    unfolding dispatch using proxy(2)
    by (simp add: run_handle_new_proxy [OF np proxy(1)] ack_to_def registered_def a_def new_def)
  then obtain wb1 where wb1: "run (handle_proxy_request E r q) wb = Done () wb1" "client_wn_map wb1 hash \<noteq> None"
    "node_request_sender wb1 = node_request_sender wb @
      [NodeRequest_AckRequest \<lparr>nar_remote_peer_id = q, nar_ack_request = Some a\<rparr>]" by blast
  define wa2 where "wa2 = oneshot_send (next_handle wa) (Oneshot_Ack a) (wa1\<lparr>event_bus := (event_bus wa1)(rq_req_id r := None)\<rparr>)"
  have wa2: "inject_ack_event (ack_event p a) wa1 = Some wa2" "proxy_id wa2 = proxy_id wa1"
    "oneshots wa2 (next_handle wa) = Oneshot_Sent (Oneshot_Ack a)"
    using c(5) by (simp_all add: inject_ack_event_def Let_def oneshot_send_def wa2_def a_def)
  have "ack_result a = new" by (simp add: a_def)
  then have "run prog wa2 = Done new (if new then wa2\<lparr>proxy_id := Some p\<rparr> else wa2)"
    using c(7) [OF wa2(3)] by simp
  then have "\<exists>wa3. run prog wa2 = Done new wa3 \<and> proxy_id wa3 = (if new then Some p else proxy_id wa)"
    using c(6) wa2(2) by simp
  then show ?thesis using c(1,2) wb1 wa2(1) unfolding new_def by blast
qed

theorem registration_works_witness:
  "\<exists>prog wa1 r wb1 a wa2 wa3. run (register_proxy E0 (PeerId [9])) (scene_world\<lparr>node_keypair := KeyEd25519 [42]\<rparr>) = Blocked prog wa1 \<and>
    node_request_sender wa1 = node_request_sender (scene_world\<lparr>node_keypair := KeyEd25519 [42]\<rparr>) @ [to_proxy (PeerId [9]) r] \<and>
    run (handle_proxy_request E0 r (PeerId [42])) scene_world = Done () wb1 \<and> client_wn_map wb1 (hex_enc (pad32 [1, 42])) \<noteq> None \<and>
    node_request_sender wb1 = node_request_sender scene_world @
      [NodeRequest_AckRequest \<lparr>nar_remote_peer_id = PeerId [42], nar_ack_request = Some a\<rparr>] \<and>
    inject_ack_event (ack_event (PeerId [9]) a) wa1 = Some wa2 \<and>
    run prog wa2 = Done (client_wn_map scene_world (hex_enc (pad32 [1, 42])) = None) wa3 \<and>
    proxy_id wa3 = (if client_wn_map scene_world (hex_enc (pad32 [1, 42])) = None then Some (PeerId [9])
      else proxy_id (scene_world\<lparr>node_keypair := KeyEd25519 [42]\<rparr>))"
proof (rule registration_works [where wid = scene_wid])
  show "from_whitenoise_to_hash E0 scene_wid = Some (hex_enc (pad32 [1, 42]))"
    using whitenoise_id_hash [OF E0_base58 scene_wid_id] by (simp add: E0_def)
qed (simp_all add: scene_wid_id, simp_all add: scene_world_def initial_world_def fresh_handles_def)

section \<open>Starting the handshake\<close>

definition success_relay :: "ext \<Rightarrow> string \<Rightarrow> relay \<Rightarrow> bool" where
  "success_relay E sid r \<longleftrightarrow> relay_type r = relaytype_i32 Relaytype_Success \<and>
     dec (c_success E) (relay_data r) = Some \<lparr>cs_session_id = sid\<rparr>"

lemma success_relay_on_wire [simp]: "success_relay E sid (on_wire E n r) = success_relay E sid r"
  by (simp add: success_relay_def)

lemma run_success_forwarder:
  assumes "protos_ok E" and "success_relay E sid r" and f: "forwards sid st other w"
  shows "run (relay_event_handler E st sid_opt) (receive st (enc (c_relay E) r) w) =
    Done (Some (T_relay_event_handler st sid_opt))
      (sent_relay E other r (w\<lparr>in_chan := (in_chan w)(ws_stream st := [])\<rparr>))"
proof -
  obtain s where s: "session_map w sid = Some s" "\<not> poisoned w Lock_session_map"
    "ses_role s \<noteq> session_role_i32 AnswerRole" "ses_role s \<noteq> session_role_i32 CallerRole"
    using f by (auto simp: forwards_def split: option.splits)
  then show ?thesis
    using assms forward_relay_forwards [OF f s(1)]
    by (simp add: relay_event_handler_def read_from_negotiated_arc_def receive_def run_simps Let_def
        handle_success_def success_relay_def)
qed

lemma relay_chain_success:
  assumes "protos_ok E" and "\<forall>(w, st, other) \<in> set hops. forwards sid st other w" and "success_relay E sid r"
  shows "\<exists>r'. relay_chain E sid hops (enc (c_relay E) r) = Some (enc (c_relay E) r') \<and> success_relay E sid r'"
  using assms(2,3)
proof (induction hops arbitrary: r)
  case (Cons hop hops)
  obtain w st other where hop: "hop = (w, st, other)" by (cases hop)
  with Cons.prems have f: "forwards sid st other w" by simp
  from Cons.IH [of "on_wire E (draws w) r"] Cons.prems show ?case
    by (simp add: hop run_success_forwarder [OF assms(1) Cons.prems(2) f] out_chan_sent_relay)
qed auto

lemma run_success_endpoint:
  assumes "protos_ok E" and "success_relay E sid r" and "delivers sid cc w" and "session_map w sid = Some s"
  shows "run (relay_event_handler E st sid_opt) (receive st (enc (c_relay E) r) w) =
    Done (Some (T_relay_event_handler st sid_opt)) (w\<lparr>in_chan := (in_chan w)(ws_stream st := []),
      spawned := spawned w @ [T_process_handshake cc (ses_role s = session_role_i32 CallerRole) sid]\<rparr>)"
  using assms
  by (auto simp: relay_event_handler_def read_from_negotiated_arc_def receive_def run_simps Let_def
      handle_success_def success_relay_def delivers_def)

text \<open>
  C14: the announcement that a circuit is complete starts the handshake at its ends. What the sink
  sends on one of its streams passes through any number of forwarding nodes; the end that it reaches
  spawns its side of the handshake, the initiating one just for the caller, on the connection it
  stored for the session, and changes none of its tables.
\<close>

theorem success_starts_handshake:
  assumes "protos_ok E" and "\<forall>(w, st, other) \<in> set hops. forwards sid st other w"
    and "delivers sid cc w" and "session_map w sid = Some s"
  shows "\<exists>key ws' bs bs' w'.
    run (write_relay_arc E out (new_relay_circuit_success E sid)) ws = Done key ws' \<and>
    out_chan ws' (ws_stream out) = out_chan ws (ws_stream out) @ [WrapedData_Data bs] \<and>
    relay_chain E sid hops bs = Some bs' \<and>
    run (relay_event_handler E st (Some sid)) (receive st bs' w) = Done (Some (T_relay_event_handler st (Some sid))) w' \<and>
    spawned w' = spawned w @ [T_process_handshake cc (ses_role s = session_role_i32 CallerRole) sid] \<and>
    session_map w' = session_map w \<and> circuit_map w' = circuit_map w"
proof -
  have "success_relay E sid (on_wire E (draws ws) (new_relay_circuit_success E sid))"
    using assms(1) by (simp add: new_relay_circuit_success_def success_relay_def relay_of_def)
  from relay_chain_success [OF assms(1,2) this] run_success_endpoint [OF assms(1) _ assms(3,4), of _ st "Some sid"]
  show ?thesis by (fastforce simp: run_simps out_chan_sent_relay)
qed

theorem success_starts_handshake_witness:
  "\<exists>key ws' bs bs' w'.
    run (write_relay_arc E0 (scene_stream 4 ''b'') (new_relay_circuit_success E0 ''s1'')) (scene_node SinkRole) = Done key ws' \<and>
    out_chan ws' (ws_stream (scene_stream 4 ''b'')) =
      out_chan (scene_node SinkRole) (ws_stream (scene_stream 4 ''b'')) @ [WrapedData_Data bs] \<and>
    relay_chain E0 ''s1'' [(scene_node RelayRole, scene_stream 3 ''a'', scene_stream 4 ''b'')] bs = Some bs' \<and>
    run (relay_event_handler E0 (scene_stream 3 ''a'') (Some ''s1'')) (receive (scene_stream 3 ''a'') bs' (scene_node AnswerRole)) =
      Done (Some (T_relay_event_handler (scene_stream 3 ''a'') (Some ''s1''))) w' \<and>
    spawned w' = spawned (scene_node AnswerRole) @
      [T_process_handshake scene_conn (ses_role (scene_session AnswerRole) = session_role_i32 CallerRole) ''s1''] \<and>
    session_map w' = session_map (scene_node AnswerRole) \<and> circuit_map w' = circuit_map (scene_node AnswerRole)"
  by (rule success_starts_handshake) (simp_all add: scene_forwards scene_delivers, simp add: scene_defs)

section \<open>Extending a session\<close>

lemma run_new_session_no_stream:
  assumes "find (\<lambda>st. ws_remote_peer_id st = p) (relay_out_streams w) = None"
  shows "\<exists>w'. run (new_session_to_peer E p sid my_role other_role) w = Done None w' \<and>
    session_map w' = session_map w \<and> poisoned w' = poisoned w \<and>
    request_loop_alive w' = request_loop_alive w \<and> node_request_sender w' = node_request_sender w"
proof -
  let ?w = "w\<lparr>spawned := spawned w @ [T_send_node_request (NodeRequest_NewStreamRequest p)]\<rparr>"
  have "run (wait_for_out_peer_relay_stream p) ?w = Done None ?w"
    using run_wait_for_out_stream [of p ?w] assms by auto
  then show ?thesis by (simp add: new_session_to_peer_def new_relay_stream_def run_simps)
qed

lemma closed_session_requests [simp]:
  "request_loop_alive (closed_session sid w) = request_loop_alive w"
  "node_request_sender (closed_session sid w) = node_request_sender w"
proof -
  have "request_loop_alive (fold (\<lambda>st. push_out st d) sts w) = request_loop_alive w" for d sts w
    by (induction sts arbitrary: w) simp_all
  then show "request_loop_alive (closed_session sid w) = request_loop_alive w"
    "node_request_sender (closed_session sid w) = node_request_sender w"
    by (simp_all add: closed_session_def map_update_defs)
qed

text \<open>
  C7: what a relay node does when it is asked to extend a session to the sink. It refuses, and closes
  what it has of the session, when it does not know the session or cannot get a stream to the sink.
  When its session has both streams already, it is the entry node too: it agrees and announces
  success on both streams. Otherwise it opens a session to the sink, waits for the sink, and then
  agrees, with the new stream as the later stream of its session. Each request gets one answer.
\<close>

theorem session_extended:
  assumes "dec (c_session_expend E) (cmd_data c) = Some \<lparr>se_session_id = sid, se_peer_id = to_base58 E sink\<rparr>"
    and "peer_ok E" and "\<not> poisoned w Lock_session_map" and "request_loop_alive w" and "fresh_handles w"
  shows "case session_map w sid of
      None \<Rightarrow> \<exists>w'. run (handle_session_expend E p c) w = Done () w' \<and> session_map w' = session_map w \<and>
        circuit_map w' = (circuit_map w)(sid := None) \<and>
        node_request_sender w' = node_request_sender w @ [ack_to p (cmd_command_id c) False (as_bytes ''No such session'')]
    | Some s \<Rightarrow>
        if ready s
        then \<exists>w'. run (handle_session_expend E p c) w = Done () w' \<and> session_map w' = session_map w \<and>
          node_request_sender w' = node_request_sender w @ [ack_to p (cmd_command_id c) True []] \<and>
          spawned w' = spawned w @ map (\<lambda>st. T_write_relay_arc st (new_relay_circuit_success E sid)) (streams_of (Some s))
        else case find (\<lambda>st. ws_remote_peer_id st = sink) (relay_out_streams w) of
          None \<Rightarrow> \<exists>w'. run (handle_session_expend E p c) w = Done () w' \<and> session_map w' = (session_map w)(sid := None) \<and>
            node_request_sender w' = node_request_sender w @ [ack_to p (cmd_command_id c) False (as_bytes ''new session error'')]
        | Some st \<Rightarrow> \<exists>prog w1. run (handle_session_expend E p c) w = Blocked prog w1 \<and>
            (\<forall>w2 a. session_map w2 = session_map w1 \<longrightarrow> poisoned w2 = poisoned w1 \<longrightarrow> request_loop_alive w2 \<longrightarrow>
               oneshots w2 (next_handle w) = Oneshot_Sent (Oneshot_Ack a) \<longrightarrow>
               (\<exists>w3. run prog w2 = Done () w3 \<and> session_map w3 = (session_map w)(sid \<mapsto> set_later st s) \<and>
                  node_request_sender w3 = node_request_sender w2 @ [ack_to p (cmd_command_id c) True []]))"
proof (cases "session_map w sid")
  case None
  then have "(session_map w)(sid := None) = session_map w" by auto
  with None assms(1,3,4) show ?thesis by (simp add: handle_session_expend_def run_simps Let_def)
next
  case (Some s)
  have sink: "peer_of_base58 E (to_base58 E sink) = Some sink"
    using assms(2) by (auto simp: peer_ok_def peer_of_base58_def split: option.split) (metis option.inject option.distinct(1))+
  consider "ready s" | "\<not> ready s" "find (\<lambda>st. ws_remote_peer_id st = sink) (relay_out_streams w) = None"
    | st where "\<not> ready s" "find (\<lambda>st. ws_remote_peer_id st = sink) (relay_out_streams w) = Some st"
    by fastforce
  then show ?thesis
  proof cases
    case 1
    then show ?thesis using Some assms(1,3,4)
      by (auto simp: handle_session_expend_def run_simps Let_def send_relay_twoway_def streams_of_def
          ready_def map_filter_simps)
  next
    case 2
    then show ?thesis
      using Some assms(1,3,4) sink run_new_session_no_stream [OF 2(2), of E sid "session_role_i32 RelayRole" "session_role_i32 SinkRole"]
      by (auto simp: handle_session_expend_def run_simps Let_def)
  next
    case (3 st)
    then show ?thesis
      using Some assms(1,3,4) sink
        run_new_session_to_peer [OF assms(3,5) 3(2), of E sid "session_role_i32 RelayRole" "session_role_i32 SinkRole"]
      by (auto simp: handle_session_expend_def run_simps Let_def joined_session_def)
  qed
qed

theorem session_extended_witness:
  "\<exists>prog w1. run (handle_session_expend E0 (PeerId [8]) \<lparr>cmd_command_id = ''c'', cmd_type = 0, cmd_from = ''f'',
        cmd_data = enc (c_session_expend E0) \<lparr>se_session_id = ''s1'', se_peer_id = to_base58 E0 (PeerId [3])\<rparr>\<rparr>)
      (scene_world\<lparr>relay_out_streams := [scene_stream 3 ''a''],
        session_map := [''s1'' \<mapsto> new_session ''s1'' 4 (scene_stream 4 ''b'')]\<rparr>) = Blocked prog w1"
proof -
  have "find (\<lambda>st. ws_remote_peer_id st = PeerId [3]) [scene_stream 3 ''a''] = Some (scene_stream 3 ''a'')"
    by (simp add: scene_stream_def)
  moreover have "\<not> ready (new_session ''s1'' 4 (scene_stream 4 ''b''))" by (simp add: ready_def new_session_def)
  ultimately show ?thesis
    using session_extended [of E0 "\<lparr>cmd_command_id = ''c'', cmd_type = 0, cmd_from = ''f'',
        cmd_data = enc (c_session_expend E0) \<lparr>se_session_id = ''s1'', se_peer_id = to_base58 E0 (PeerId [3])\<rparr>\<rparr>"
        "''s1''" "PeerId [3]" "scene_world\<lparr>relay_out_streams := [scene_stream 3 ''a''],
        session_map := [''s1'' \<mapsto> new_session ''s1'' 4 (scene_stream 4 ''b'')]\<rparr>" "PeerId [8]"]
    by (auto simp: scene_world_def initial_world_def fresh_handles_def)
qed

section \<open>Dialing\<close>

text \<open>The request for a circuit that \<open>dial\<close> sends to the proxy.\<close>

definition circuit_request :: "ext \<Rightarrow> string \<Rightarrow> string \<Rightarrow> string \<Rightarrow> string \<Rightarrow> request" where
  "circuit_request E me from_hash to_hash sid = with_req_id E
     \<lparr>rq_req_id = '''', rq_from = me, rq_reqtype = reqtype_i32 Reqtype_NewCircuit,
      rq_data = enc (c_new_circuit E) \<lparr>nc_from = from_hash, nc_to = to_hash, nc_session_id = sid\<rparr>\<rparr>"

text \<open>From the acknowledgement of the session on.\<close>

definition dial_rest :: "ext \<Rightarrow> string \<Rightarrow> string \<Rightarrow> string \<Rightarrow> peer_id \<Rightarrow> wrapped_stream option \<Rightarrow> string async" where
  "dial_rest E remote_wid local_wid sid proxy st_opt =
     bind (unwrap st_opt) (\<lambda>st.
     bind conn_channel (\<lambda>c.
     bind (modify (put_circuit sid
             \<lparr>cc_id = sid, cc_out_stream = st, cc_in_channel = c, cc_transport_state = None\<rparr>)) (\<lambda>_.
     bind (gets (get_id E)) (\<lambda>my_id.
     bind (new_circuit_request E remote_wid local_wid my_id sid proxy) (\<lambda>_.
     Ret sid)))))"

lemma run_dial_rest:
  assumes "request_loop_alive w" and "fresh_handles w"
    and "from_whitenoise_to_hash E lw = Some from_hash" and "from_whitenoise_to_hash E rw = Some to_hash"
  shows "\<exists>prog w1. run (dial_rest E rw lw sid p (Some st)) w = Blocked prog w1 \<and>
    session_map w1 = session_map w \<and> circuit_map w1 = (circuit_map w)(sid \<mapsto>
      \<lparr>cc_id = sid, cc_out_stream = st, cc_in_channel = next_handle w, cc_transport_state = None\<rparr>) \<and>
    node_request_sender w1 = node_request_sender w @ [to_proxy p (circuit_request E (get_id E w) from_hash to_hash sid)] \<and>
    (\<forall>w2 a. oneshots w2 (Suc (next_handle w)) = Oneshot_Sent (Oneshot_Ack a) \<longrightarrow> run prog w2 = Done sid w2)"
proof -
  let ?cc = "\<lparr>cc_id = sid, cc_out_stream = st, cc_in_channel = next_handle w, cc_transport_state = None\<rparr>"
  let ?w = "put_circuit sid ?cc (w\<lparr>conn_chan := (conn_chan w)(next_handle w := []), next_handle := Suc (next_handle w)\<rparr>)"
  let ?r = "circuit_request E (get_id E w) from_hash to_hash sid"
  have fresh: "fresh_handles ?w" using assms(2) by (auto simp: fresh_handles_def put_circuit_def less_Suc_eq)
  have alive: "request_loop_alive ?w" using assms(1) by (simp add: put_circuit_def)
  have same: "get_id E ?w = get_id E w" "next_handle ?w = Suc (next_handle w)" "session_map ?w = session_map w"
    "circuit_map ?w = (circuit_map w)(sid \<mapsto> ?cc)" "node_request_sender ?w = node_request_sender w"
    by (simp_all add: put_circuit_def get_id_def)
  obtain w1 where w1: "run (external_send_node_request_and_wait (rq_req_id ?r) (to_proxy p ?r)) ?w =
      Blocked (bind (recv_ack (Suc (next_handle w))) unwrap) w1"
    "node_request_sender w1 = node_request_sender w @ [to_proxy p ?r]" "session_map w1 = session_map w"
    "circuit_map w1 = (circuit_map w)(sid \<mapsto> ?cc)"
    using run_send_and_wait [OF alive fresh, of "rq_req_id ?r" "to_proxy p ?r"] unfolding same by blast
  let ?prog = "bind (bind (bind (recv_ack (Suc (next_handle w))) unwrap) (\<lambda>_. Ret ())) (\<lambda>_. Ret sid)"
  have "run (new_circuit_request E rw lw (get_id E w) sid p) ?w =
      Blocked (bind (bind (recv_ack (Suc (next_handle w))) unwrap) (\<lambda>_. Ret ())) w1"
    using w1(1) assms(3,4) by (simp add: new_circuit_request_def circuit_request_def run_simps Let_def)
  then have "run (dial_rest E rw lw sid p (Some st)) w = Blocked ?prog w1"
    by (simp add: dial_rest_def run_simps conn_channel_def same(1))
  with w1(2-) show ?thesis
    by (intro exI [of _ ?prog] exI [of _ w1]) (auto simp: run_simps run_recv_ack)
qed

text \<open>
  C6: dialing. With a proxy and a stream to it, \<open>dial\<close> stores the key of the dialed client for the
  new session, sets up the session with the proxy and waits; once the proxy has acknowledged, it has
  stored its session as the caller and a connection without a transport state, has sent one request
  for a circuit and waits again; the answer to the request, whatever it says, ends the call with the
  id of the session.
\<close>

theorem dial_returns_session:
  assumes "from_keypair_to_whitenoise_id E (node_keypair w) = Some lw" and "composit_bytes E rw = Some key"
    and "from_whitenoise_to_hash E lw = Some from_hash" and "from_whitenoise_to_hash E rw = Some to_hash"
    and "\<not> poisoned w Lock_session_map" and "\<not> poisoned w Lock_circuit_task" and "fresh_handles w"
    and "proxy_id w = Some p" and "find (\<lambda>st. ws_remote_peer_id st = p) (relay_out_streams w) = Some st"
    and "sid = generate_session_id E (draws w) rw lw" and "session_map w sid = None"
  shows "\<exists>prog w1. run (dial E rw) w = Blocked prog w1 \<and> circuit_task w1 = (circuit_task w)(sid \<mapsto> key) \<and>
    (\<forall>w2 a. session_map w2 = session_map w1 \<longrightarrow> poisoned w2 = poisoned w1 \<longrightarrow> request_loop_alive w2 \<longrightarrow>
       fresh_handles w2 \<longrightarrow> oneshots w2 (next_handle w) = Oneshot_Sent (Oneshot_Ack a) \<longrightarrow>
       (\<exists>prog' w3. run prog w2 = Blocked prog' w3 \<and>
          session_map w3 = (session_map w)(sid \<mapsto> new_session sid (session_role_i32 CallerRole) st) \<and>
          circuit_map w3 = (circuit_map w2)(sid \<mapsto>
            \<lparr>cc_id = sid, cc_out_stream = st, cc_in_channel = next_handle w2, cc_transport_state = None\<rparr>) \<and>
          node_request_sender w3 = node_request_sender w2 @ [to_proxy p (circuit_request E (get_id E w2) from_hash to_hash sid)] \<and>
          (\<forall>w4 b. oneshots w4 (Suc (next_handle w2)) = Oneshot_Sent (Oneshot_Ack b) \<longrightarrow> run prog' w4 = Done sid w4)))"
proof -
  let ?w = "w\<lparr>draws := Suc (draws w), circuit_task := (circuit_task w)(sid \<mapsto> key)\<rparr>"
  have pre: "\<not> poisoned ?w Lock_session_map" "fresh_handles ?w"
    "find (\<lambda>st. ws_remote_peer_id st = p) (relay_out_streams ?w) = Some st"
    using assms(5,7,9) by (simp_all add: fresh_handles_def)
  obtain prog w1 where n: "run (new_session_to_peer E p sid (session_role_i32 CallerRole) (session_role_i32 EntryRole)) ?w = Blocked prog w1"
    "\<And>w2 a. session_map w2 = session_map w1 \<Longrightarrow> poisoned w2 = poisoned w1 \<Longrightarrow>
       oneshots w2 (next_handle w) = Oneshot_Sent (Oneshot_Ack a) \<Longrightarrow>
       run prog w2 = Done (Some st) (w2\<lparr>spawned := spawned w2 @ [T_relay_event_handler st (Some sid)],
         session_map := (session_map w)(sid \<mapsto> new_session sid (session_role_i32 CallerRole) st)\<rparr>)"
    "circuit_task w1 = (circuit_task w)(sid \<mapsto> key)"
    using run_new_session_to_peer [OF pre, of E sid "session_role_i32 CallerRole" "session_role_i32 EntryRole"] assms(11)
    by (auto simp: joined_session_def)
  have d: "run (dial E rw) w = Blocked (bind prog (dial_rest E rw lw sid p)) w1"
    using assms(1,2,6,8) n(1)
    by (simp add: dial_def dial_rest_def [abs_def] run_simps Let_def draw_def assms(10) [symmetric])
  have "\<exists>prog' w3. run (bind prog (dial_rest E rw lw sid p)) w2 = Blocked prog' w3 \<and>
      session_map w3 = (session_map w)(sid \<mapsto> new_session sid (session_role_i32 CallerRole) st) \<and>
      circuit_map w3 = (circuit_map w2)(sid \<mapsto>
        \<lparr>cc_id = sid, cc_out_stream = st, cc_in_channel = next_handle w2, cc_transport_state = None\<rparr>) \<and>
      node_request_sender w3 = node_request_sender w2 @ [to_proxy p (circuit_request E (get_id E w2) from_hash to_hash sid)] \<and>
      (\<forall>w4 b. oneshots w4 (Suc (next_handle w2)) = Oneshot_Sent (Oneshot_Ack b) \<longrightarrow> run prog' w4 = Done sid w4)"
    if "session_map w2 = session_map w1" "poisoned w2 = poisoned w1" "request_loop_alive w2" "fresh_handles w2"
      "oneshots w2 (next_handle w) = Oneshot_Sent (Oneshot_Ack a)" for w2 a
    using run_dial_rest [of "w2\<lparr>spawned := spawned w2 @ [T_relay_event_handler st (Some sid)],
         session_map := (session_map w)(sid \<mapsto> new_session sid (session_role_i32 CallerRole) st)\<rparr>" E lw from_hash rw to_hash sid p st]
      that(3,4) assms(3,4) n(2) [OF that(1,2,5)]
    by (simp add: run_simps fresh_handles_def get_id_def)
  with d n(3) show ?thesis by blast
qed

definition scene_caller :: world where
  "scene_caller = scene_world\<lparr>node_keypair := KeyEd25519 [42], proxy_id := Some (PeerId [3]),
     relay_out_streams := [scene_stream 3 ''a'']\<rparr>"

theorem dial_returns_session_witness:
  "\<exists>prog w1. run (dial E0 scene_wid) scene_caller = Blocked prog w1 \<and>
    circuit_task w1 = (circuit_task scene_caller)(generate_session_id E0 (draws scene_caller) scene_wid scene_wid \<mapsto> 48 # 1 # [42])"
proof -
  have c: "composit_bytes E0 scene_wid = Some (48 # 1 # [42])"
    using composit_bytes_id [OF E0_base58 scene_wid_id] by (simp add: E0_def)
  have h: "from_whitenoise_to_hash E0 scene_wid = Some (hex_enc (pad32 [1, 42]))"
    using whitenoise_id_hash [OF E0_base58 scene_wid_id] by (simp add: E0_def)
  have w: "from_keypair_to_whitenoise_id E0 (node_keypair scene_caller) = Some scene_wid"
    by (simp add: scene_caller_def scene_wid_id)
  have "proxy_id scene_caller = Some (PeerId [3])" "\<not> poisoned scene_caller Lock_session_map"
    "\<not> poisoned scene_caller Lock_circuit_task" "fresh_handles scene_caller" "session_map scene_caller = Map.empty"
    "find (\<lambda>st. ws_remote_peer_id st = PeerId [3]) (relay_out_streams scene_caller) = Some (scene_stream 3 ''a'')"
    by (simp_all add: scene_caller_def scene_world_def initial_world_def fresh_handles_def scene_stream_def)
  from dial_returns_session [OF w c h h this(2,3,4,1,6) refl] this(5) show ?thesis by auto
qed

end
