(* ===== verification/Races.thy ===== *)
theory Races
  imports Node_Props
begin

text \<open>
  Orders of events that the code does not expect: what a running node does when an acknowledgement
  overtakes the task that will wait for it.
\<close>

section \<open>The window in \<open>new_session_to_peer\<close>\<close>

text \<open>The rest of \<open>new_session_to_peer\<close> once the \<open>SetSessionId\<close> message is queued.\<close>

definition session_wait ::
  "string \<Rightarrow> i32 \<Rightarrow> wrapped_stream \<Rightarrow> string \<Rightarrow> wrapped_stream option async" where
  "session_wait sid my_role st key =
     bind oneshot_channel (\<lambda>h.
     bind (event_bus_insert key h) (\<lambda>_.
     bind (recv_ack h) (\<lambda>a.
     bind (unwrap a) (\<lambda>_.
     bind (spawn (T_relay_event_handler st (Some sid))) (\<lambda>_.
     bind (read_session sid) (\<lambda>found.
     bind (if found = None then insert_session sid (new_session sid my_role st)
           else bind (read_session sid) (\<lambda>s. insert_later sid st s)) (\<lambda>_.
     Ret (Some st))))))))"

lemma new_session_to_peer_unfold:
  "new_session_to_peer E p sid my_role other_role =
     bind (new_relay_stream p) (\<lambda>o_st.
     case o_st of
       None \<Rightarrow> Ret None
     | Some st \<Rightarrow>
         bind (write_relay_wake_arc E st) (\<lambda>_.
         bind (write_set_session_with_role_arc E st sid other_role) (session_wait sid my_role st)))"
  unfolding new_session_to_peer_def session_wait_def [abs_def] by (rule refl)

text \<open>The task reaches the point where the message is queued and nobody waits for its answer.\<close>

lemma reach_session_wait:
  assumes "find (\<lambda>st. ws_remote_peer_id st = p) (relay_out_streams w) = Some st"
  obtains q where "reachable E mode (w, n, a @ (t, bind (new_session_to_peer E p sid ra rb) k) # b)
      (sent_relay E st (set_session_relay E sid rb) (sent_relay E st (relay_of Relaytype_Wake [])
         (w\<lparr>spawned := spawned w @ [T_send_node_request (NodeRequest_NewStreamRequest p)], relay_out_streams := q\<rparr>)),
       n, a @ (t, bind (session_wait sid ra st
         (relay_id (on_wire E (draws w + 3) (set_session_relay E sid rb)))) k) # b)"
proof -
  let ?w0 = "w\<lparr>spawned := spawned w @ [T_send_node_request (NodeRequest_NewStreamRequest p)]\<rparr>"
  obtain q where "run (wait_for_out_peer_relay_stream p) ?w0 = Done (Some st) (?w0\<lparr>relay_out_streams := q\<rparr>)"
    using run_wait_for_out_stream [of p ?w0] assms by auto
  then have s: "run (new_relay_stream p) w = Done (Some st) (?w0\<lparr>relay_out_streams := q\<rparr>)"
    by (simp add: new_relay_stream_def run_simps)
  show ?thesis
    by (rule that [of q], unfold new_session_to_peer_unfold bind_assoc,
        rule reach_trans [OF _ reach_bind [OF s]], unfold option.case bind_assoc,
        rule reach_trans [OF _ reach_bind [OF run_set_session_writers(1)]],
        rule reach_trans [OF _ reach_bind [OF run_set_session_writers(2)]]) (simp add: reach_refl)
qed

text \<open>
  C29: an acknowledgement that comes too early is lost. A task that sets up a session queues its
  \<open>SetSessionId\<close> message and registers its interest in the answer afterwards. In between, in a state
  that the node does reach, the acknowledgement of just that message changes nothing when it is
  delivered; the task then registers, and waits: in every state in which its channel has got nothing
  it stays where it is.
\<close>

theorem early_ack_lost:
  assumes "find (\<lambda>st. ws_remote_peer_id st = p) (relay_out_streams w) = Some st"
    and "request_loop_alive w"
    and "event_bus w (relay_id (on_wire E (draws w + 3) (set_session_relay E sid rb))) = None"
    and "ack_command_id x = relay_id (on_wire E (draws w + 3) (set_session_relay E sid rb))"
  shows "\<exists>w1 prog1 m1 prog2 w2.
    reachable E mode (w, n, a @ (t, bind (new_session_to_peer E p sid ra rb) k) # b) (w1, n, a @ (t, prog1) # b) \<and>
    out_chan w1 (ws_stream st) = out_chan w (ws_stream st) @ [WrapedData_Data m1,
      WrapedData_Data (enc (c_relay E) (on_wire E (draws w + 3) (set_session_relay E sid rb)))] \<and>
    sys_step E mode (w1, n, a @ (t, prog1) # b) (w1, n, a @ (t, prog1) # b) \<and>
    swarm_event E mode (Ev_ack (ack_event q x)) (w1, n) = (w1, n) \<and>
    run prog1 w1 = Blocked prog2 w2 \<and>
    event_bus w2 (ack_command_id x) = Some (next_handle w) \<and>
    (\<forall>w3. oneshots w3 (next_handle w) = Oneshot_Pending \<longrightarrow> run prog2 w3 = Blocked prog2 w3)"
proof -
  let ?key = "relay_id (on_wire E (draws w + 3) (set_session_relay E sid rb))"
  from reach_session_wait [OF assms(1), of E mode n a t sid ra rb k b] obtain u where u:
    "reachable E mode (w, n, a @ (t, bind (new_session_to_peer E p sid ra rb) k) # b)
      (sent_relay E st (set_session_relay E sid rb) (sent_relay E st (relay_of Relaytype_Wake [])
         (w\<lparr>spawned := spawned w @ [T_send_node_request (NodeRequest_NewStreamRequest p)], relay_out_streams := u\<rparr>)),
       n, a @ (t, bind (session_wait sid ra st ?key) k) # b)" by blast
  define w1 where "w1 = sent_relay E st (set_session_relay E sid rb) (sent_relay E st (relay_of Relaytype_Wake [])
         (w\<lparr>spawned := spawned w @ [T_send_node_request (NodeRequest_NewStreamRequest p)], relay_out_streams := u\<rparr>))"
  have w1: "event_bus w1 = event_bus w" "next_handle w1 = next_handle w" "request_loop_alive w1"
    "out_chan w1 (ws_stream st) = out_chan w (ws_stream st) @
      [WrapedData_Data (enc (c_relay E) (on_wire E (draws w) (relay_of Relaytype_Wake []))),
       WrapedData_Data (enc (c_relay E) (on_wire E (draws w + 3) (set_session_relay E sid rb)))]"
    using assms(2) by (simp_all add: w1_def out_chan_sent_relay)
  have "(event_bus w)(?key := None) = event_bus w" using assms(3) by (auto simp: fun_eq_iff)
  then have ev: "swarm_event E mode (Ev_ack (ack_event q x)) (w1, n) = (w1, n)"
    using assms(3,4) w1(1) by (simp add: swarm_event_def swarm_inject_def inject_ack_event_def Let_def)
  let ?w2 = "event_bus_put ?key (next_handle w)
      (w1\<lparr>oneshots := (oneshots w1)(next_handle w := Oneshot_Pending), next_handle := Suc (next_handle w)\<rparr>)"
  define after_ack where "after_ack = (\<lambda>r. bind (unwrap r) (\<lambda>_ :: ack.
     bind (spawn (T_relay_event_handler st (Some sid))) (\<lambda>_.
     bind (read_session sid) (\<lambda>found.
     bind (if found = None then insert_session sid (new_session sid ra st)
           else bind (read_session sid) (\<lambda>s. insert_later sid st s)) (\<lambda>_.
     Ret (Some st))))))"
  let ?prog2 = "bind (bind (recv_ack (next_handle w)) after_ack) k"
  have "oneshots ?w2 (next_handle w) = Oneshot_Pending"
    using assms(3) w1(1) by (simp add: oneshots_event_bus_put)
  then have "run (bind (session_wait sid ra st ?key) k) w1 = Blocked ?prog2 ?w2"
    using w1(2)
    by (simp add: session_wait_def after_ack_def run_simps run_recv_ack)
  moreover have "run ?prog2 w3 = Blocked ?prog2 w3" if "oneshots w3 (next_handle w) = Oneshot_Pending" for w3
    using that by (simp add: run_simps run_recv_ack)
  moreover have "event_bus ?w2 (ack_command_id x) = Some (next_handle w)"
    using assms(4) by (simp add: oneshots_event_bus_put)
  ultimately show ?thesis
    using u [folded w1_def] w1(4) ev step_event [OF w1(3) ev] by blast
qed

theorem early_ack_lost_witness:
  "\<exists>w1 prog1 m1 prog2 w2.
    reachable E0 RunMode_Server (scene_world\<lparr>relay_out_streams := [scene_stream 3 ''a'']\<rparr>, initial_swarm E0 [],
        [] @ (None, bind (new_session_to_peer E0 (PeerId [3]) ''s9'' 1 2) (\<lambda>_. Ret None)) # [])
      (w1, initial_swarm E0 [], [] @ (None, prog1) # []) \<and>
    out_chan w1 (ws_stream (scene_stream 3 ''a'')) =
      out_chan (scene_world\<lparr>relay_out_streams := [scene_stream 3 ''a'']\<rparr>) (ws_stream (scene_stream 3 ''a'')) @
        [WrapedData_Data m1, WrapedData_Data (enc (c_relay E0) (on_wire E0
           (draws (scene_world\<lparr>relay_out_streams := [scene_stream 3 ''a'']\<rparr>) + 3) (set_session_relay E0 ''s9'' 2)))] \<and>
    sys_step E0 RunMode_Server (w1, initial_swarm E0 [], [] @ (None, prog1) # [])
      (w1, initial_swarm E0 [], [] @ (None, prog1) # []) \<and>
    swarm_event E0 RunMode_Server (Ev_ack (ack_event (PeerId [3])
        \<lparr>ack_command_id = relay_id (on_wire E0
           (draws (scene_world\<lparr>relay_out_streams := [scene_stream 3 ''a'']\<rparr>) + 3) (set_session_relay E0 ''s9'' 2)),
         ack_result = True, ack_data = []\<rparr>)) (w1, initial_swarm E0 []) = (w1, initial_swarm E0 []) \<and>
    run prog1 w1 = Blocked prog2 w2 \<and>
    event_bus w2 (ack_command_id
        \<lparr>ack_command_id = relay_id (on_wire E0
           (draws (scene_world\<lparr>relay_out_streams := [scene_stream 3 ''a'']\<rparr>) + 3) (set_session_relay E0 ''s9'' 2)),
         ack_result = True, ack_data = []\<rparr>) =
      Some (next_handle (scene_world\<lparr>relay_out_streams := [scene_stream 3 ''a'']\<rparr>)) \<and>
    (\<forall>w3. oneshots w3 (next_handle (scene_world\<lparr>relay_out_streams := [scene_stream 3 ''a'']\<rparr>)) = Oneshot_Pending
       \<longrightarrow> run prog2 w3 = Blocked prog2 w3)"
  by (rule early_ack_lost)
    (simp_all add: scene_world_def initial_world_def scene_stream_def)

end
