(* ===== verification/Circuit_Channel.thy ===== *)
theory Circuit_Channel
  imports Data_Path System "HOL-Library.Multiset"
begin

text \<open>
  A circuit as a channel. The concrete system is a row of nodes, from the one that sends data of a
  session to the one whose connection gets it: each node with the shared state of its tasks, the
  stream it reads and the stream it writes, and the bytes on the substream that leads to it. Its
  steps are the ones the code makes: a payload is written, the pump of a stream takes the next entry
  of its queue to the network or the next byte from it, the task spawned for a message that was read
  hands it to the stream, a handler makes one round, the client takes a message from its connection;
  and other tasks of a node do anything that leaves the session and its two streams alone. The pump
  of the stream that a node reads also writes what goes the other way; when it does so in the middle
  of a message it drops what it has read of it, and the step is marked \<open>Chan_cut\<close>.

  The abstract channel is a bag: what is sent goes in, and any message may come out next. (It is not
  a queue, since a task of its own hands over each message that was read.) The locale
  \<open>refinement\<close> is the simulation method; the circuit is its instance.
\<close>

section \<open>Refinement\<close>

text \<open>A run with the visible labels of its steps.\<close>

inductive trace :: "('c \<Rightarrow> 'l option \<Rightarrow> 'c \<Rightarrow> bool) \<Rightarrow> 'c \<Rightarrow> 'l list \<Rightarrow> 'c \<Rightarrow> bool" for step where
  trace_refl: "trace step c [] c"
| trace_visible: "trace step c ls d \<Longrightarrow> step d (Some l) e \<Longrightarrow> trace step c (ls @ [l]) e"
| trace_silent: "trace step c ls d \<Longrightarrow> step d None e \<Longrightarrow> trace step c ls e"

locale refinement =
  fixes cstep :: "'c \<Rightarrow> 'l option \<Rightarrow> 'c \<Rightarrow> bool"
    and astep :: "'a \<Rightarrow> 'l option \<Rightarrow> 'a \<Rightarrow> bool"
    and inv_c :: "'c \<Rightarrow> bool"
    and abs_c :: "'c \<Rightarrow> 'a"
  assumes keeps_inv: "inv_c c \<Longrightarrow> cstep c l d \<Longrightarrow> inv_c d"
    and simulates: "inv_c c \<Longrightarrow> cstep c l d \<Longrightarrow>
      astep (abs_c c) l (abs_c d) \<or> l = None \<and> abs_c d = abs_c c"
begin

lemma trace_inclusion:
  assumes "trace cstep c ls d" and "inv_c c"
  shows "trace astep (abs_c c) ls (abs_c d) \<and> inv_c d"
  using assms
proof (induction rule: trace.induct)
  case (trace_visible c ls d l e)
  then show ?case using simulates [of d "Some l" e] keeps_inv [of d] by (auto intro: trace.trace_visible)
next
  case (trace_silent c ls d e)
  then show ?case using simulates [of d None e] keeps_inv [of d] by (auto intro: trace.trace_silent)
qed (simp add: trace_refl)

end

section \<open>The abstract channel\<close>

datatype chan_event = Chan_send bytes | Chan_recv bytes | Chan_cut

inductive bag_step ::
  "bytes multiset \<times> bytes list \<Rightarrow> chan_event option \<Rightarrow> bytes multiset \<times> bytes list \<Rightarrow> bool" where
  bag_send: "bag_step (B, D) (Some (Chan_send d)) (add_mset d B, D)"
| bag_deliver: "bag_step (add_mset d B, D) None (B, D @ [d])"
| bag_recv: "bag_step (B, d # D) (Some (Chan_recv d)) (B, D)"

inductive_cases bag_stepE: "bag_step s l t"

fun sent_of :: "chan_event \<Rightarrow> bytes list" where
  "sent_of (Chan_send d) = [d]"
| "sent_of (Chan_recv d) = []"
| "sent_of Chan_cut = []"

fun received_of :: "chan_event \<Rightarrow> bytes list" where
  "received_of (Chan_send d) = []"
| "received_of (Chan_recv d) = [d]"
| "received_of Chan_cut = []"

text \<open>Nothing is lost, doubled or made up: what was sent was received, was delivered or is inside.\<close>

lemma bag_conserves:
  assumes "trace bag_step s ls t"
  shows "mset (concat (map sent_of ls)) + fst s + mset (snd s) =
    mset (concat (map received_of ls)) + fst t + mset (snd t)"
  using assms
proof (induction rule: trace.induct)
  case (trace_visible c ls d l e)
  from trace_visible.hyps(2) trace_visible.IH show ?case by (auto elim!: bag_stepE)
next
  case (trace_silent c ls d e)
  from trace_silent.hyps(2) trace_silent.IH show ?case by (auto elim!: bag_stepE)
qed simp

section \<open>Messages on a byte stream\<close>

text \<open>The messages that uninterrupted calls of \<open>read_one\<close> take off a stream of bytes.\<close>

function frames_of :: "ext \<Rightarrow> bytes \<Rightarrow> bytes list" where
  "frames_of E bs =
     (case read_one E READ_LIMIT bs of
        Some (Inr m, rest) \<Rightarrow> if length rest < length bs then m # frames_of E rest else []
      | _ \<Rightarrow> [])"
  by pat_completeness auto
termination
  by (relation "measure (\<lambda>(E, bs). length bs)") auto

declare frames_of.simps [simp del]

text \<open>A pending \<open>read_one\<close> has taken \<open>got\<close>; with what is still on the wire it makes whole messages.\<close>

definition wire_ok :: "ext \<Rightarrow> bytes \<Rightarrow> bytes \<Rightarrow> bool" where
  "wire_ok E got wire \<longleftrightarrow> (\<exists>ms. got @ wire = concat (map (len_prefixed E) ms) \<and>
     (\<forall>m \<in> set ms. length m \<le> READ_LIMIT) \<and>
     (got = [] \<or> (\<exists>m ms'. ms = m # ms' \<and> strict_prefix got (len_prefixed E m))))"

lemma wire_ok_Nil [simp]: "wire_ok E [] []"
  by (auto simp: wire_ok_def intro: exI [of _ "[]"])

lemma frames_of_Cons:
  assumes "read_one_ok E" and "length m \<le> READ_LIMIT"
  shows "frames_of E (len_prefixed E m @ rest) = m # frames_of E rest"
  using read_one_message [OF assms, of rest] len_prefixed_not_Nil [OF assms(1), of m]
  by (subst frames_of.simps) simp

lemma frames_of_Nil: "read_one_ok E \<Longrightarrow> frames_of E [] = []"
  by (subst frames_of.simps) (simp add: read_one_def read_one_okD(1))

lemma frames_of_concat:
  assumes "read_one_ok E" and "\<forall>m \<in> set ms. length m \<le> READ_LIMIT"
  shows "frames_of E (concat (map (len_prefixed E) ms)) = ms"
  using assms(2) by (induction ms) (simp_all add: frames_of_Nil frames_of_Cons assms(1))

lemma wire_write:
  assumes "read_one_ok E" and "wire_ok E got wire" and "length x \<le> READ_LIMIT"
  shows "wire_ok E got (wire @ len_prefixed E x)"
    and "frames_of E (got @ wire @ len_prefixed E x) = frames_of E (got @ wire) @ [x]"
proof -
  obtain ms where ms: "got @ wire = concat (map (len_prefixed E) ms)" "\<forall>m \<in> set ms. length m \<le> READ_LIMIT"
    "got = [] \<or> (\<exists>m ms'. ms = m # ms' \<and> strict_prefix got (len_prefixed E m))"
    using assms(2) by (auto simp: wire_ok_def)
  then have e: "got @ wire @ len_prefixed E x = concat (map (len_prefixed E) (ms @ [x]))"
    and l: "\<forall>m \<in> set (ms @ [x]). length m \<le> READ_LIMIT"
    using assms(3) by (simp_all flip: append_assoc)
  from e l ms(3) show "wire_ok E got (wire @ len_prefixed E x)"
    unfolding wire_ok_def by (intro exI [of _ "ms @ [x]"]) auto
  show "frames_of E (got @ wire @ len_prefixed E x) = frames_of E (got @ wire) @ [x]"
    unfolding e ms(1) frames_of_concat [OF assms(1) l] frames_of_concat [OF assms(1) ms(2)] ..
qed

text \<open>The next byte is part of the first message, or completes it.\<close>

lemma wire_byte:
  assumes "read_one_ok E" and "wire_ok E got (b # q)"
  obtains (part) "read_step E READ_LIMIT (got @ [b]) = None" "wire_ok E (got @ [b]) q"
  | (message) m where "read_step E READ_LIMIT (got @ [b]) = Some (Inr m)" "wire_ok E [] q"
      "frames_of E (got @ b # q) = m # frames_of E q"
proof -
  obtain ms where ms: "got @ b # q = concat (map (len_prefixed E) ms)" "\<forall>m \<in> set ms. length m \<le> READ_LIMIT"
    "got = [] \<or> (\<exists>m ms'. ms = m # ms' \<and> strict_prefix got (len_prefixed E m))"
    using assms(2) by (auto simp: wire_ok_def)
  then obtain m ms' where m: "ms = m # ms'" by (cases ms) auto
  have l: "length m \<le> READ_LIMIT" "\<forall>m \<in> set ms'. length m \<le> READ_LIMIT" using ms(2) m by simp_all
  have "strict_prefix got (len_prefixed E m)"
    using ms(3) m len_prefixed_not_Nil [OF assms(1), of m] by (auto simp: strict_prefix_def)
  then obtain c z where z: "len_prefixed E m = got @ c # z"
    by (auto simp: strict_prefix_def prefix_def neq_Nil_conv)
  with ms(1) m have c: "c = b" "q = z @ concat (map (len_prefixed E) ms')" by auto
  show ?thesis
  proof (cases "z = []")
    case True
    then have f: "len_prefixed E m = got @ [b]" using z c by simp
    have "wire_ok E [] q" unfolding wire_ok_def using c True l(2) by auto
    moreover have "frames_of E (got @ b # q) = m # frames_of E q"
      using frames_of_Cons [OF assms(1) l(1), of q] by (simp add: f)
    ultimately show ?thesis using message read_one_okD(2) [OF assms(1) l(1)] by (simp add: f)
  next
    case False
    then have p: "strict_prefix (got @ [b]) (len_prefixed E m)"
      using z c by (auto simp: strict_prefix_def)
    then have "wire_ok E (got @ [b]) q" unfolding wire_ok_def using ms m by (intro exI [of _ ms]) auto
    then show ?thesis using part read_one_okD(3) [OF assms(1) l(1) p] by blast
  qed
qed

lemma wire_more:
  assumes "read_one_ok E" and "wire_ok E got wire" and "frames_of E (got @ wire) \<noteq> []"
  shows "wire \<noteq> []"
proof
  assume "wire = []"
  with assms(2) obtain ms where ms: "got = concat (map (len_prefixed E) ms)"
    "got = [] \<or> (\<exists>m ms'. ms = m # ms' \<and> strict_prefix got (len_prefixed E m))"
    by (auto simp: wire_ok_def)
  then have "got = []"
  proof (elim disjE exE conjE)
    fix m ms' assume "ms = m # ms'" and s: "strict_prefix got (len_prefixed E m)"
    then have "length (len_prefixed E m) \<le> length got" using ms(1) by simp
    with prefix_length_less [OF s] show "got = []" by simp
  qed
  with assms(1,3) \<open>wire = []\<close> show False by (simp add: frames_of_Nil)
qed

section \<open>The circuit\<close>

record hop =
  hop_wire :: bytes
  hop_world :: world
  hop_net :: relay_net
  hop_in :: "wrapped_stream option"
  hop_out :: "wrapped_stream option"

text \<open>
  What is under way at a node: on its substream, the part of a message that its pump has read
  included; read; handed over; and queued to go out.
\<close>

definition got_of :: "hop \<Rightarrow> bytes" where
  "got_of h = (case hop_in h of None \<Rightarrow> [] | Some st \<Rightarrow> sub_got (hop_net h) (ws_stream st))"

definition coming :: "ext \<Rightarrow> hop \<Rightarrow> bytes list" where
  "coming E h = frames_of E (got_of h @ hop_wire h)"

definition handed :: "wrapped_stream \<Rightarrow> task list \<Rightarrow> read_result list" where
  "handed st ts = concat (map (\<lambda>t. case t of T_send_in s r \<Rightarrow> if s = st then [r] else [] | _ \<Rightarrow> []) ts)"

definition arrived :: "hop \<Rightarrow> read_result list" where
  "arrived h = (case hop_in h of None \<Rightarrow> [] | Some st \<Rightarrow> in_chan (hop_world h) (ws_stream st))"

definition read_ahead :: "hop \<Rightarrow> read_result list" where
  "read_ahead h = (case hop_in h of None \<Rightarrow> [] | Some st \<Rightarrow> handed st (spawned (hop_world h)))"

fun out_item :: "wraped_data \<Rightarrow> read_result" where
  "out_item (WrapedData_Data bs) = Inr bs"
| "out_item WrapedData_Close = Inl (ReadOneError_Io ''closed'')"

definition leaving :: "hop \<Rightarrow> read_result list" where
  "leaving h = (case hop_out h of None \<Rightarrow> [] | Some st \<Rightarrow> map out_item (out_chan (hop_world h) (ws_stream st)))"

definition items :: "ext \<Rightarrow> hop \<Rightarrow> read_result list" where
  "items E h = map Inr (coming E h) @ read_ahead h @ arrived h @ leaving h"

definition payload_of :: "ext \<Rightarrow> read_result \<Rightarrow> bytes" where
  "payload_of E x = (case x of
     Inl _ \<Rightarrow> []
   | Inr bs \<Rightarrow> (case dec (c_relay E) bs of
        None \<Rightarrow> []
      | Some r \<Rightarrow> (case dec (c_relay_msg E) (relay_data r) of None \<Rightarrow> [] | Some m \<Rightarrow> rm_data m)))"

definition in_transit :: "ext \<Rightarrow> hop list \<Rightarrow> bytes multiset" where
  "in_transit E hs = (\<Sum>h\<leftarrow>hs. image_mset (payload_of E) (mset (items E h)))"

definition conn_inbox :: "string \<Rightarrow> world \<Rightarrow> bytes list" where
  "conn_inbox sid w = (case circuit_map w sid of None \<Rightarrow> [] | Some cc \<Rightarrow> conn_chan w (cc_in_channel cc))"

definition inbox :: "string \<Rightarrow> hop list \<Rightarrow> bytes list" where
  "inbox sid hs = conn_inbox sid (hop_world (last hs))"

definition good_item :: "ext \<Rightarrow> string \<Rightarrow> read_result \<Rightarrow> bool" where
  "good_item E sid x \<longleftrightarrow> (\<exists>bs d r. x = Inr bs \<and> bs \<noteq> [] \<and> length bs \<le> READ_LIMIT \<and>
     dec (c_relay E) bs = Some r \<and> carries_data E sid d r \<and> fits E sid d)"

text \<open>Each node plays its part: the first writes, the last has the connection, the others forward.\<close>

definition part_ok :: "string \<Rightarrow> hop \<Rightarrow> bool" where
  "part_ok sid h \<longleftrightarrow>
     (case (hop_in h, hop_out h) of
        (None, None) \<Rightarrow> False
      | (None, Some _) \<Rightarrow> hop_wire h = []
      | (Some st, Some other) \<Rightarrow> ws_stream st \<noteq> ws_stream other \<and> forwards sid st other (hop_world h)
      | (Some st, None) \<Rightarrow> \<exists>cc. delivers sid cc (hop_world h))"

definition hop_ok :: "ext \<Rightarrow> string \<Rightarrow> hop \<Rightarrow> bool" where
  "hop_ok E sid h \<longleftrightarrow> (\<forall>x \<in> set (items E h). good_item E sid x) \<and> part_ok sid h \<and>
     wire_ok E (got_of h) (hop_wire h)"

fun row :: "(wrapped_stream option \<times> wrapped_stream option) list \<Rightarrow> bool" where
  "row [] = False"
| "row [x] = (snd x = None)"
| "row (x # y # xs) = (snd x \<noteq> None \<and> fst y \<noteq> None \<and> row (y # xs))"

definition ends :: "hop \<Rightarrow> wrapped_stream option \<times> wrapped_stream option" where
  "ends h = (hop_in h, hop_out h)"

definition circuit_ok :: "ext \<Rightarrow> string \<Rightarrow> hop list \<Rightarrow> bool" where
  "circuit_ok E sid hs \<longleftrightarrow> row (map ends hs) \<and> hop_in (hd hs) = None \<and> (\<forall>h \<in> set hs. hop_ok E sid h)"

text \<open>What other tasks of a node may do meanwhile.\<close>

definition undisturbed :: "string \<Rightarrow> hop \<Rightarrow> world \<Rightarrow> relay_net \<Rightarrow> bool" where
  "undisturbed sid h w n \<longleftrightarrow> got_of (h\<lparr>hop_net := n\<rparr>) = got_of h \<and>
     arrived (h\<lparr>hop_world := w\<rparr>) = arrived h \<and> read_ahead (h\<lparr>hop_world := w\<rparr>) = read_ahead h \<and>
     leaving (h\<lparr>hop_world := w\<rparr>) = leaving h \<and>
     session_map w sid = session_map (hop_world h) sid \<and> circuit_map w sid = circuit_map (hop_world h) sid \<and>
     poisoned w Lock_session_map = poisoned (hop_world h) Lock_session_map \<and>
     (\<forall>cc. circuit_map w sid = Some cc \<longrightarrow>
        conn_chan w (cc_in_channel cc) = conn_chan (hop_world h) (cc_in_channel cc))"

inductive circuit_step :: "ext \<Rightarrow> string \<Rightarrow> hop list \<Rightarrow> chan_event option \<Rightarrow> hop list \<Rightarrow> bool" for E sid where
  cs_send: "hop_out h = Some st \<Longrightarrow> p \<noteq> [] \<Longrightarrow> length p < 65536 \<Longrightarrow> fits E sid (frame16 p) \<Longrightarrow>
    run (write_payload_arc E st p (length p) sid) (hop_world h) = Done () w' \<Longrightarrow>
    circuit_step E sid (h # b) (Some (Chan_send (frame16 p))) (h\<lparr>hop_world := w'\<rparr> # b)"
| cs_write: "hop_out h = Some st \<Longrightarrow>
    start_poll E st (Poll_next True) (hop_world h, hop_net h) = Some (Loop_continue, w', n') \<Longrightarrow>
    circuit_step E sid (a @ h # g # b) None
      (a @ h\<lparr>hop_world := w', hop_net := n'\<rparr> #
       g\<lparr>hop_wire := hop_wire g @ len_prefixed E (last (sub_written n' (ws_stream st)))\<rparr> # b)"
| cs_read: "hop_in h = Some st \<Longrightarrow> hop_wire h = byte # q \<Longrightarrow>
    start_poll E st (Poll_byte byte) (hop_world h, hop_net h) = Some (Loop_continue, w', n') \<Longrightarrow>
    circuit_step E sid (a @ h # b) None (a @ h\<lparr>hop_wire := q, hop_world := w', hop_net := n'\<rparr> # b)"
| cs_back: "hop_in h = Some st \<Longrightarrow>
    start_poll E st (Poll_next True) (hop_world h, hop_net h) = Some (Loop_continue, w', n') \<Longrightarrow>
    circuit_step E sid (a @ h # b) (if got_of h = [] then None else Some Chan_cut)
      (a @ h\<lparr>hop_world := w', hop_net := n'\<rparr> # b)"
| cs_hand: "hop_in h = Some st \<Longrightarrow> spawned (hop_world h) = ts @ T_send_in st r # us \<Longrightarrow>
    run (body E (T_send_in st r)) ((hop_world h)\<lparr>spawned := ts @ us\<rparr>) = Done None w' \<Longrightarrow>
    circuit_step E sid (a @ h # b) None (a @ h\<lparr>hop_world := w'\<rparr> # b)"
| cs_handle: "hop_in h = Some st \<Longrightarrow>
    run (relay_event_handler E st (Some sid)) (hop_world h) = Done (Some t) w' \<Longrightarrow>
    circuit_step E sid (a @ h # b) None (a @ h\<lparr>hop_world := w'\<rparr> # b)"
| cs_recv: "circuit_map (hop_world h) sid = Some cc \<Longrightarrow>
    run (conn_recv (cc_in_channel cc)) (hop_world h) = Done d w' \<Longrightarrow>
    circuit_step E sid (a @ [h]) (Some (Chan_recv d)) (a @ [h\<lparr>hop_world := w'\<rparr>])"
| cs_other: "undisturbed sid h w' n' \<Longrightarrow>
    circuit_step E sid (a @ h # b) None (a @ h\<lparr>hop_world := w', hop_net := n'\<rparr> # b)"

text \<open>The steps in which no read is cut short.\<close>

definition whole_step :: "ext \<Rightarrow> string \<Rightarrow> hop list \<Rightarrow> chan_event option \<Rightarrow> hop list \<Rightarrow> bool" where
  "whole_step E sid hs l gs \<longleftrightarrow> circuit_step E sid hs l gs \<and> l \<noteq> Some Chan_cut"

lemma trace_whole:
  "trace (circuit_step E sid) hs ls gs \<Longrightarrow> Chan_cut \<notin> set ls \<Longrightarrow> trace (whole_step E sid) hs ls gs"
  by (induction rule: trace.induct) (auto simp: whole_step_def intro: trace.intros)

section \<open>Steps of one node\<close>

lemma in_transit_app [simp]:
  "in_transit E [] = {#}"
  "in_transit E (h # b) = image_mset (payload_of E) (mset (items E h)) + in_transit E b"
  "in_transit E (a @ b) = in_transit E a + in_transit E b"
  by (simp_all add: in_transit_def)

lemma got_of_other [simp]:
  "got_of (h\<lparr>hop_world := w\<rparr>) = got_of h" "got_of (h\<lparr>hop_wire := q\<rparr>) = got_of h"
  "coming E (h\<lparr>hop_world := w\<rparr>) = coming E h"
  by (simp_all add: got_of_def coming_def split: option.split)

lemma got_of_net:
  assumes "got_of (h\<lparr>hop_net := n\<rparr>) = got_of h"
  shows "got_of (h\<lparr>hop_world := w, hop_net := n\<rparr>) = got_of h"
    and "coming E (h\<lparr>hop_world := w, hop_net := n\<rparr>) = coming E h"
  using assms by (simp_all add: got_of_def coming_def split: option.splits)

lemma handed_simps [simp]:
  "handed st [] = []" "handed st (ts @ us) = handed st ts @ handed st us"
  "handed st (T_send_in s r # ts) = (if s = st then r # handed st ts else handed st ts)"
  by (simp_all add: handed_def)

lemma frame_handed [simp]: "handed st [T_write_relay_arc s r] = []"
  by (simp add: handed_def)

lemma payload_of_good:
  "protos_ok E \<Longrightarrow> dec (c_relay E) bs = Some r \<Longrightarrow> carries_data E sid d r \<Longrightarrow> payload_of E (Inr bs) = d"
  by (simp add: payload_of_def carries_data_def)

lemma good_on_wire:
  assumes "protos_ok E" and "carries_data E sid d r" and "fits E sid d"
  shows "good_item E sid (Inr (enc (c_relay E) (on_wire E n r)))"
    and "payload_of E (Inr (enc (c_relay E) (on_wire E n r))) = d"
  using assms by (auto simp: good_item_def fits_def payload_of_def carries_data_def)

lemma part_ok_same:
  assumes "session_map w' sid = session_map (hop_world h) sid"
    and "circuit_map w' sid = circuit_map (hop_world h) sid"
    and "poisoned w' Lock_session_map = poisoned (hop_world h) Lock_session_map"
    and "hop_in h = None \<Longrightarrow> q = hop_wire h" and "part_ok sid h"
  shows "part_ok sid (h\<lparr>hop_wire := q, hop_world := w', hop_net := n'\<rparr>)"
  using assms by (auto simp: part_ok_def forwards_def delivers_def split: option.splits)

text \<open>Writing to the stream that leads on, or back while no message is half read, keeps what was read.\<close>

lemma got_of_write:
  assumes "part_ok sid h" and "hop_out h = Some st"
  shows "got_of (h\<lparr>hop_net := (put_got st [] (hop_net h))\<lparr>sub_written := sw\<rparr>\<rparr>) = got_of h"
  using assms by (auto simp: got_of_def part_ok_def put_got_def split: option.splits)

lemma got_of_back:
  assumes "hop_in h = Some st" and "got_of h = []"
  shows "got_of (h\<lparr>hop_net := (put_got st [] (hop_net h))\<lparr>sub_written := sw\<rparr>\<rparr>) = got_of h"
  using assms by (simp add: got_of_def put_got_def)

lemma items_write:
  assumes "hop_out h = Some st" and "out_chan (hop_world h) (ws_stream st) = WrapedData_Data x # q"
    and "got_of (h\<lparr>hop_net := n'\<rparr>) = got_of h"
  shows "mset (items E h) = add_mset (Inr x) (mset (items E (h\<lparr>hop_world :=
      (hop_world h)\<lparr>out_chan := (out_chan (hop_world h))(ws_stream st := q)\<rparr>, hop_net := n'\<rparr>)))"
  using assms(1,2) by (simp add: items_def arrived_def read_ahead_def leaving_def got_of_net [OF assms(3)] split: option.split)

lemma items_wire:
  assumes "read_one_ok E" and "wire_ok E (got_of g) (hop_wire g)" and "length x \<le> READ_LIMIT"
  shows "mset (items E (g\<lparr>hop_wire := hop_wire g @ len_prefixed E x\<rparr>)) = add_mset (Inr x) (mset (items E g))"
proof -
  have "coming E (g\<lparr>hop_wire := hop_wire g @ len_prefixed E x\<rparr>) = coming E g @ [x]"
    using wire_write(2) [OF assms] by (simp add: coming_def)
  then show ?thesis by (simp add: items_def arrived_def read_ahead_def leaving_def split: option.split)
qed

text \<open>A byte is taken off the wire: it is part of the first message, or completes it.\<close>

lemma byte_read:
  assumes "read_one_ok E" and "wire_ok E (got_of h) (hop_wire h)" and "hop_in h = Some st"
    and "hop_wire h = byte # q"
  obtains (part) "start_poll E st (Poll_byte byte) (hop_world h, hop_net h) =
        Some (Loop_continue, hop_world h, put_got st (got_of h @ [byte]) (hop_net h))"
      "wire_ok E (got_of h @ [byte]) q"
  | (message) m where "start_poll E st (Poll_byte byte) (hop_world h, hop_net h) =
        Some (read_arm st (Inr m) (hop_world h, put_got st [] (hop_net h)))"
      "wire_ok E [] q" "coming E h = m # frames_of E q"
proof -
  have g: "got_of h = sub_got (hop_net h) (ws_stream st)" using assms(3) by (simp add: got_of_def)
  show ?thesis
    using assms(1) assms(2) [unfolded assms(4)]
  proof (cases rule: wire_byte)
    case part
    then show ?thesis using that(1) by (simp add: poll_byte g)
  next
    case (message m)
    then show ?thesis using that(2) [of m] assms(4) by (simp add: poll_byte g coming_def)
  qed
qed

lemma items_part:
  assumes "hop_in h = Some st" and "hop_wire h = byte # q"
  shows "items E (h\<lparr>hop_wire := q, hop_world := hop_world h, hop_net := put_got st (got_of h @ [byte]) (hop_net h)\<rparr>) = items E h"
  using assms by (simp add: items_def coming_def got_of_def arrived_def read_ahead_def leaving_def split: option.split)

lemma items_message:
  assumes "hop_in h = Some st" and "coming E h = m # frames_of E q"
  shows "mset (items E (h\<lparr>hop_wire := q,
      hop_world := (hop_world h)\<lparr>spawned := spawned (hop_world h) @ [T_send_in st (Inr m)]\<rparr>,
      hop_net := put_got st [] (hop_net h)\<rparr>)) = mset (items E h)"
proof -
  have "coming E (h\<lparr>hop_wire := q, hop_world := w, hop_net := put_got st [] (hop_net h)\<rparr>) = frames_of E q" for w
    using assms(1) by (simp add: coming_def got_of_def)
  with assms show ?thesis
    by (simp add: items_def arrived_def read_ahead_def leaving_def split: option.split)
qed

lemma items_hand:
  assumes "hop_in h = Some st" and "spawned (hop_world h) = ts @ T_send_in st r # us"
  shows "mset (items E (h\<lparr>hop_world := push_in st r ((hop_world h)\<lparr>spawned := ts @ us\<rparr>)\<rparr>)) = mset (items E h)"
  using assms by (simp add: items_def arrived_def read_ahead_def leaving_def push_in_def split: option.split)

lemma items_forward:
  assumes "hop_in h = Some st" and "hop_out h = Some other"
    and "in_chan (hop_world h) (ws_stream st) = x # q"
  shows "add_mset x (mset (items E (h\<lparr>hop_world := sent_relay E other r
      ((hop_world h)\<lparr>in_chan := (in_chan (hop_world h))(ws_stream st := q)\<rparr>)\<rparr>))) =
    add_mset (Inr (enc (c_relay E) (on_wire E (draws (hop_world h)) r))) (mset (items E h))"
  using assms by (simp add: items_def arrived_def read_ahead_def leaving_def out_chan_sent_relay)

lemma items_deliver:
  assumes "hop_in h = Some st" and "hop_out h = None" and "in_chan (hop_world h) (ws_stream st) = x # q"
  shows "add_mset x (mset (items E (h\<lparr>hop_world := conn_push c d
      ((hop_world h)\<lparr>in_chan := (in_chan (hop_world h))(ws_stream st := q)\<rparr>)\<rparr>))) = mset (items E h)"
  using assms by (simp add: items_def arrived_def read_ahead_def leaving_def conn_push_def)

lemma items_send:
  assumes "hop_in h = None" and "hop_out h = Some st"
  shows "mset (items E (h\<lparr>hop_world := sent_relay E st r (hop_world h)\<rparr>)) =
    add_mset (Inr (enc (c_relay E) (on_wire E (draws (hop_world h)) r))) (mset (items E h))"
  using assms by (simp add: items_def arrived_def read_ahead_def leaving_def out_chan_sent_relay)

section \<open>Steps of the circuit\<close>

lemma row_out:
  "row (map ends (a @ h # b)) \<Longrightarrow> hop_out h = None \<longleftrightarrow> b = []"
proof (induction a)
  case Nil
  then show ?case by (cases b) (auto simp: ends_def)
next
  case (Cons g a)
  then show ?case by (cases a) (auto simp: ends_def)
qed

lemma circuit_ok_local:
  assumes "circuit_ok E sid (a @ h # b)" and "ends h' = ends h" and "hop_ok E sid h'"
  shows "circuit_ok E sid (a @ h' # b)"
  using assms by (cases a) (auto simp: circuit_ok_def ends_def)

lemma inbox_app: "inbox sid (a @ h # b) = (if b = [] then conn_inbox sid (hop_world h) else inbox sid b)"
  by (simp add: inbox_def)

lemma row_in: "row (map ends (a @ h # g # b)) \<Longrightarrow> hop_in g \<noteq> None"
proof (induction a)
  case (Cons x a)
  then show ?case by (cases a) auto
qed (simp add: ends_def)

lemma hop_ok_more:
  assumes "hop_ok E sid h" and "good_item E sid y" and "part_ok sid h'" and "wire_ok E (got_of h') (hop_wire h')"
    and "mset (items E h') = add_mset y (mset (items E h))"
  shows "hop_ok E sid h'"
  using assms by (metis (no_types) hop_ok_def insert_iff set_mset_add_mset_insert set_mset_mset)

lemma hop_ok_less:
  assumes "hop_ok E sid h" and "part_ok sid h'" and "wire_ok E (got_of h') (hop_wire h')"
    and "mset (items E h) = add_mset y (mset (items E h'))"
  shows "hop_ok E sid h'" and "good_item E sid y"
  using assms by (metis (no_types) hop_ok_def insert_iff set_mset_add_mset_insert set_mset_mset)+

definition channel_of :: "ext \<Rightarrow> string \<Rightarrow> hop list \<Rightarrow> bytes multiset \<times> bytes list" where
  "channel_of E sid hs = (in_transit E hs, inbox sid hs)"

definition channel_inv :: "ext \<Rightarrow> string \<Rightarrow> hop list \<Rightarrow> bool" where
  "channel_inv E sid hs \<longleftrightarrow> protos_ok E \<and> alloc_exact E \<and> read_one_ok E \<and> circuit_ok E sid hs"

text \<open>A step of one node that moves what is there without handing it to the connection.\<close>

lemma sim_local:
  assumes "circuit_ok E sid (a @ h # b)" and "ends h' = ends h" and "part_ok sid h'"
    and "mset (items E h') = mset (items E h)" and "wire_ok E (got_of h') (hop_wire h')"
    and "b = [] \<Longrightarrow> conn_inbox sid (hop_world h') = conn_inbox sid (hop_world h)"
  shows "circuit_ok E sid (a @ h' # b) \<and> channel_of E sid (a @ h' # b) = channel_of E sid (a @ h # b)"
proof -
  have "hop_ok E sid h" using assms(1) by (simp add: circuit_ok_def)
  moreover have "set (items E h') = set (items E h)" using assms(4) by (rule mset_eq_setD)
  ultimately have "hop_ok E sid h'" using assms(3,5) by (simp add: hop_ok_def)
  with assms show ?thesis
    by (auto simp: channel_of_def inbox_app intro: circuit_ok_local)
qed

lemma sim_send:
  assumes "channel_inv E sid (h # b)" and "hop_out h = Some st" and "p \<noteq> []" and "fits E sid (frame16 p)"
    and "run (write_payload_arc E st p (length p) sid) (hop_world h) = Done () w'"
  shows "circuit_ok E sid (h\<lparr>hop_world := w'\<rparr> # b) \<and>
    bag_step (channel_of E sid (h # b)) (Some (Chan_send (frame16 p))) (channel_of E sid (h\<lparr>hop_world := w'\<rparr> # b))"
proof -
  let ?r = "relay_of Relaytype_Data (enc (c_relay_msg E) \<lparr>rm_session_id = sid, rm_data = frame16 p\<rparr>)"
  let ?h = "h\<lparr>hop_world := sent_relay E st ?r (hop_world h)\<rparr>"
  have ok: "protos_ok E" "alloc_exact E" "circuit_ok E sid ([] @ h # b)"
    using assms(1) by (simp_all add: channel_inv_def)
  have h: "hop_in h = None" "hop_ok E sid h" using ok(3) by (simp_all add: circuit_ok_def)
  have b: "b \<noteq> []" using ok(3) row_out [of "[]" h b] assms(2) by (auto simp: circuit_ok_def)
  have w: "w' = sent_relay E st ?r (hop_world h)"
    using run_write_payload_arc [OF ok(2) assms(3), of st sid "hop_world h"] assms(5) by simp
  have c: "carries_data E sid (frame16 p) ?r" by (simp add: carries_data_def relay_of_def)
  note g = good_on_wire [OF ok(1) c assms(4), of "draws (hop_world h)"]
  note i = items_send [OF h(1) assms(2), of E ?r]
  have "part_ok sid ?h"
    using part_ok_same [of "sent_relay E st ?r (hop_world h)" sid h "hop_wire h" "hop_net h"] h(2)
    by (simp add: hop_ok_def)
  then have "hop_ok E sid ?h" by (rule hop_ok_more [OF h(2) g(1) _ _ i]) (use h(2) in \<open>simp add: hop_ok_def\<close>)
  then have "circuit_ok E sid ([] @ ?h # b)"
    using ok(3) by (rule circuit_ok_local [rotated 2]) (simp add: ends_def)
  moreover have "channel_of E sid (?h # b) = (add_mset (frame16 p) (in_transit E (h # b)), inbox sid (h # b))"
    using b by (simp add: channel_of_def i g(2) inbox_def)
  ultimately show ?thesis unfolding w by (auto simp: channel_of_def intro: bag_send)
qed

lemma sim_write:
  assumes "channel_inv E sid (a @ h # g # b)" and "hop_out h = Some st"
    and "start_poll E st (Poll_next True) (hop_world h, hop_net h) = Some (Loop_continue, w', n')"
  defines "hs \<equiv> a @ h\<lparr>hop_world := w', hop_net := n'\<rparr> #
       g\<lparr>hop_wire := hop_wire g @ len_prefixed E (last (sub_written n' (ws_stream st)))\<rparr> # b"
  shows "circuit_ok E sid hs \<and> channel_of E sid hs = channel_of E sid (a @ h # g # b)"
proof -
  have ok: "circuit_ok E sid (a @ h # g # b)" "hop_ok E sid h" "hop_ok E sid g" "read_one_ok E"
    using assms(1) by (simp_all add: channel_inv_def circuit_ok_def)
  obtain x q where x: "out_chan (hop_world h) (ws_stream st) = WrapedData_Data x # q"
    "w' = (hop_world h)\<lparr>out_chan := (out_chan (hop_world h))(ws_stream st := q)\<rparr>"
    "last (sub_written n' (ws_stream st)) = x" and n: "got_of (h\<lparr>hop_net := n'\<rparr>) = got_of h"
    using assms(3) ok(2) got_of_write [OF _ assms(2)] by (auto simp: poll_next hop_ok_def)
  let ?h = "h\<lparr>hop_world := w', hop_net := n'\<rparr>"
  let ?g = "g\<lparr>hop_wire := hop_wire g @ len_prefixed E x\<rparr>"
  have gin: "hop_in g \<noteq> None" using ok(1) row_in [of a h g b] by (simp add: circuit_ok_def)
  have i: "mset (items E h) = add_mset (Inr x) (mset (items E ?h))"
    using items_write [OF assms(2) x(1) n] x(2) by simp
  have p: "part_ok sid ?h"
    using part_ok_same [of w' sid h "hop_wire h" n'] x(2) ok(2) by (simp add: hop_ok_def)
  have "wire_ok E (got_of ?h) (hop_wire ?h)" using ok(2) by (simp add: hop_ok_def got_of_net [OF n])
  note h = hop_ok_less [OF ok(2) p this i]
  have l: "length x \<le> READ_LIMIT" "wire_ok E (got_of g) (hop_wire g)"
    using h(2) ok(3) by (auto simp: good_item_def hop_ok_def)
  note ig = items_wire [OF ok(4) l(2,1)]
  have 1: "circuit_ok E sid (a @ ?h # g # b)"
    by (rule circuit_ok_local [OF ok(1) _ h(1)]) (simp add: ends_def)
  have "part_ok sid ?g" using ok(3) gin by (auto simp: hop_ok_def part_ok_def split: option.splits)
  then have "hop_ok E sid ?g"
    by (rule hop_ok_more [OF ok(3) h(2) _ _ ig]) (use wire_write(1) [OF ok(4) l(2,1)] in simp)
  then have "circuit_ok E sid ((a @ [?h]) @ ?g # b)"
    using circuit_ok_local [of E sid "a @ [?h]" g b ?g] 1 by (simp add: ends_def)
  moreover have "channel_of E sid (a @ ?h # ?g # b) = channel_of E sid (a @ h # g # b)"
    unfolding channel_of_def in_transit_app ig i by (simp add: inbox_def)
  ultimately show ?thesis by (simp add: hs_def x(3))
qed

lemma sim_read:
  assumes "channel_inv E sid (a @ h # b)" and "hop_in h = Some st" and "hop_wire h = byte # q"
    and "start_poll E st (Poll_byte byte) (hop_world h, hop_net h) = Some (Loop_continue, w', n')"
  defines "h' \<equiv> h\<lparr>hop_wire := q, hop_world := w', hop_net := n'\<rparr>"
  shows "circuit_ok E sid (a @ h' # b) \<and> channel_of E sid (a @ h' # b) = channel_of E sid (a @ h # b)"
proof -
  have ok: "circuit_ok E sid (a @ h # b)" "part_ok sid h" "read_one_ok E" "wire_ok E (got_of h) (hop_wire h)"
    using assms(1) by (simp_all add: channel_inv_def circuit_ok_def hop_ok_def)
  have g: "got_of h' = sub_got n' (ws_stream st)" using assms(2) by (simp add: got_of_def h'_def)
  have "(\<exists>ts. w' = (hop_world h)\<lparr>spawned := ts\<rparr>) \<and> mset (items E h') = mset (items E h) \<and> wire_ok E (got_of h') q"
    using ok(3,4) assms(2,3)
  proof (cases rule: byte_read)
    case part
    then have "w' = hop_world h" "n' = put_got st (got_of h @ [byte]) (hop_net h)" using assms(4) by simp_all
    with part(2) items_part [OF assms(2,3), of E] show ?thesis
      unfolding g by (auto simp: h'_def intro: exI [of _ "spawned (hop_world h)"])
  next
    case (message m)
    then have "w' = (hop_world h)\<lparr>spawned := spawned (hop_world h) @ [T_send_in st (Inr m)]\<rparr>"
      "n' = put_got st [] (hop_net h)"
      using assms(4) by (auto simp: read_arm_def split: if_splits)
    with message(2) items_message [OF assms(2) message(3)] show ?thesis unfolding g by (auto simp: h'_def)
  qed
  then obtain ts where s: "w' = (hop_world h)\<lparr>spawned := ts\<rparr>" "mset (items E h') = mset (items E h)"
    "wire_ok E (got_of h') (hop_wire h')" by (auto simp: h'_def)
  show ?thesis
  proof (rule sim_local [OF ok(1) _ _ s(2,3)])
    show "part_ok sid h'" unfolding h'_def using ok(2) assms(2) by (intro part_ok_same) (simp_all add: s(1))
  qed (simp_all add: h'_def ends_def s(1) conn_inbox_def split: option.split)
qed

lemma sim_hand:
  assumes "channel_inv E sid (a @ h # b)" and "hop_in h = Some st"
    and "spawned (hop_world h) = ts @ T_send_in st r # us"
    and "run (body E (T_send_in st r)) ((hop_world h)\<lparr>spawned := ts @ us\<rparr>) = Done None w'"
  shows "circuit_ok E sid (a @ h\<lparr>hop_world := w'\<rparr> # b) \<and>
    channel_of E sid (a @ h\<lparr>hop_world := w'\<rparr> # b) = channel_of E sid (a @ h # b)"
proof (rule sim_local)
  have w: "w' = push_in st r ((hop_world h)\<lparr>spawned := ts @ us\<rparr>)"
    using assms(4) by (simp add: run_simps)
  show "circuit_ok E sid (a @ h # b)" using assms(1) by (simp add: channel_inv_def)
  then have "part_ok sid h" by (simp add: circuit_ok_def hop_ok_def)
  then show "part_ok sid (h\<lparr>hop_world := w'\<rparr>)"
    using part_ok_same [of w' sid h "hop_wire h" "hop_net h"] by (simp add: w push_in_def)
  show "mset (items E (h\<lparr>hop_world := w'\<rparr>)) = mset (items E h)"
    unfolding w by (rule items_hand [OF assms(2,3)])
  show "wire_ok E (got_of (h\<lparr>hop_world := w'\<rparr>)) (hop_wire (h\<lparr>hop_world := w'\<rparr>))"
    using \<open>circuit_ok E sid (a @ h # b)\<close> by (simp add: circuit_ok_def hop_ok_def)
  show "conn_inbox sid (hop_world (h\<lparr>hop_world := w'\<rparr>)) = conn_inbox sid (hop_world h)"
    by (simp add: w push_in_def conn_inbox_def split: option.split)
qed (simp add: ends_def)

lemma sim_other:
  assumes "channel_inv E sid (a @ h # b)" and "undisturbed sid h w' n'"
    and h'_def: "h' = h\<lparr>hop_world := w', hop_net := n'\<rparr>"
  shows "circuit_ok E sid (a @ h' # b) \<and> channel_of E sid (a @ h' # b) = channel_of E sid (a @ h # b)"
proof (rule sim_local)
  show "circuit_ok E sid (a @ h # b)" using assms(1) by (simp add: channel_inv_def)
  then have "part_ok sid h" by (simp add: circuit_ok_def hop_ok_def)
  then show "part_ok sid h'"
    using part_ok_same [of w' sid h "hop_wire h" n'] assms(2) by (simp add: undisturbed_def h'_def)
  have n: "got_of (h\<lparr>hop_net := n'\<rparr>) = got_of h" using assms(2) by (simp add: undisturbed_def)
  show "wire_ok E (got_of h') (hop_wire h')"
    using \<open>circuit_ok E sid (a @ h # b)\<close> by (simp add: circuit_ok_def hop_ok_def h'_def got_of_net [OF n])
  have "items E h' = items E h"
    using assms(2)
    by (simp add: undisturbed_def h'_def items_def arrived_def read_ahead_def leaving_def got_of_net [OF n]
        split: option.splits)
  then show "mset (items E h') = mset (items E h)" by (rule arg_cong)
  show "conn_inbox sid (hop_world h') = conn_inbox sid (hop_world h)"
    using assms(2) by (auto simp: undisturbed_def h'_def conn_inbox_def split: option.split)
qed (simp add: ends_def h'_def)

lemma sim_back:
  assumes "channel_inv E sid (a @ h # b)" and "hop_in h = Some st" and "got_of h = []"
    and "start_poll E st (Poll_next True) (hop_world h, hop_net h) = Some (Loop_continue, w', n')"
    and "h' = h\<lparr>hop_world := w', hop_net := n'\<rparr>"
  shows "circuit_ok E sid (a @ h' # b) \<and> channel_of E sid (a @ h' # b) = channel_of E sid (a @ h # b)"
proof (rule sim_other [OF assms(1) _ assms(5)])
  obtain x q sw where s: "w' = (hop_world h)\<lparr>out_chan := (out_chan (hop_world h))(ws_stream st := q)\<rparr>"
    "n' = (put_got st [] (hop_net h))\<lparr>sub_written := sw\<rparr>"
    using assms(4) by (auto simp: poll_next)
  have "part_ok sid h" using assms(1) by (simp add: channel_inv_def circuit_ok_def hop_ok_def)
  then show "undisturbed sid h w' n'"
    using got_of_back [OF assms(2,3)] assms(2)
    by (auto simp: undisturbed_def s arrived_def read_ahead_def leaving_def part_ok_def split: option.splits)
qed

text \<open>
  A round of a handler: the message it takes from its stream is one of those under way, and goes to
  the other stream or to the connection.
\<close>

lemma handler_takes:
  assumes "hop_ok E sid h" and "hop_in h = Some st"
    and "run (relay_event_handler E st (Some sid)) (hop_world h) = Done (Some t) w'"
  obtains bs q d r where "in_chan (hop_world h) (ws_stream st) = Inr bs # q"
    "dec (c_relay E) bs = Some r" "carries_data E sid d r" "fits E sid d"
proof (cases "in_chan (hop_world h) (ws_stream st)")
  case Nil
  then show ?thesis
    using assms(3) by (simp add: relay_event_handler_def read_from_negotiated_arc_def ws_read_def run_simps)
next
  case (Cons x q)
  then have "x \<in> set (items E h)" using assms(2) by (simp add: items_def arrived_def)
  with assms(1) have "good_item E sid x" by (simp add: hop_ok_def)
  with Cons that show ?thesis by (auto simp: good_item_def)
qed

lemma sim_handle:
  assumes "channel_inv E sid (a @ h # b)" and "hop_in h = Some st"
    and "run (relay_event_handler E st (Some sid)) (hop_world h) = Done (Some t) w'"
  shows "circuit_ok E sid (a @ h\<lparr>hop_world := w'\<rparr> # b) \<and>
    (bag_step (channel_of E sid (a @ h # b)) None (channel_of E sid (a @ h\<lparr>hop_world := w'\<rparr> # b)) \<or>
     channel_of E sid (a @ h\<lparr>hop_world := w'\<rparr> # b) = channel_of E sid (a @ h # b))"
proof -
  let ?h = "h\<lparr>hop_world := w'\<rparr>"
  have ok: "protos_ok E" "circuit_ok E sid (a @ h # b)" "hop_ok E sid h" "row (map ends (a @ h # b))"
    using assms(1) unfolding channel_inv_def circuit_ok_def by auto
  obtain bs q d r where m: "in_chan (hop_world h) (ws_stream st) = Inr bs # q"
    "dec (c_relay E) bs = Some r" "carries_data E sid d r" "fits E sid d"
    by (rule handler_takes [OF ok(3) assms(2,3)])
  note pay = payload_of_good [OF ok(1) m(2,3)]
  have e: "ends ?h = ends h" by (simp add: ends_def)
  note d = carries_data_relay [OF ok(1) m(3)]
  show ?thesis
  proof (cases "hop_out h")
    case None
    then have b: "b = []" using row_out [OF ok(4)] by simp
    obtain cc where cc: "delivers sid cc (hop_world h)"
      using ok(3) None assms(2) by (auto simp: hop_ok_def part_ok_def)
    have w: "w' = conn_push (cc_in_channel cc) d ((hop_world h)\<lparr>in_chan := (in_chan (hop_world h))(ws_stream st := q)\<rparr>)"
      using endpoint_round [OF m(2) d cc m(1)] assms(3) by simp
    have i: "mset (items E h) = add_mset (Inr bs) (mset (items E ?h))"
      unfolding w by (rule items_deliver [OF assms(2) None m(1), symmetric])
    have "part_ok sid ?h"
      using part_ok_same [of w' sid h "hop_wire h" "hop_net h"] ok(3) by (simp add: hop_ok_def w conn_push_def)
    from hop_ok_less(1) [OF ok(3) this _ i] ok(3) have "circuit_ok E sid (a @ ?h # b)"
      by (intro circuit_ok_local [OF ok(2) e]) (simp add: hop_ok_def)
    moreover have "inbox sid (a @ ?h # b) = inbox sid (a @ h # b) @ [d]"
      using cc b by (simp add: inbox_app conn_inbox_def delivers_def w conn_push_def)
    moreover have "in_transit E (a @ h # b) = add_mset d (in_transit E (a @ ?h # b))"
      unfolding in_transit_app i by (simp add: pay)
    ultimately show ?thesis by (simp add: channel_of_def bag_deliver)
  next
    case (Some other)
    then have b: "b \<noteq> []" using row_out [OF ok(4)] by simp
    have f: "forwards sid st other (hop_world h)"
      using ok(3) Some assms(2) by (simp add: hop_ok_def part_ok_def)
    have w: "w' = sent_relay E other r ((hop_world h)\<lparr>in_chan := (in_chan (hop_world h))(ws_stream st := q)\<rparr>)"
      using forwarder_round [OF m(2) d f m(1)] assms(3) by simp
    let ?x = "Inr (enc (c_relay E) (on_wire E (draws (hop_world h)) r))"
    have i: "add_mset (Inr bs) (mset (items E ?h)) = add_mset ?x (mset (items E h))"
      unfolding w by (rule items_forward [OF assms(2) Some m(1)])
    note g = good_on_wire [OF ok(1) m(3,4), of "draws (hop_world h)"]
    have "part_ok sid ?h"
      using part_ok_same [of w' sid h "hop_wire h" "hop_net h"] ok(3) by (simp add: hop_ok_def w)
    moreover have "set (items E ?h) \<subseteq> insert ?x (set (items E h))"
      using i by (metis set_mset_add_mset_insert set_mset_mset subset_insertI)
    ultimately have "hop_ok E sid ?h" using ok(3) g(1) by (simp add: hop_ok_def) blast
    then have "circuit_ok E sid (a @ ?h # b)" by (rule circuit_ok_local [OF ok(2) e])
    moreover have "image_mset (payload_of E) (mset (items E ?h)) = image_mset (payload_of E) (mset (items E h))"
      using arg_cong [OF i, of "image_mset (payload_of E)"] pay g(2) by simp
    ultimately show ?thesis using b by (simp add: channel_of_def inbox_app)
  qed
qed

lemma sim_recv:
  assumes "channel_inv E sid (a @ [h])" and "circuit_map (hop_world h) sid = Some cc"
    and "run (conn_recv (cc_in_channel cc)) (hop_world h) = Done d w'"
  shows "circuit_ok E sid (a @ [h\<lparr>hop_world := w'\<rparr>]) \<and>
    bag_step (channel_of E sid (a @ [h])) (Some (Chan_recv d)) (channel_of E sid (a @ [h\<lparr>hop_world := w'\<rparr>]))"
proof -
  let ?h = "h\<lparr>hop_world := w'\<rparr>"
  obtain D where D: "conn_chan (hop_world h) (cc_in_channel cc) = d # D"
    "w' = (hop_world h)\<lparr>conn_chan := (conn_chan (hop_world h))(cc_in_channel cc := D)\<rparr>"
    using assms(3) by (cases "conn_chan (hop_world h) (cc_in_channel cc)") (auto simp: conn_recv_def run_simps)
  have ok: "circuit_ok E sid (a @ h # [])" "hop_ok E sid h"
    using assms(1) by (simp_all add: channel_inv_def circuit_ok_def)
  have i: "items E ?h = items E h"
    by (simp add: items_def arrived_def read_ahead_def leaving_def D(2) split: option.split)
  have "part_ok sid ?h"
    using part_ok_same [of w' sid h "hop_wire h" "hop_net h"] ok(2) by (simp add: hop_ok_def D(2))
  with i ok(2) have "hop_ok E sid ?h" by (simp add: hop_ok_def)
  then have "circuit_ok E sid (a @ ?h # [])" using ok(1) by (rule circuit_ok_local [rotated 2]) (simp add: ends_def)
  moreover have "inbox sid (a @ [h]) = d # inbox sid (a @ [?h])"
    using assms(2) D by (simp add: inbox_def conn_inbox_def)
  ultimately show ?thesis by (simp add: channel_of_def i bag_recv)
qed

interpretation circuit: refinement "whole_step E sid" bag_step "channel_inv E sid" "channel_of E sid" for E sid
proof -
  have "circuit_ok E sid d \<and> (bag_step (channel_of E sid c) l (channel_of E sid d) \<or>
      l = None \<and> channel_of E sid d = channel_of E sid c)"
    if "channel_inv E sid c" "circuit_step E sid c l d" "l \<noteq> Some Chan_cut" for c l d
    using that(2,1,3)
    by cases (auto dest: sim_send sim_write sim_read sim_back sim_hand sim_handle sim_recv sim_other split: if_splits)
  then show "refinement (whole_step E sid) bag_step (channel_inv E sid) (channel_of E sid)"
    by unfold_locales (auto simp: channel_inv_def whole_step_def)
qed

section \<open>Everything arrives\<close>

text \<open>
  How far what is under way still has to go. Every step of the circuit's own brings some message
  nearer, or takes a byte off a wire.
\<close>

definition weight :: "ext \<Rightarrow> nat \<Rightarrow> hop \<Rightarrow> nat" where
  "weight E k h = 4 * k * length (items E h) + length (arrived h) + 2 * length (read_ahead h) +
     3 * length (coming E h)"

fun distance :: "ext \<Rightarrow> hop list \<Rightarrow> nat" where
  "distance E [] = 0"
| "distance E (h # hs) = weight E (Suc (length hs)) h + distance E hs"

definition wire_length :: "hop list \<Rightarrow> nat" where
  "wire_length hs = (\<Sum>h\<leftarrow>hs. length (hop_wire h))"

definition closer :: "ext \<Rightarrow> hop list \<Rightarrow> hop list \<Rightarrow> bool" where
  "closer E gs hs \<longleftrightarrow> distance E gs < distance E hs \<or>
     distance E gs = distance E hs \<and> wire_length gs < wire_length hs"

lemma closer_local:
  assumes "length b' = length b" and "closer E b' b"
  shows "closer E (a @ b') (a @ b)"
proof -
  have "distance E (a @ b') + distance E b = distance E (a @ b) + distance E b'"
    using assms(1) by (induction a) auto
  with assms(2) show ?thesis by (auto simp: closer_def wire_length_def)
qed

definition nearer :: "ext \<Rightarrow> string \<Rightarrow> hop list \<Rightarrow> bool" where
  "nearer E sid hs \<longleftrightarrow> (\<exists>gs. circuit_step E sid hs None gs \<and> closer E gs hs)"

lemma nearerI:
  assumes "circuit_step E sid (a @ b) None (a @ b')" and "length b' = length b" and "distance E b' < distance E b"
  shows "nearer E sid (a @ b)"
  using assms closer_local [OF assms(2), of E a] by (auto simp: nearer_def closer_def)

lemma nearer_wire:
  assumes "read_one_ok E" and "hop_ok E sid h" and "coming E h \<noteq> []"
  shows "nearer E sid (a @ h # b)"
proof -
  have ok: "wire_ok E (got_of h) (hop_wire h)" "part_ok sid h" using assms(2) by (simp_all add: hop_ok_def)
  obtain byte q where q: "hop_wire h = byte # q"
    using wire_more [OF assms(1) ok(1)] assms(3) by (auto simp: coming_def neq_Nil_conv)
  then obtain st where st: "hop_in h = Some st"
    using ok(2) by (auto simp: part_ok_def split: option.splits)
  show ?thesis
    using assms(1) ok(1) st q
  proof (cases rule: byte_read)
    case part
    let ?h = "h\<lparr>hop_wire := q, hop_world := hop_world h, hop_net := put_got st (got_of h @ [byte]) (hop_net h)\<rparr>"
    have "coming E ?h = coming E h" using st q by (simp add: coming_def got_of_def)
    then have "weight E k ?h = weight E k h" for k
      using items_part [OF st q, of E]
      by (simp add: weight_def arrived_def read_ahead_def split: option.split)
    then have "closer E (?h # b) (h # b)" by (simp add: closer_def wire_length_def q)
    from closer_local [OF _ this, of a] cs_read [OF st q part(1), of sid a b] show ?thesis
      by (auto simp: nearer_def)
  next
    case (message m)
    have "good_item E sid (Inr m)" using assms(2) message(3) by (simp add: hop_ok_def items_def)
    then have "start_poll E st (Poll_byte byte) (hop_world h, hop_net h) = Some (Loop_continue,
        (hop_world h)\<lparr>spawned := spawned (hop_world h) @ [T_send_in st (Inr m)]\<rparr>, put_got st [] (hop_net h))"
      using message(1) by (auto simp: good_item_def read_arm_def)
    note s = cs_read [OF st q this, of sid a b]
    let ?h = "h\<lparr>hop_wire := q, hop_world := (hop_world h)\<lparr>spawned := spawned (hop_world h) @ [T_send_in st (Inr m)]\<rparr>,
      hop_net := put_got st [] (hop_net h)\<rparr>"
    have "coming E ?h = frames_of E q" using st by (simp add: coming_def got_of_def)
    moreover have "length (items E ?h) = length (items E h)"
      using items_message [OF st message(3)] by (metis size_mset)
    ultimately have "weight E k ?h < weight E k h" for k
      using message(3) by (simp add: weight_def arrived_def read_ahead_def st)
    with s show ?thesis by (auto intro!: nearerI [OF s])
  qed
qed

lemma handed_split: "handed st ts \<noteq> [] \<Longrightarrow> \<exists>us r vs. ts = us @ T_send_in st r # vs"
proof (induction ts)
  case (Cons t ts)
  show ?case
  proof (cases "\<exists>r. t = T_send_in st r")
    case True
    then show ?thesis by (metis append_Nil)
  next
    case False
    then have "handed st (t # ts) = handed st ts" by (cases t) (auto simp: handed_def)
    with Cons show ?thesis by (metis append_Cons)
  qed
qed simp

lemma nearer_read_ahead:
  assumes "read_ahead h \<noteq> []"
  shows "nearer E sid (a @ h # b)"
proof -
  obtain st where st: "hop_in h = Some st" using assms by (auto simp: read_ahead_def split: option.splits)
  then obtain us r vs where t: "spawned (hop_world h) = us @ T_send_in st r # vs"
    using assms handed_split [of st "spawned (hop_world h)"] by (auto simp: read_ahead_def)
  have "run (body E (T_send_in st r)) ((hop_world h)\<lparr>spawned := us @ vs\<rparr>) =
      Done None (push_in st r ((hop_world h)\<lparr>spawned := us @ vs\<rparr>))"
    by (simp add: run_simps)
  from cs_hand [OF st t this] show ?thesis
    by (rule nearerI)
      (simp_all add: weight_def items_def arrived_def read_ahead_def leaving_def st t push_in_def split: option.split)
qed

lemma nearer_arrived:
  assumes "protos_ok E" and "hop_ok E sid h" and "arrived h \<noteq> []"
  shows "nearer E sid (a @ h # b)"
proof -
  obtain st x q where st: "hop_in h = Some st" "in_chan (hop_world h) (ws_stream st) = x # q"
    using assms(3) by (auto simp: arrived_def neq_Nil_conv split: option.splits)
  then have "good_item E sid x" using assms(2) by (simp add: hop_ok_def items_def arrived_def)
  then obtain bs d r where m: "x = Inr bs" "dec (c_relay E) bs = Some r" "carries_data E sid d r"
    by (auto simp: good_item_def)
  note c = st(2) [unfolded m(1)] and dr = carries_data_relay [OF assms(1) m(3)]
  show ?thesis
  proof (cases "hop_out h")
    case None
    then obtain cc where cc: "delivers sid cc (hop_world h)"
      using assms(2) st(1) by (auto simp: hop_ok_def part_ok_def)
    from cs_handle [OF st(1) endpoint_round [OF m(2) dr cc c]] show ?thesis
      by (rule nearerI)
        (simp_all add: weight_def items_def arrived_def read_ahead_def leaving_def st None conn_push_def)
  next
    case (Some other)
    then have f: "forwards sid st other (hop_world h)"
      using assms(2) st(1) by (simp add: hop_ok_def part_ok_def)
    from cs_handle [OF st(1) forwarder_round [OF m(2) dr f c]] show ?thesis
      by (rule nearerI)
        (simp_all add: weight_def items_def arrived_def read_ahead_def leaving_def st Some out_chan_sent_relay)
  qed
qed

lemma nearer_leaving:
  assumes "channel_inv E sid (a @ h # b)" and "leaving h \<noteq> []"
  shows "nearer E sid (a @ h # b)"
proof -
  have ok: "hop_ok E sid h" "row (map ends (a @ h # b))" "read_one_ok E" "\<forall>g \<in> set b. hop_ok E sid g"
    using assms(1) unfolding channel_inv_def circuit_ok_def by auto
  obtain st x q where st: "hop_out h = Some st" "out_chan (hop_world h) (ws_stream st) = x # q"
    using assms(2) by (auto simp: leaving_def neq_Nil_conv split: option.splits)
  then have "good_item E sid (out_item x)" using ok(1) by (simp add: hop_ok_def items_def leaving_def)
  then obtain bs where x: "x = WrapedData_Data bs" "length bs \<le> READ_LIMIT" by (cases x) (auto simp: good_item_def)
  obtain g c where b: "b = g # c" using row_out [OF ok(2)] st(1) by (cases b) auto
  let ?w = "(hop_world h)\<lparr>out_chan := (out_chan (hop_world h))(ws_stream st := q)\<rparr>"
  let ?n = "(put_got st [] (hop_net h))\<lparr>sub_written := (sub_written (hop_net h))
      (ws_stream st := sub_written (hop_net h) (ws_stream st) @ [bs])\<rparr>"
  have "start_poll E st (Poll_next True) (hop_world h, hop_net h) = Some (Loop_continue, ?w, ?n)"
    using st(2) x(1) by (simp add: poll_next)
  note s = cs_write [OF st(1) this, of sid a g c]
  have n: "got_of (h\<lparr>hop_net := ?n\<rparr>) = got_of h"
    using ok(1) st(1) by (intro got_of_write [of sid]) (simp_all add: hop_ok_def)
  have "wire_ok E (got_of g) (hop_wire g)" using ok(4) b by (simp add: hop_ok_def)
  from wire_write(2) [OF ok(3) this x(2)]
  have g: "coming E (g\<lparr>hop_wire := hop_wire g @ len_prefixed E bs\<rparr>) = coming E g @ [bs]" by (simp add: coming_def)
  show ?thesis
    unfolding b
    by (rule nearerI [OF s])
      (simp_all add: weight_def items_def arrived_def read_ahead_def leaving_def st g got_of_net [OF n] split: option.split)
qed

lemma progress:
  assumes "channel_inv E sid hs" and "in_transit E hs \<noteq> {#}"
  shows "nearer E sid hs"
proof -
  have "\<exists>h \<in> set hs. items E h \<noteq> []" using assms(2) by (induction hs) auto
  then obtain a h b where h: "hs = a @ h # b" "items E h \<noteq> []" by (metis split_list)
  then have ok: "protos_ok E" "hop_ok E sid h" "read_one_ok E"
    using assms(1) unfolding channel_inv_def circuit_ok_def by auto
  from h(2) consider "coming E h \<noteq> []" | "read_ahead h \<noteq> []" | "arrived h \<noteq> []" | "leaving h \<noteq> []"
    by (auto simp: items_def)
  then show ?thesis
    unfolding h(1) using nearer_wire [OF ok(3,2)] nearer_read_ahead nearer_arrived [OF ok(1,2)]
      nearer_leaving [OF assms(1) [unfolded h(1)]]
    by cases auto
qed

lemma trace_silent_first: "step c None d \<Longrightarrow> trace step d ls e \<Longrightarrow> trace step c ls e"
proof (rotate_tac, induction rule: trace.induct)
  case (trace_refl c)
  then show ?case by (auto intro: trace.intros)
qed (auto intro: trace.intros)

lemma drains: "channel_inv E sid hs \<Longrightarrow> \<exists>gs. trace (circuit_step E sid) hs [] gs \<and> in_transit E gs = {#}"
proof (induction "(distance E hs, wire_length hs)" arbitrary: hs
    rule: wf_induct_rule [OF wf_lex_prod [OF wf_less_than wf_less_than]])
  case less: 1
  show ?case
  proof (cases "in_transit E hs = {#}")
    case False
    then obtain gs where g: "circuit_step E sid hs None gs" "closer E gs hs"
      using progress [OF less.prems] by (auto simp: nearer_def)
    have "channel_inv E sid gs"
      by (rule circuit.keeps_inv [OF less.prems, of None]) (simp add: whole_step_def g(1))
    with less.hyps [of gs] g show ?thesis
      by (auto simp: closer_def intro: trace_silent_first)
  qed (blast intro: trace_refl)
qed

end
