(* ===== verification/Channel_Props.thy ===== *)
theory Channel_Props
  imports Circuit_Channel
begin

text \<open>
  What a circuit promises to its two ends: it refines the abstract channel of \<open>Circuit_Channel\<close>, and
  what was sent arrives.
\<close>

section \<open>A concrete row of nodes\<close>

definition scene_hop :: "session_role \<Rightarrow> wrapped_stream option \<Rightarrow> wrapped_stream option \<Rightarrow> hop" where
  "scene_hop role i j = \<lparr>hop_wire = [], hop_world = scene_node role,
     hop_net = scene_net, hop_in = i, hop_out = j\<rparr>"

definition scene_row :: "hop list" where
  "scene_row =
     [scene_hop CallerRole None (Some (scene_stream 3 ''a'')),
      scene_hop RelayRole (Some (scene_stream 3 ''a'')) (Some (scene_stream 4 ''b'')),
      scene_hop AnswerRole (Some (scene_stream 3 ''a'')) None]"

lemma scene_hop_simps [simp]:
  "hop_wire (scene_hop role i j) = []" "hop_world (scene_hop role i j) = scene_node role"
  "hop_in (scene_hop role i j) = i" "hop_out (scene_hop role i j) = j"
  by (simp_all add: scene_hop_def)

lemma scene_got [simp]: "got_of (scene_hop role i j) = []"
  by (simp add: got_of_def scene_hop_def scene_net_def split: option.split)

lemma scene_items: "read_one_ok E \<Longrightarrow> items E (scene_hop role i j) = []"
  by (simp add: items_def coming_def frames_of_Nil arrived_def read_ahead_def leaving_def scene_defs handed_def
      split: option.split)

lemma scene_row_ok: "read_one_ok E \<Longrightarrow> circuit_ok E ''s1'' scene_row"
  using scene_forwards scene_delivers
  by (auto simp: circuit_ok_def scene_row_def ends_def hop_ok_def scene_items part_ok_def scene_stream_def)

lemma scene_row_empty:
  assumes "read_one_ok E"
  shows "in_transit E scene_row = {#}" "inbox ''s1'' scene_row = []"
proof -
  show "in_transit E scene_row = {#}" using assms by (simp add: scene_row_def scene_items)
  show "inbox ''s1'' scene_row = []"
    by (simp add: scene_row_def inbox_def conn_inbox_def scene_defs)
qed

section \<open>Properties\<close>

text \<open>
  C8: a circuit refines an unordered channel, as long as its streams do not fail, no read is cut
  short, and the data fits the 4096 bytes that a stream reads. Whatever its nodes and their streams
  do under these conditions, in whatever order, a run of a circuit that was empty shows its two ends
  a run of the abstract bag: every message received was sent, unchanged, none is received twice, and
  what was sent and not received is under way or waits in the connection. (A read is cut short when
  the pump of a stream writes while it has read a part of a message, the step \<open>Chan_cut\<close>; the data
  fits by the condition \<open>fits\<close> of a sending step.)
\<close>

theorem circuit_refines_channel:
  assumes "protos_ok E" and "alloc_exact E" and "read_one_ok E" and "circuit_ok E sid hs"
    and "in_transit E hs = {#}" and "inbox sid hs = []"
    and "trace (circuit_step E sid) hs ls gs" and "Chan_cut \<notin> set ls"
  shows "trace bag_step ({#}, []) ls (in_transit E gs, inbox sid gs) \<and>
    mset (concat (map sent_of ls)) =
      mset (concat (map received_of ls)) + in_transit E gs + mset (inbox sid gs)"
proof -
  have "trace bag_step ({#}, []) ls (in_transit E gs, inbox sid gs)"
    using circuit.trace_inclusion [OF trace_whole [OF assms(7,8)]] assms(1-6)
    by (simp add: channel_inv_def channel_of_def)
  with bag_conserves [OF this] show ?thesis by simp
qed

lemma scene_send:
  "\<exists>gs. trace (circuit_step E0 ''s1'') scene_row [Chan_send (frame16 [5, 6])] gs"
proof -
  have "\<exists>w'. run (write_payload_arc E0 (scene_stream 3 ''a'') [5, 6] (length [5 :: byte, 6]) ''s1'') w = Done () w'" for w
    by (simp only: run_write_payload_arc [OF E0_alloc list.distinct(2)]) blast
  then obtain w' where w': "run (write_payload_arc E0 (scene_stream 3 ''a'') [5, 6] (length [5 :: byte, 6]) ''s1'')
      (hop_world (scene_hop CallerRole None (Some (scene_stream 3 ''a'')))) = Done () w'" by blast
  have "fits E0 ''s1'' (frame16 [5, 6])" by (rule E0_fits) (simp add: frame16_def put_u16_def)
  from cs_send [OF _ _ _ this w'] trace_visible [OF trace_refl] show ?thesis
    by (fastforce simp: scene_row_def)
qed

theorem circuit_refines_channel_witness:
  "\<exists>gs. trace (circuit_step E0 ''s1'') scene_row [Chan_send (frame16 [5, 6])] gs \<and>
    trace bag_step ({#}, []) [Chan_send (frame16 [5, 6])] (in_transit E0 gs, inbox ''s1'' gs) \<and>
    mset (concat (map sent_of [Chan_send (frame16 [5, 6])])) =
      mset (concat (map received_of [Chan_send (frame16 [5, 6])])) + in_transit E0 gs + mset (inbox ''s1'' gs)"
proof -
  obtain gs where g: "trace (circuit_step E0 ''s1'') scene_row [Chan_send (frame16 [5, 6])] gs"
    using scene_send by blast
  have "Chan_cut \<notin> set [Chan_send (frame16 [5, 6])]" by simp
  from circuit_refines_channel [OF E0_protos E0_alloc E0_read_one scene_row_ok [OF E0_read_one]
      scene_row_empty [OF E0_read_one] g this] g
  show ?thesis by auto
qed

text \<open>
  C9: what was sent can still arrive. From every state that a circuit reaches while its streams do
  not fail, no read is cut short and the data fits the 4096 bytes that a stream reads, there is a run
  of its own streams and handlers alone, without a cut and without a step of its ends, to a state in
  which nothing is under way, and the connection at the end has got just what was under way, besides
  what it had.
\<close>

theorem circuit_delivers:
  assumes "protos_ok E" and "alloc_exact E" and "read_one_ok E" and "circuit_ok E sid hs"
    and "trace (circuit_step E sid) hs ls gs" and "Chan_cut \<notin> set ls"
  shows "\<exists>fs. trace (circuit_step E sid) gs [] fs \<and> in_transit E fs = {#} \<and>
    mset (inbox sid fs) = mset (inbox sid gs) + in_transit E gs"
proof -
  have i: "channel_inv E sid gs"
    using circuit.trace_inclusion [OF trace_whole [OF assms(5,6)]] assms(1-4) by (simp add: channel_inv_def)
  obtain fs where f: "trace (circuit_step E sid) gs [] fs" "in_transit E fs = {#}"
    using drains [OF i] by blast
  have "trace bag_step (channel_of E sid gs) [] (channel_of E sid fs)"
    using circuit.trace_inclusion [OF trace_whole [OF f(1)] i] by simp
  from bag_conserves [OF this] f show ?thesis
    by (auto simp: channel_of_def add.commute)
qed

theorem circuit_delivers_witness:
  "\<exists>gs fs. trace (circuit_step E0 ''s1'') scene_row [Chan_send (frame16 [5, 6])] gs \<and>
    trace (circuit_step E0 ''s1'') gs [] fs \<and> in_transit E0 fs = {#} \<and>
    mset (inbox ''s1'' fs) = mset (inbox ''s1'' gs) + in_transit E0 gs"
proof -
  obtain gs where g: "trace (circuit_step E0 ''s1'') scene_row [Chan_send (frame16 [5, 6])] gs"
    using scene_send by blast
  have "Chan_cut \<notin> set [Chan_send (frame16 [5, 6])]" by simp
  from circuit_delivers [OF E0_protos E0_alloc E0_read_one scene_row_ok [OF E0_read_one] g this] g show ?thesis by auto
qed

end
