(* ===== verification/Spec2Isabelle.thy ===== *)
theory Spec2Isabelle
  imports Client_Props Races Channel_Props
begin

text \<open>
  WhiteNoise.rs, an overlay network that hides who talks to whom. A client registers with a node,
  its proxy, and dials another client by its WhiteNoise id, which names a public key. The nodes then
  build a circuit: the caller's proxy (the entry) opens a session to a sink, a negotiation that only
  the answerer can read is spread by gossip, the answerer's proxy (the access node) connects to the
  sink through a relay node. Both sides probe the circuit, the sink matches the probes and announces
  success, the two clients run a Noise handshake through the circuit and then exchange encrypted
  messages, which every node on the way pads with random bytes and delays at random.

  \<^bold>\<open>The program and its model.\<close> Paths are under \<open>src/src\<close> unless stated otherwise.

  \<^item> \<open>Prelude\<close>: bytes, words, big-endian integers, lists.
  \<^item> \<open>Async\<close>: the code is a set of tasks that share one node through locks and channels. An
    \<open>async\<close> program is a tree of atomic sections (\<open>Act\<close>, with a guard that it waits for), results
    (\<open>Ret\<close>) and panics (\<open>Panic\<close>); \<open>bind\<close> is sequencing and \<open>.await\<close>. \<open>run\<close> executes one task alone
    until it ends, blocks or panics; \<open>steps_in\<close> and \<open>safe\<close> quantify over everything other tasks may do
    between two sections.
  \<^item> \<open>Externals\<close>: the messages of the \<open>.proto\<close> files, and as fields of one record \<open>ext\<close> all code that
    is not in the repository (encoders that \<open>prost\<close> generates, hashes, base58, random numbers, keys,
    ECIES, the Noise protocol of \<open>snow\<close>, the framing of messages on a socket by \<open>libp2p\<close>). What the
    program relies on is stated as named predicates (\<open>protos_ok\<close>, \<open>rand_ok\<close>, \<open>base58_ok\<close>, \<open>ecies_ok\<close>,
    \<open>noise_paired\<close>, \<open>keys_ok\<close>, \<open>read_one_ok\<close>, ...); \<open>Concrete\<close> holds an instance \<open>E0\<close> that satisfies
    all of them, on which the witnesses run.
  \<^item> \<open>Session\<close>, \<open>Node_State\<close>: \<open>network/session.rs\<close>, \<open>struct Node\<close> of \<open>network/node.rs\<close>. The record
    \<open>world\<close> is what all clones of a \<open>Node\<close> share: tables, queues, channels, which locks are poisoned
    and which loops still serve their channel.
  \<^item> \<open>Framing\<close>, \<open>Utils\<close>, \<open>Substreams\<close>, \<open>Connection\<close>: the length prefixes, \<open>network/utils.rs\<close> over
    wrapped streams and over substreams, \<open>network/connection.rs\<close>.
  \<^item> \<open>Account\<close>: \<open>account/account_service.rs\<close> and \<open>account/key_types.rs\<close>.
  \<^item> \<open>Node_Ops\<close>: the methods of \<open>Node\<close>. \<open>Relay_Handler\<close>: \<open>network/relay_event_handler.rs\<close>.
    \<open>Circuit_Handlers\<close>: \<open>network/proxy_event_handler.rs\<close>, \<open>cmd_event_handler.rs\<close> and
    \<open>publish_event_handler.rs\<close>.
  \<^item> \<open>Queues\<close>, \<open>Relay_Behaviour\<close>: \<open>network/protocols/relay_protocol.rs\<close> and \<open>relay_behaviour.rs\<close>, with
    the pump \<open>start_poll\<close> of a stream, which takes bytes off its substream one by one, so that a read
    can be dropped in the middle of a message. \<open>Behaviour\<close>: \<open>network/whitenoise_behaviour.rs\<close>, the events of
    the three behaviours and both event loops; what the code asks of \<open>libp2p\<close> is recorded in the
    record \<open>swarm\<close>. \<open>Sockets\<close>, \<open>Protocols\<close>: sockets that are read and written directly, and the three
    request codecs over them, with their limit of 8 MiB.
  \<^item> \<open>Host\<close>, \<open>Client\<close>: \<open>sdk/host.rs\<close>, \<open>sdk/client.rs\<close>, the chat client
    \<open>whitenoise-client/src/main.rs\<close> (relative to the root of the repository) and the node's \<open>main.rs\<close>,
    both from the point where \<open>clap\<close> has parsed the command line.
  \<^item> \<open>System\<close>: a running node as a step relation \<open>sys_step\<close>; a state is the world, the swarm and the
    tasks in flight, a step one atomic section of one of them, a call of the client, a request that
    the event loop takes, an event of the network or a round of a pump.
  \<^item> \<open>Circuit_Channel\<close>: a circuit, as a row of nodes with the bytes on the substreams between them and
    a step relation \<open>circuit_step\<close> made of the pumps, the tasks that hand over what was read, the
    handlers and the reader at the end, each by its own definition; and its specification, the bag
    \<open>bag_step\<close>. A step in which a pump writes while it has read a part of a message, and so loses that
    part, is visible as \<open>Chan_cut\<close>.

  \<^bold>\<open>Interfaces.\<close> \<open>framing\<close> (a prefix code), \<open>fifo\<close> (a queue), \<open>request_codec\<close> (reading
  inverts writing, within the limit), \<open>relay_form\<close> (which messages a node may write), \<open>tables\<close>, which extends it (a property of
  the shared tables and of the streams' queues that every insertion of a well-formed entry, every
  removal and every message of that form keeps; all handlers are shown to keep it at every atomic
  section), \<open>scheduler\<close> (when an interleaved system keeps an invariant) and \<open>refinement\<close> (a forward
  simulation and the inclusion of traces it gives) are locales; each is interpreted on the
  definitions of the model.

  \<^bold>\<open>What is shown.\<close>

  \<^item> \<open>Data_Path\<close>: a chat line reaches the other end of a circuit unchanged, through any number of
    nodes, when its message fits the 4096 bytes that a pump reads. \<open>Channel_Props\<close>: as long as no
    stream fails and no read is cut short, a circuit refines an unordered channel, and what was sent
    can still arrive. \<open>Wire_Props\<close>: the contents of a sequence of messages are kept, their order is
    not; streams write what is queued; what a pump makes of whole, too long, empty and partly read
    messages; the queues of the relay behaviour are first in first out; the bounds of the two
    framings; the agreement of the functions over substreams with those over wrapped streams, within
    the reading limit.
  \<^item> \<open>Handshake_Props\<close>: the handshake completes on both ends of a circuit; it accepts an identity
    whose signature does not verify.
  \<^item> \<open>Client_Props\<close>: registration and dialing end to end, the extension of a session by a relay node,
    the announcement that starts the handshake.
  \<^item> \<open>Relay_Props\<close>: forwarding, \<open>SetSessionId\<close> on every branch, closing, probes, failing streams,
    absence of panics in the data path under interference.
  \<^item> \<open>Node_Props\<close>: in every reachable state of a node the tables are consistent and all messages
    queued on its streams can be read by another node, whatever it was sent; acknowledgements
    reach their requester; the wait for a stream ends and loses nothing; a session is set up on both
    of its ends. \<open>Races\<close>: an acknowledgement that comes before its task waits for it is lost.
  \<^item> \<open>Circuit_Props\<close>: the registry of clients, refusal of circuit requests, the choice of the next
    node, the negotiation between caller and answerer; two attacks on a node that the code admits.
  \<^item> \<open>Wire_Props\<close>: new sessions are reported to the client once, and all of them; the account survives
    restarts; the hash of a client.

  \<^bold>\<open>Bounds.\<close> The programs are well-founded trees, so \<open>run\<close> and every function on them is total, and a
  wait shows as \<open>Blocked\<close>. Loops over streams and requests are one round per program, which returns
  the task of the next round. Loops with a fixed number of rounds in the source (the search of a
  stream, the attempts to extend a circuit) recurse on that number. The loops with fuel are
  \<open>read_data\<close> and \<open>read_data_arc\<close>, which read a stream until a data message comes; more rounds than
  there are other messages before it are enough. The chat program is followed for as many rounds as it is given
  events. Lengths, \<open>i32\<close> fields and the random index are words where they wrap. In
  \<open>Circuit_Channel\<close> a round of a handler runs without interference; other tasks of a node act between
  rounds and leave the session and its streams alone.

  \<^bold>\<open>What is not modelled.\<close> Parsing of command lines (\<open>clap\<close>), building the transport and the
  behaviours of \<open>libp2p\<close> (their parameters that the code sets are), the terminal, failures of the
  database, time (a sleep lets others run), the module lists, \<open>protocols/*_behaviour.rs\<close> (constructors
  that nothing calls) and \<open>sdk/chat_message.rs\<close> (a struct that nothing uses). Log output is dropped.
\<close>

end
